(* ===== verification/Prelude.thy ===== *)
theory Prelude
  imports Main "HOL-Library.Word" "HOL-Library.Sublist"
begin

text \<open>
  What every component shares: bytes and Go strings, fallible results, the wrap-around of
  Go's \<open>int64\<close>, loops that stop at the first error, and operations on a state that may fail.

  A Go \<open>[]byte\<close> is a list of 8-bit words, a Go \<open>string\<close> the byte sequence it is in Go, as a
  list of 8-bit characters. A function that returns \<open>(T, error)\<close> returns \<open>'e + 'a\<close>: \<open>Inl\<close> the
  error, \<open>Inr\<close> the value. Each component declares its own error datatype, one constructor for
  each error the source builds.
\<close>

section \<open>Collections the component proofs use\<close>

named_theorems result_simps \<open>how a fallible step succeeds\<close>
named_theorems codec_simps \<open>lengths and inverses of the encoders\<close>

section \<open>Bytes and strings\<close>

type_synonym byte = "8 word"
type_synonym bytes = "byte list"

definition bytes_of :: "string \<Rightarrow> bytes" where
  "bytes_of s = map (\<lambda>c. word_of_nat (of_char c)) s"

definition string_of :: "bytes \<Rightarrow> string" where
  "string_of b = map (\<lambda>x. char_of (unat x)) b"

lemma unat_byte_of_char [simp]: "unat (word_of_nat (of_char c) :: byte) = of_char c"
  by (simp add: unat_of_nat)

lemma unat_byte_less [simp]: "unat (x :: byte) < 256"
  using unsigned_less [of x] by simp

lemma byte_of_char_of [simp]: "(word_of_nat (of_char (char_of (unat x) :: char)) :: byte) = x"
proof -
  have "of_char (char_of (unat x) :: char) = unat x"
    using unat_byte_less [of x] by (simp only: of_char_of mod_less)
  then show ?thesis by simp
qed

lemma string_of_bytes_of [simp, codec_simps]: "string_of (bytes_of s) = s"
  by (simp add: string_of_def bytes_of_def comp_def)

lemma bytes_of_string_of [simp, codec_simps]: "bytes_of (string_of b) = b"
  by (simp add: string_of_def bytes_of_def comp_def)

lemma length_bytes_of [simp]: "length (bytes_of s) = length s"
  by (simp add: bytes_of_def)

lemma length_string_of [simp]: "length (string_of b) = length b"
  by (simp add: string_of_def)

lemma bytes_of_append [simp]: "bytes_of (s @ t) = bytes_of s @ bytes_of t"
  by (simp add: bytes_of_def)

lemma string_of_append [simp]: "string_of (s @ t) = string_of s @ string_of t"
  by (simp add: string_of_def)

lemma bytes_of_inject [simp]: "bytes_of s = bytes_of t \<longleftrightarrow> s = t"
  by (metis string_of_bytes_of)

lemma string_of_inject [simp]: "string_of s = string_of t \<longleftrightarrow> s = t"
  by (metis bytes_of_string_of)

section \<open>Fallible results\<close>

definition bindE :: "'e + 'a \<Rightarrow> ('a \<Rightarrow> 'e + 'b) \<Rightarrow> 'e + 'b" where
  "bindE r f = (case r of Inl e \<Rightarrow> Inl e | Inr x \<Rightarrow> f x)"

text \<open>\<open>if !b { return e }\<close>\<close>

definition requireE :: "bool \<Rightarrow> 'e \<Rightarrow> 'e + unit" where
  "requireE b e = (if b then Inr () else Inl e)"

text \<open>\<open>fmt.Errorf("...: %w", err)\<close> around a failed call\<close>

definition wrapE :: "('e \<Rightarrow> 'f) \<Rightarrow> 'e + 'a \<Rightarrow> 'f + 'a" where
  "wrapE g r = (case r of Inl e \<Rightarrow> Inl (g e) | Inr x \<Rightarrow> Inr x)"

definition optE :: "'e \<Rightarrow> 'a option \<Rightarrow> 'e + 'a" where
  "optE e r = (case r of None \<Rightarrow> Inl e | Some x \<Rightarrow> Inr x)"

lemma bindE_simps [simp]: "bindE (Inl e) f = Inl e" "bindE (Inr x) f = f x"
  by (simp_all add: bindE_def)

lemma bindE_return [simp]: "bindE r Inr = r"
  by (simp add: bindE_def split: sum.splits)

lemma bindE_Inr [result_simps]: "bindE r f = Inr y \<longleftrightarrow> (\<exists>x. r = Inr x \<and> f x = Inr y)"
  by (cases r) simp_all

lemma bindE_Inl: "bindE r f = Inl e \<longleftrightarrow> r = Inl e \<or> (\<exists>x. r = Inr x \<and> f x = Inl e)"
  by (cases r) simp_all

lemma requireE_Inr [simp, result_simps]: "requireE b e = Inr u \<longleftrightarrow> b"
  by (simp add: requireE_def)

lemma requireE_Inl [simp]: "requireE b e = Inl e' \<longleftrightarrow> \<not> b \<and> e = e'"
  by (simp add: requireE_def)

lemma requireE_simps [simp]: "requireE True e = Inr ()" "requireE False e = Inl e"
  by (simp_all add: requireE_def)

lemma wrapE_simps [simp]: "wrapE g (Inl e) = Inl (g e)" "wrapE g (Inr x) = Inr x"
  by (simp_all add: wrapE_def)

lemma wrapE_Inr [simp, result_simps]: "wrapE g r = Inr x \<longleftrightarrow> r = Inr x"
  by (cases r) simp_all

lemma optE_simps [simp]: "optE e None = Inl e" "optE e (Some x) = Inr x"
  by (simp_all add: optE_def)

lemma optE_Inr [simp, result_simps]: "optE e r = Inr x \<longleftrightarrow> r = Some x"
  by (cases r) simp_all

lemma optE_Inl [simp]: "optE e r = Inl e' \<longleftrightarrow> r = None \<and> e = e'"
  by (cases r) auto

subsection \<open>Loops that return at the first error\<close>

fun mapE :: "('a \<Rightarrow> 'e + 'b) \<Rightarrow> 'a list \<Rightarrow> 'e + 'b list" where
  "mapE f [] = Inr []"
| "mapE f (x # xs) = bindE (f x) (\<lambda>y. bindE (mapE f xs) (\<lambda>ys. Inr (y # ys)))"

fun foldE :: "('s \<Rightarrow> 'a \<Rightarrow> 'e + 's) \<Rightarrow> 's \<Rightarrow> 'a list \<Rightarrow> 'e + 's" where
  "foldE f s [] = Inr s"
| "foldE f s (x # xs) = bindE (f s x) (\<lambda>s'. foldE f s' xs)"

lemma foldE_append: "foldE f s (xs @ ys) = bindE (foldE f s xs) (\<lambda>t. foldE f t ys)"
  by (induction xs arbitrary: s) (simp_all add: bindE_def split: sum.splits)

lemma mapE_Inr: "mapE f xs = Inr ys \<longleftrightarrow> list_all2 (\<lambda>x y. f x = Inr y) xs ys"
  by (induction xs arbitrary: ys) (auto simp: bindE_Inr list_all2_Cons1)

lemma mapE_total: "(\<And>x. x \<in> set xs \<Longrightarrow> f x = Inr (g x)) \<Longrightarrow> mapE f xs = Inr (map g xs)"
  by (induction xs) auto

lemma mapE_length: "mapE f xs = Inr ys \<Longrightarrow> length ys = length xs"
  by (auto simp: mapE_Inr dest: list_all2_lengthD)

lemma mapE_cong: "xs = ys \<Longrightarrow> (\<And>x. x \<in> set ys \<Longrightarrow> f x = g x) \<Longrightarrow> mapE f xs = mapE g ys"
  by (induction ys arbitrary: xs) auto

lemma foldE_inv:
  assumes "foldE f s xs = Inr t" "P s"
    and "\<And>s x s'. x \<in> set xs \<Longrightarrow> P s \<Longrightarrow> f s x = Inr s' \<Longrightarrow> P s'"
  shows "P t"
  using assms
proof (induction xs arbitrary: s)
  case Nil
  then show ?case by simp
next
  case (Cons x xs)
  then obtain s' where s': "f s x = Inr s'" "foldE f s' xs = Inr t"
    by (auto simp: bindE_Inr)
  show ?case
    by (rule Cons.IH [OF s'(2)]) (use Cons.prems s'(1) in \<open>auto\<close>)
qed

section \<open>Operations on a state that may fail\<close>

text \<open>
  A call to the server or the file system takes the state and returns the result beside the
  new state; the state reached before an error is kept, as in the program.
\<close>

type_synonym ('s, 'e, 'a) act = "'s \<Rightarrow> ('e + 'a) \<times> 's"

definition retS :: "'a \<Rightarrow> ('s, 'e, 'a) act" where
  "retS x s = (Inr x, s)"

definition failS :: "'e \<Rightarrow> ('s, 'e, 'a) act" where
  "failS e s = (Inl e, s)"

definition liftS :: "'e + 'a \<Rightarrow> ('s, 'e, 'a) act" where
  "liftS r s = (r, s)"

definition bindS :: "('s, 'e, 'a) act \<Rightarrow> ('a \<Rightarrow> ('s, 'e, 'b) act) \<Rightarrow> ('s, 'e, 'b) act" where
  "bindS m f s = (case m s of (Inl e, t) \<Rightarrow> (Inl e, t) | (Inr x, t) \<Rightarrow> f x t)"

definition wrapS :: "('e \<Rightarrow> 'f) \<Rightarrow> ('s, 'e, 'a) act \<Rightarrow> ('s, 'f, 'a) act" where
  "wrapS g m s = (case m s of (r, t) \<Rightarrow> (wrapE g r, t))"

lemma retS_apply [simp]: "retS x s = (Inr x, s)"
  by (simp add: retS_def)

lemma failS_apply [simp]: "failS e s = (Inl e, s)"
  by (simp add: failS_def)

lemma liftS_apply [simp]: "liftS r s = (r, s)"
  by (simp add: liftS_def)

lemma bindS_Inr [result_simps]:
  "bindS m f s = (Inr y, u) \<longleftrightarrow> (\<exists>x t. m s = (Inr x, t) \<and> f x t = (Inr y, u))"
  by (auto simp: bindS_def split: prod.splits sum.splits)

lemma bindS_step: "m s = (Inr x, t) \<Longrightarrow> bindS m f s = f x t"
  by (simp add: bindS_def)

lemma bindS_fail: "m s = (Inl e, t) \<Longrightarrow> bindS m f s = (Inl e, t)"
  by (simp add: bindS_def)

lemma bindS_ret [simp]: "bindS (retS x) f s = f x s"
  by (simp add: bindS_def)

lemma bindS_lift [simp]:
  "bindS (liftS (Inr x)) f s = f x s" "bindS (liftS (Inl e)) f s = (Inl e, s)"
  by (simp_all add: bindS_def)

lemma wrapS_Inr [simp, result_simps]: "wrapS g m s = (Inr x, t) \<longleftrightarrow> m s = (Inr x, t)"
  by (auto simp: wrapS_def split: prod.splits)

fun mapS :: "('a \<Rightarrow> ('s, 'e, 'b) act) \<Rightarrow> 'a list \<Rightarrow> ('s, 'e, 'b list) act" where
  "mapS f [] = retS []"
| "mapS f (x # xs) = bindS (f x) (\<lambda>y. bindS (mapS f xs) (\<lambda>ys. retS (y # ys)))"

fun foldS :: "('b \<Rightarrow> 'a \<Rightarrow> ('s, 'e, 'b) act) \<Rightarrow> 'b \<Rightarrow> 'a list \<Rightarrow> ('s, 'e, 'b) act" where
  "foldS f b [] = retS b"
| "foldS f b (x # xs) = bindS (f b x) (\<lambda>b'. foldS f b' xs)"

subsection \<open>Invariants of operations\<close>

text \<open>\<open>m\<close> keeps \<open>I\<close>, whether it succeeds or fails.\<close>

definition preserves :: "('s \<Rightarrow> bool) \<Rightarrow> ('s, 'e, 'a) act \<Rightarrow> bool" where
  "preserves I m \<longleftrightarrow> (\<forall>s. I s \<longrightarrow> I (snd (m s)))"

named_theorems preserves_intros \<open>invariants of composed operations\<close>

lemma preservesD: "preserves I m \<Longrightarrow> I s \<Longrightarrow> m s = (r, t) \<Longrightarrow> I t"
  by (metis preserves_def snd_conv)

lemma preserves_ret [preserves_intros]: "preserves I (retS x)"
  by (simp add: preserves_def)

lemma preserves_fail [preserves_intros]: "preserves I (failS x)"
  by (simp add: preserves_def)

lemma preserves_lift [preserves_intros]: "preserves I (liftS x)"
  by (simp add: preserves_def)

lemma preserves_wrap [preserves_intros]: "preserves I m \<Longrightarrow> preserves I (wrapS g m)"
  by (auto simp: preserves_def wrapS_def split: prod.split)

lemma preserves_bind [preserves_intros]:
  "preserves I m \<Longrightarrow> (\<And>x. preserves I (f x)) \<Longrightarrow> preserves I (bindS m f)"
  by (auto simp: preserves_def bindS_def split: prod.splits sum.splits)

lemma preserves_if [preserves_intros]:
  "(b \<Longrightarrow> preserves I m) \<Longrightarrow> (\<not> b \<Longrightarrow> preserves I n) \<Longrightarrow> preserves I (if b then m else n)"
  by simp

lemma preserves_pair [preserves_intros]: "preserves I (Pair r)"
  by (simp add: preserves_def)

lemma preserves_case [preserves_intros]:
  "(\<And>a b. preserves I (f a b)) \<Longrightarrow> preserves I (case x of (a, b) \<Rightarrow> f a b)"
  "preserves I m \<Longrightarrow> (\<And>v. preserves I (g v)) \<Longrightarrow> preserves I (case r of None \<Rightarrow> m | Some v \<Rightarrow> g v)"
  "(\<And>e. preserves I (k e)) \<Longrightarrow> (\<And>v. preserves I (g v)) \<Longrightarrow> preserves I (case q of Inl e \<Rightarrow> k e | Inr v \<Rightarrow> g v)"
  by (simp_all split: prod.split option.split sum.split)

lemma preserves_foldS:
  "(\<And>b x. x \<in> set xs \<Longrightarrow> preserves I (f b x)) \<Longrightarrow> preserves I (foldS f b xs)"
  by (induction xs arbitrary: b) (auto intro!: preserves_intros)

lemma preserves_mapS:
  "(\<And>x. x \<in> set xs \<Longrightarrow> preserves I (f x)) \<Longrightarrow> preserves I (mapS f xs)"
  by (induction xs) (auto intro!: preserves_intros)

text \<open>From \<open>I\<close>, \<open>m\<close> returns in \<open>J\<close> or fails in \<open>K\<close>.\<close>

definition hoare :: "('s \<Rightarrow> bool) \<Rightarrow> ('s, 'e, 'a) act \<Rightarrow> ('a \<Rightarrow> 's \<Rightarrow> bool) \<Rightarrow> ('e \<Rightarrow> 's \<Rightarrow> bool) \<Rightarrow> bool" where
  "hoare I m J K \<longleftrightarrow> (\<forall>s r t. I s \<longrightarrow> m s = (r, t) \<longrightarrow> (case r of Inr x \<Rightarrow> J x t | Inl e \<Rightarrow> K e t))"

lemma hoareD: "hoare I m J K \<Longrightarrow> I s \<Longrightarrow> m s = (r, t) \<Longrightarrow> (case r of Inr x \<Rightarrow> J x t | Inl e \<Rightarrow> K e t)"
  by (simp add: hoare_def)

lemma hoareI: "(\<And>s r t. I s \<Longrightarrow> m s = (r, t) \<Longrightarrow> (case r of Inr x \<Rightarrow> J x t | Inl e \<Rightarrow> K e t)) \<Longrightarrow> hoare I m J K"
  by (simp add: hoare_def)

lemma hoare_preserves: "preserves I m \<Longrightarrow> hoare I m (\<lambda>_. I) (\<lambda>_. I)"
  by (rule hoareI) (auto dest: preservesD split: sum.split)

lemma hoare_conseq:
  assumes "hoare I' m J' K'" "\<And>s. I s \<Longrightarrow> I' s" "\<And>x s. J' x s \<Longrightarrow> J x s" "\<And>e s. K' e s \<Longrightarrow> K e s"
  shows "hoare I m J K"
proof (rule hoareI)
  fix s r t assume "I s" "m s = (r, t)"
  with hoareD [OF assms(1) assms(2)] assms(3,4) show "case r of Inr x \<Rightarrow> J x t | Inl e \<Rightarrow> K e t"
    by (cases r) fastforce+
qed

lemma hoare_ret: "(\<And>s. I s \<Longrightarrow> J x s) \<Longrightarrow> hoare I (retS x) J K"
  by (rule hoareI) auto

lemma hoare_fail: "(\<And>s. I s \<Longrightarrow> K e s) \<Longrightarrow> hoare I (failS e) J K"
  by (rule hoareI) auto

lemma hoare_bind:
  assumes "hoare I m M K" "\<And>x. hoare (M x) (f x) J K"
  shows "hoare I (bindS m f) J K"
proof (rule hoareI)
  fix s r t assume h: "I s" "bindS m f s = (r, t)"
  obtain q u where q: "m s = (q, u)" by (cases "m s")
  show "case r of Inr x \<Rightarrow> J x t | Inl e \<Rightarrow> K e t"
    using hoareD [OF assms(1) h(1) q] hoareD [OF assms(2)] h(2) by (cases q) (auto simp: bindS_def q)
qed

lemma hoare_wrap: "hoare I m J (\<lambda>_. K) \<Longrightarrow> hoare I (wrapS g m) J (\<lambda>_. K)"
proof (rule hoareI)
  fix s r t assume h: "hoare I m J (\<lambda>_. K)" "I s" "wrapS g m s = (r, t)"
  obtain q u where q: "m s = (q, u)" by (cases "m s")
  show "case r of Inr x \<Rightarrow> J x t | Inl e \<Rightarrow> K t"
    using hoareD [OF h(1,2) q] h(3) by (cases q) (auto simp: wrapS_def q)
qed

lemma hoare_sum:
  "(\<And>e. r = Inl e \<Longrightarrow> hoare I (k e) J K) \<Longrightarrow> (\<And>v. r = Inr v \<Longrightarrow> hoare I (g v) J K) \<Longrightarrow>
   hoare I (case r of Inl e \<Rightarrow> k e | Inr v \<Rightarrow> g v) J K"
  by (cases r) simp_all

section \<open>Go's int64\<close>

text \<open>Values of type \<open>int64\<close> are \<open>int\<close>; an operation that can leave the range wraps.\<close>

definition i64 :: "int \<Rightarrow> int" where
  "i64 x = (x + 2 ^ 63) mod 2 ^ 64 - 2 ^ 63"

definition is_i64 :: "int \<Rightarrow> bool" where
  "is_i64 x \<longleftrightarrow> - (2 ^ 63) \<le> x \<and> x < 2 ^ 63"

lemma i64_id: "is_i64 x \<Longrightarrow> i64 x = x"
  by (simp add: i64_def is_i64_def)

lemma is_i64_i64 [simp]: "is_i64 (i64 x)"
  using pos_mod_bound [of "2 ^ 64" "x + 2 ^ 63"] pos_mod_sign [of "2 ^ 64" "x + 2 ^ 63"]
  by (simp add: i64_def is_i64_def)

lemma i64_cong: "i64 x = x + 2 ^ 64 * (- ((x + 2 ^ 63) div 2 ^ 64))"
  by (simp add: i64_def minus_div_mult_eq_mod [symmetric] algebra_simps)

section \<open>Iteration over a Go map\<close>

text \<open>
  Go visits the entries of a map in an order it does not specify. Where the code ranges over
  a map, the model takes the order as an argument, constrained only to be an enumeration
  of the entries.
\<close>

definition enumerates :: "'k list \<Rightarrow> 'k set \<Rightarrow> bool" where
  "enumerates ks K \<longleftrightarrow> distinct ks \<and> set ks = K"

end
