(* ===== verification/GF256.thy ===== *)
theory GF256
  imports Prelude
begin

text \<open>
  Arithmetic in GF(256) (\<open>shamir.go\<close>): the bitwise multiplication, the exponential and
  logarithm tables \<open>init\<close> builds from the generator 3, and the table-driven \<open>gfMul\<close> and
  \<open>gfDiv\<close>. The tables are shown to compute the bitwise product, and bytes with XOR and
  \<open>gfMul\<close> to be a field; the type \<open>gf\<close> carries the field instance the interpolation proof uses.
\<close>

unbundle bit_operations_syntax

section \<open>The code\<close>

text \<open>One round of \<open>gfMulRaw\<close>: doubling reduces by the polynomial 0x11b.\<close>

definition gf_double :: "byte \<Rightarrow> byte" where
  "gf_double a = (let hi = a AND 0x80; a' = push_bit 1 a in if hi \<noteq> 0 then a' XOR 0x1b else a')"

fun gfMulRaw_loop :: "nat \<Rightarrow> byte \<Rightarrow> byte \<Rightarrow> byte \<Rightarrow> byte" where
  "gfMulRaw_loop 0 a b p = p"
| "gfMulRaw_loop (Suc n) a b p =
     gfMulRaw_loop n (gf_double a) (drop_bit 1 b) (if b AND 1 \<noteq> 0 then p XOR a else p)"

definition gfMulRaw :: "byte \<Rightarrow> byte \<Rightarrow> byte" where
  "gfMulRaw a b = gfMulRaw_loop 8 a b 0"

text \<open>\<open>init\<close>: \<open>x\<close>, the table \<open>gfExp\<close> and the table \<open>gfLog\<close>, both of 256 bytes.\<close>

definition gf_init_step :: "byte \<times> bytes \<times> bytes \<Rightarrow> nat \<Rightarrow> byte \<times> bytes \<times> bytes" where
  "gf_init_step s i =
     (case s of (x, ex, lg) \<Rightarrow> (gfMulRaw x 3, ex[i := x], lg[unat x := word_of_nat i]))"

definition gf_tables :: "bytes \<times> bytes" where
  "gf_tables =
     (case foldl gf_init_step (1, replicate 256 0, replicate 256 0) [0..<255]
      of (x, ex, lg) \<Rightarrow> (ex[255 := 1], lg))"

definition gfExp :: "nat \<Rightarrow> byte" where
  "gfExp i = fst gf_tables ! i"

definition gfLog :: "byte \<Rightarrow> nat" where
  "gfLog a = unat (snd gf_tables ! unat a)"

definition gfMul :: "byte \<Rightarrow> byte \<Rightarrow> byte" where
  "gfMul a b = (if a = 0 \<or> b = 0 then 0 else gfExp ((gfLog a + gfLog b) mod 255))"

definition gfDiv :: "byte \<Rightarrow> byte \<Rightarrow> byte" where
  "gfDiv a b = (if a = 0 then 0 else gfExp (nat ((int (gfLog a) - int (gfLog b) + 255) mod 255)))"

section \<open>The bitwise product is bilinear\<close>

lemma and_128_neq_0: "a AND 0x80 \<noteq> 0 \<longleftrightarrow> bit (a :: byte) 7"
  using and_exp_eq_0_iff_not_bit [of a 7] by simp

lemma and_1_neq_0: "b AND 1 \<noteq> 0 \<longleftrightarrow> bit (b :: byte) 0"
  using and_exp_eq_0_iff_not_bit [of b 0] by simp

lemma gf_double_alt: "gf_double a = push_bit 1 a XOR (if bit a 7 then 0x1b else 0)"
  unfolding gf_double_def Let_def and_128_neq_0 by simp

lemma gf_double_xor: "gf_double (a XOR b) = gf_double a XOR gf_double b"
proof -
  have x: "(if bit (a XOR b) 7 then 0x1b else 0 :: byte)
      = (if bit a 7 then 0x1b else 0) XOR (if bit b 7 then 0x1b else 0)"
    by (auto simp: bit_xor_iff)
  show ?thesis
    unfolding gf_double_alt push_bit_xor x by (simp only: xor.assoc xor.left_commute)
qed

lemma gf_double_0 [simp]: "gf_double 0 = 0"
  by (simp add: gf_double_alt)

lemma gfMulRaw_loop_xor_left:
  "gfMulRaw_loop n (a XOR a') b (p XOR p') = gfMulRaw_loop n a b p XOR gfMulRaw_loop n a' b p'"
proof (induction n arbitrary: a a' b p p')
  case 0
  then show ?case by simp
next
  case (Suc n)
  have "(if b AND 1 \<noteq> 0 then (p XOR p') XOR (a XOR a') else p XOR p')
      = (if b AND 1 \<noteq> 0 then p XOR a else p) XOR (if b AND 1 \<noteq> 0 then p' XOR a' else p')"
    by (simp add: xor.assoc xor.left_commute)
  then show ?case by (simp only: gfMulRaw_loop.simps gf_double_xor Suc.IH)
qed

lemma gfMulRaw_loop_double:
  "gfMulRaw_loop n (gf_double a) b (gf_double p) = gf_double (gfMulRaw_loop n a b p)"
proof (induction n arbitrary: a b p)
  case (Suc n)
  have "(if b AND 1 \<noteq> 0 then gf_double p XOR gf_double a else gf_double p)
      = gf_double (if b AND 1 \<noteq> 0 then p XOR a else p)"
    by (simp add: gf_double_xor)
  then show ?case by (simp only: gfMulRaw_loop.simps Suc.IH)
qed simp

lemma gfMulRaw_xor_left: "gfMulRaw (a XOR a') b = gfMulRaw a b XOR gfMulRaw a' b"
  using gfMulRaw_loop_xor_left [of 8 a a' b 0 0] by (simp add: gfMulRaw_def)

lemma gfMulRaw_double_left: "gfMulRaw (gf_double a) b = gf_double (gfMulRaw a b)"
  using gfMulRaw_loop_double [of 8 a b 0] by (simp add: gfMulRaw_def)

lemma gfMulRaw_0_left [simp]: "gfMulRaw 0 b = 0"
  using gfMulRaw_xor_left [of 0 0 b] by simp

text \<open>Evaluation of closed products.\<close>

lemma gfMulRaw_unroll:
  "gfMulRaw a b = gfMulRaw_loop (Suc (Suc (Suc (Suc (Suc (Suc (Suc (Suc 0)))))))) a b 0"
  by (simp add: gfMulRaw_def eval_nat_numeral)

lemmas gfMulRaw_eval = gfMulRaw_unroll gf_double_def Let_def

lemma gfMulRaw_3: "gfMulRaw a 3 = a XOR gf_double a"
  by (simp add: gfMulRaw_unroll)

lemma gfMulRaw_1_loop:
  "k + n \<le> 8 \<Longrightarrow> gfMulRaw_loop n (push_bit k 1) b p = p XOR push_bit k (take_bit n b)"
proof (induction n arbitrary: k b p)
  case 0
  then show ?case by simp
next
  case (Suc n)
  have b: "take_bit (Suc n) b = (if b AND 1 \<noteq> 0 then 1 else 0) XOR push_bit 1 (take_bit n (drop_bit 1 b))"
  proof (rule bit_word_eqI)
    fix i
    assume "i < LENGTH(8)"
    then show "bit (take_bit (Suc n) b) i
        = bit ((if b AND 1 \<noteq> 0 then 1 else 0) XOR push_bit 1 (take_bit n (drop_bit 1 b))) i"
      unfolding and_1_neq_0 bit_xor_iff bit_push_bit_iff bit_take_bit_iff bit_drop_bit_eq o_def
      by (cases i) (simp_all add: bit_1_iff)
  qed
  show ?case
  proof (cases n)
    case 0
    then show ?thesis using b by simp
  next
    case (Suc m)
    then have "\<not> bit (push_bit k (1 :: byte)) 7"
      using Suc.prems by (auto simp: bit_simps)
    then have "gf_double (push_bit k 1) = push_bit (Suc k) 1"
      by (simp add: gf_double_alt)
    then show ?thesis
      using Suc.IH [of "Suc k" "drop_bit 1 b"] Suc.prems
      by (simp add: b push_bit_xor xor.assoc)
  qed
qed

lemma gfMulRaw_1_left: "gfMulRaw 1 b = b"
proof -
  have "take_bit 8 b = b"
    using take_bit_length_eq [of b] by simp
  then show ?thesis
    using gfMulRaw_1_loop [of 0 8 b 0] by (simp add: gfMulRaw_def)
qed

section \<open>Powers of the generator\<close>

definition gf_pow :: "nat \<Rightarrow> byte" where
  "gf_pow i = ((\<lambda>x. gfMulRaw x 3) ^^ i) 1"

lemma gf_pow_0 [simp]: "gf_pow 0 = 1"
  by (simp add: gf_pow_def)

lemma gf_pow_Suc: "gf_pow (Suc i) = gfMulRaw (gf_pow i) 3"
  by (simp add: gf_pow_def)

lemma gfMulRaw_triple_left: "gfMulRaw (gfMulRaw a 3) b = gfMulRaw (gfMulRaw a b) 3"
  by (simp add: gfMulRaw_3 gfMulRaw_xor_left gfMulRaw_double_left)

lemma gf_pow_add: "gfMulRaw (gf_pow i) (gf_pow j) = gf_pow (i + j)"
  by (induction i) (simp_all add: gfMulRaw_1_left gf_pow_Suc gfMulRaw_triple_left)

lemma gf_pow_double: "gf_pow (2 * i) = gfMulRaw (gf_pow i) (gf_pow i)"
  by (simp add: gf_pow_add mult_2)

lemma gf_pow_values:
  "gf_pow 15 = 53" "gf_pow 51 = 12" "gf_pow 85 = 189" "gf_pow 255 = 1"
proof -
  have 1: "gf_pow 1 = 3" using gf_pow_Suc [of 0] by (simp add: gfMulRaw_1_left)
  have 2: "gf_pow 2 = 5" using gf_pow_double [of 1] unfolding 1 by (simp add: gfMulRaw_eval)
  have 4: "gf_pow 4 = 17" using gf_pow_double [of 2] unfolding 2 by (simp add: gfMulRaw_eval)
  have 5: "gf_pow 5 = 51" using gf_pow_add [of 4 1] unfolding 4 1 by (simp add: gfMulRaw_eval)
  have 10: "gf_pow 10 = 114" using gf_pow_double [of 5] unfolding 5 by (simp add: gfMulRaw_eval)
  show 15: "gf_pow 15 = 53" using gf_pow_add [of 10 5] unfolding 10 5 by (simp add: gfMulRaw_eval)
  have 17: "gf_pow 17 = 225" using gf_pow_add [of 15 2] unfolding 15 2 by (simp add: gfMulRaw_eval)
  have 34: "gf_pow 34 = 92" using gf_pow_double [of 17] unfolding 17 by (simp add: gfMulRaw_eval)
  show 51: "gf_pow 51 = 12" using gf_pow_add [of 34 17] unfolding 34 17 by (simp add: gfMulRaw_eval)
  show 85: "gf_pow 85 = 189" using gf_pow_add [of 51 34] unfolding 51 34 by (simp add: gfMulRaw_eval)
  have 170: "gf_pow 170 = 188" using gf_pow_double [of 85] unfolding 85 by (simp add: gfMulRaw_eval)
  show "gf_pow 255 = 1" using gf_pow_add [of 170 85] unfolding 170 85 by (simp add: gfMulRaw_eval)
qed

lemma gf_pow_mult: "gf_pow d = 1 \<Longrightarrow> gf_pow (d * n + i) = gf_pow i"
proof (induction n)
  case (Suc n)
  have "gf_pow (d * Suc n + i) = gfMulRaw (gf_pow d) (gf_pow (d * n + i))"
    by (simp add: gf_pow_add add.assoc)
  with Suc show ?case by (simp add: gfMulRaw_1_left)
qed simp

lemma gf_pow_mod: "gf_pow (i mod 255) = gf_pow i"
  using gf_pow_mult [OF gf_pow_values(4), of "i div 255" "i mod 255"] by simp

lemma divisor_255: "g dvd 255 \<Longrightarrow> g \<noteq> 255 \<Longrightarrow> g dvd 85 \<or> g dvd 51 \<or> g dvd (15 :: nat)"
proof -
  assume "g dvd 255" "g \<noteq> 255"
  then have "g \<le> 255" by (simp add: dvd_imp_le)
  have "list_all (\<lambda>g. \<not> g dvd 255 \<or> g dvd 85 \<or> g dvd 51 \<or> g dvd (15 :: nat)) [0..<255]"
    by code_simp
  moreover from \<open>g \<le> 255\<close> \<open>g \<noteq> 255\<close> have "g \<in> set [0..<255]" by simp
  ultimately show ?thesis
    using \<open>g dvd 255\<close> by (auto simp: list_all_iff)
qed

text \<open>3 generates: its order is 255, since no proper divisor of 255 is a period.\<close>

lemma gf_pow_order: "0 < d \<Longrightarrow> d < 255 \<Longrightarrow> gf_pow d \<noteq> 1"
proof
  assume d: "0 < d" "d < 255" and e: "gf_pow d = 1"
  obtain x y where xy: "d * x = 255 * y + gcd d 255"
    using bezout_nat [of d 255] d(1) by auto
  let ?g = "gcd d 255"
  have g: "gf_pow ?g = 1"
    using gf_pow_mult [OF gf_pow_values(4), of y ?g] gf_pow_mult [OF e, of x 0] xy by simp
  have "?g \<noteq> 255"
    using dvd_imp_le [OF gcd_dvd1 [of d 255] d(1)] d(2) by simp
  then have "?g dvd 85 \<or> ?g dvd 51 \<or> ?g dvd 15"
    by (intro divisor_255) simp_all
  then obtain n where n: "n = 85 \<or> n = 51 \<or> n = 15" "?g dvd n" by blast
  then have "gf_pow n = 1"
    using gf_pow_mult [OF g, of "n div ?g" 0] by (auto simp: dvd_mult_div_cancel)
  with n(1) gf_pow_values show False by auto
qed

lemma gf_pow_inject: "i < 255 \<Longrightarrow> j < 255 \<Longrightarrow> gf_pow i = gf_pow j \<longleftrightarrow> i = j"
proof -
  have lt: False if "i < j" "j < 255" "gf_pow i = gf_pow j" for i j
  proof -
    have "gf_pow (i + (255 - j)) = gf_pow (j + (255 - j))"
      unfolding gf_pow_add [symmetric] that(3) ..
    with that(2) have "gf_pow (i + (255 - j)) = 1"
      by (simp add: gf_pow_values)
    with gf_pow_order [of "i + (255 - j)"] that(1,2) show False by simp
  qed
  then show "i < 255 \<Longrightarrow> j < 255 \<Longrightarrow> gf_pow i = gf_pow j \<longleftrightarrow> i = j"
    by (metis linorder_neqE_nat)
qed

lemma gf_pow_nonzero [simp]: "gf_pow i \<noteq> 0"
proof
  assume "gf_pow i = 0"
  then have "gf_pow (i mod 255 + (255 - i mod 255)) = 0"
    unfolding gf_pow_add [symmetric] by (simp add: gf_pow_mod)
  moreover have "i mod 255 + (255 - i mod 255) = 255"
    using mod_less_divisor [of 255 i] by simp
  ultimately show False by (simp add: gf_pow_values)
qed

lemma nonzero_is_pow: "a \<noteq> 0 \<Longrightarrow> \<exists>i<255. a = gf_pow i"
proof -
  have "gf_pow ` {0..<255} \<subseteq> UNIV - {0}" by auto
  moreover have "card (gf_pow ` {0..<255}) = 255"
    by (subst card_image) (auto simp: inj_on_def gf_pow_inject)
  moreover have "card (UNIV - {0 :: byte}) = 255"
    by (simp add: card_Diff_singleton card_word)
  ultimately have "gf_pow ` {0..<255} = UNIV - {0}"
    by (intro card_subset_eq) simp_all
  moreover assume "a \<noteq> 0"
  ultimately have "a \<in> gf_pow ` {0..<255}" by blast
  then show "\<exists>i<255. a = gf_pow i" by auto
qed

section \<open>The tables are the powers and their logarithms\<close>

lemma gf_init_prefix:
  "n \<le> 255 \<Longrightarrow> foldl gf_init_step (1, replicate 256 0, replicate 256 0) [0..<n] = (x, ex, lg) \<Longrightarrow>
     x = gf_pow n \<and> length ex = 256 \<and> length lg = 256 \<and>
     (\<forall>i<n. ex ! i = gf_pow i \<and> lg ! unat (gf_pow i) = word_of_nat i)"
proof (induction n arbitrary: x ex lg)
  case 0
  then show ?case by auto
next
  case (Suc n)
  obtain x' ex' lg' where p:
    "foldl gf_init_step (1, replicate 256 0, replicate 256 0) [0..<n] = (x', ex', lg')"
    by (cases "foldl gf_init_step (1, replicate 256 0, replicate 256 0) [0..<n]") auto
  note IH = Suc.IH [OF _ p]
  from Suc.prems(2) have "gf_init_step (x', ex', lg') n = (x, ex, lg)"
    by (simp add: p)
  then have eq: "x = gfMulRaw x' 3" "ex = ex'[n := x']" "lg = lg'[unat x' := word_of_nat n]"
    by (simp_all add: gf_init_step_def)
  have ne: "unat (gf_pow i) \<noteq> unat (gf_pow n)" if "i < n" for i
    using that Suc.prems(1) by (simp add: gf_pow_inject word_unat_eq_iff [symmetric])
  have b: "unat (gf_pow n) < 256" by (rule unat_byte_less)
  show ?case
  proof (intro conjI allI impI)
    fix i
    assume "i < Suc n"
    then have c: "i < n \<or> i = n" by linarith
    then show "ex ! i = gf_pow i"
      using IH Suc.prems(1) eq(2) by (elim disjE) simp_all
    from c show "lg ! unat (gf_pow i) = word_of_nat i"
    proof
      assume "i < n"
      then have "unat (gf_pow n) \<noteq> unat (gf_pow i)" by (rule ne [THEN not_sym])
      then have "lg ! unat (gf_pow i) = lg' ! unat (gf_pow i)"
        using IH Suc.prems(1) unfolding eq(3) by (simp add: nth_list_update)
      with IH Suc.prems(1) \<open>i < n\<close> show ?thesis by simp
    next
      assume "i = n"
      with IH Suc.prems(1) b show ?thesis by (simp add: eq(3))
    qed
  qed (use IH Suc.prems(1) eq in \<open>simp_all add: gf_pow_Suc\<close>)
qed

lemma gf_tables_spec:
  "\<forall>i<255. gfExp i = gf_pow i" "\<forall>i<255. gfLog (gf_pow i) = i"
proof -
  obtain x ex lg where p:
    "foldl gf_init_step (1, replicate 256 0, replicate 256 0) [0..<255] = (x, ex, lg)"
    by (cases "foldl gf_init_step (1, replicate 256 0, replicate 256 0) [0..<255]") auto
  note inv = gf_init_prefix [OF order_refl p]
  have t: "gf_tables = (ex[255 := 1], lg)"
    unfolding gf_tables_def p by simp
  show "\<forall>i<255. gfExp i = gf_pow i" "\<forall>i<255. gfLog (gf_pow i) = i"
    using inv by (simp_all add: gfExp_def gfLog_def t unat_of_nat)
qed

lemma gfExp_pow: "gfExp (i mod 255) = gf_pow i"
  using gf_tables_spec(1) by (simp add: gf_pow_mod)

lemma gfLog_less: "a \<noteq> 0 \<Longrightarrow> gfLog a < 255 \<and> gf_pow (gfLog a) = a"
  using nonzero_is_pow [of a] gf_tables_spec(2) by auto

lemma gfMul_eq_raw: "gfMul a b = gfMulRaw a b"
proof -
  consider "a = 0" | "b = 0" "a \<noteq> 0" | "a \<noteq> 0" "b \<noteq> 0" by blast
  then show ?thesis
  proof cases
    case 1
    then show ?thesis by (simp add: gfMul_def)
  next
    case 2
    then have "gfMulRaw a b = 0"
      by (simp add: gfMulRaw_eval)
    with 2 show ?thesis by (simp add: gfMul_def)
  next
    case 3
    then have "gfMul a b = gf_pow (gfLog a + gfLog b)"
      by (simp add: gfMul_def gfExp_pow)
    also have "\<dots> = gfMulRaw a b"
      unfolding gf_pow_add [symmetric] using 3 gfLog_less by simp
    finally show ?thesis .
  qed
qed

section \<open>Bytes are a field\<close>

lemma gfMul_pow: "gfMul (gf_pow i) (gf_pow j) = gf_pow (i + j)"
  by (simp add: gfMul_eq_raw gf_pow_add)

lemma gfMul_0 [simp]: "gfMul 0 a = 0" "gfMul a 0 = 0"
  by (simp_all add: gfMul_def)

lemma gfMul_eq_0: "gfMul a b = 0 \<longleftrightarrow> a = 0 \<or> b = 0"
  using gf_pow_nonzero by (auto simp: gfMul_def gfExp_pow)

lemma gfMul_comm: "gfMul a b = gfMul b a"
  by (simp add: gfMul_def add.commute)

lemma gfMul_assoc: "gfMul (gfMul a b) c = gfMul a (gfMul b c)"
proof (cases "a = 0 \<or> b = 0 \<or> c = 0")
  case False
  then obtain i j k where "a = gf_pow i" "b = gf_pow j" "c = gf_pow k"
    using nonzero_is_pow by meson
  then show ?thesis by (simp add: gfMul_pow add.assoc)
qed auto

lemma gfMul_1 [simp]: "gfMul 1 a = a" "gfMul a 1 = a"
  using gfMulRaw_1_left [of a] by (simp_all add: gfMul_eq_raw [symmetric] gfMul_comm [of a])

lemma gfMul_xor_left: "gfMul (a XOR b) c = gfMul a c XOR gfMul b c"
  by (simp add: gfMul_eq_raw gfMulRaw_xor_left)

lemma gfDiv_mul: "b \<noteq> 0 \<Longrightarrow> gfMul (gfDiv a b) b = a"
proof (cases "a = 0")
  case False
  assume b: "b \<noteq> 0"
  note la = gfLog_less [OF False] and lb = gfLog_less [OF b]
  have "gfDiv a b = gfExp (nat ((int (gfLog a) - int (gfLog b) + 255) mod 255))"
    using False by (simp add: gfDiv_def)
  also have "int (gfLog a) - int (gfLog b) + 255 = int (gfLog a + (255 - gfLog b))"
    using lb by simp
  also have "nat (\<dots> mod 255) = (gfLog a + (255 - gfLog b)) mod 255"
    by (metis nat_int of_nat_numeral zmod_int)
  also have "gfExp \<dots> = gf_pow (gfLog a + (255 - gfLog b))"
    by (rule gfExp_pow)
  finally have "gfMul (gfDiv a b) b = gf_pow (gfLog a + (255 - gfLog b) + gfLog b)"
    using gfMul_pow lb by metis
  also have "gfLog a + (255 - gfLog b) + gfLog b = 255 * 1 + gfLog a"
    using lb by simp
  also have "gf_pow (255 * 1 + gfLog a) = a"
    using gf_pow_mult [OF gf_pow_values(4), of 1 "gfLog a"] la by simp
  finally show ?thesis .
qed (simp add: gfDiv_def)

lemma gfMul_cancel: "c \<noteq> 0 \<Longrightarrow> gfMul a c = gfMul b c \<longleftrightarrow> a = b"
proof -
  assume c: "c \<noteq> 0"
  have "gfMul (gfMul x c) (gfDiv 1 c) = x" for x
    using gfDiv_mul [OF c, of 1] by (simp add: gfMul_assoc gfMul_comm [of c])
  then show ?thesis by metis
qed

lemma gfDiv_eq: "b \<noteq> 0 \<Longrightarrow> gfDiv a b = gfMul a (gfDiv 1 b)"
  using gfMul_cancel [of b "gfDiv a b" "gfMul a (gfDiv 1 b)"]
  by (simp add: gfDiv_mul gfMul_assoc)

subsection \<open>The field type\<close>

datatype gf = Gf (gf_byte: byte)

instantiation gf :: field
begin

definition zero_gf :: gf where "0 = Gf 0"
definition one_gf :: gf where "1 = Gf 1"
definition plus_gf :: "gf \<Rightarrow> gf \<Rightarrow> gf" where "a + b = Gf (gf_byte a XOR gf_byte b)"
definition minus_gf :: "gf \<Rightarrow> gf \<Rightarrow> gf" where "a - b = Gf (gf_byte a XOR gf_byte b)"
definition uminus_gf :: "gf \<Rightarrow> gf" where "- a = (a :: gf)"
definition times_gf :: "gf \<Rightarrow> gf \<Rightarrow> gf" where "a * b = Gf (gfMul (gf_byte a) (gf_byte b))"
definition inverse_gf :: "gf \<Rightarrow> gf" where
  "inverse a = (if gf_byte a = 0 then Gf 0 else Gf (gfDiv 1 (gf_byte a)))"
definition divide_gf :: "gf \<Rightarrow> gf \<Rightarrow> gf" where "divide a b = a * inverse (b :: gf)"

lemmas gf_defs = zero_gf_def one_gf_def plus_gf_def minus_gf_def uminus_gf_def times_gf_def
  inverse_gf_def divide_gf_def

instance
proof
  fix a b c :: gf
  show "a * b * c = a * (b * c)" by (simp add: gf_defs gfMul_assoc)
  show "a * b = b * a" by (simp add: gf_defs gfMul_comm)
  show "1 * a = a" by (simp add: gf_defs)
  show "a + b + c = a + (b + c)" by (simp add: gf_defs xor.assoc)
  show "a + b = b + a" by (simp add: gf_defs xor.commute)
  show "0 + a = a" by (simp add: gf_defs)
  show "- a + a = 0" by (simp add: gf_defs)
  show "a - b = a + - b" by (simp add: gf_defs)
  show "(a + b) * c = a * c + b * c" by (simp add: gf_defs gfMul_xor_left)
  show "(0 :: gf) \<noteq> 1" by (simp add: gf_defs)
  show "a \<noteq> 0 \<Longrightarrow> inverse a * a = 1"
    by (cases a) (simp add: gf_defs gfDiv_mul)
  show "a div b = a * inverse b" by (simp add: gf_defs)
  show "inverse (0 :: gf) = 0" by (simp add: gf_defs)
qed

end

section \<open>Properties\<close>

text \<open>The product and quotient computed through the exponent and logarithm tables agree with the bitwise
  multiplication modulo 0x11b the tables are built from, for all 65536 pairs, and
  division undoes multiplication.\<close>

lemma gf_tables_correct:
  "gfMul a b = gfMulRaw a b \<and> (b \<noteq> 0 \<longrightarrow> gfMul (gfDiv a b) b = a)"
  using gfMul_eq_raw gfDiv_mul by simp

lemma gf_tables_correct_instance: "gfMul (gfDiv 5 7) 7 = 5"
  using gf_tables_correct [of 5 7] by simp

end
