(* ===== verification/Interpolation.thy ===== *)
theory Interpolation
  imports Main
begin

text \<open>
  Polynomials over a field as coefficient lists (constant term first, as in the code) and
  their values by Horner's rule: a polynomial of \<open>n\<close> coefficients is determined by its values
  at \<open>n\<close> points, and for any values there is one. This is the mathematics behind the
  threshold property of the shares.
\<close>

definition horner :: "'a::field list \<Rightarrow> 'a \<Rightarrow> 'a" where
  "horner cs x = foldr (\<lambda>c r. r * x + c) cs 0"

lemma horner_Nil [simp]: "horner [] x = 0"
  by (simp add: horner_def)

lemma horner_Cons [simp]: "horner (c # cs) x = horner cs x * x + c"
  by (simp add: horner_def)

lemma horner_at_0: "cs \<noteq> [] \<Longrightarrow> horner cs 0 = hd cs"
  by (cases cs) simp_all

lemma horner_zeros [simp]: "horner (replicate n 0) x = 0"
  by (induction n) simp_all

lemma horner_pad: "horner (cs @ replicate n 0) x = horner cs x"
  by (induction cs) simp_all

section \<open>Values at as many points as coefficients determine the coefficients\<close>

text \<open>Division by \<open>x - a\<close>.\<close>

fun quot :: "'a::field \<Rightarrow> 'a list \<Rightarrow> 'a list" where
  "quot a [] = []"
| "quot a [c] = []"
| "quot a (c # d # cs) = horner (d # cs) a # quot a (d # cs)"

lemma length_quot [simp]: "length (quot a cs) = length cs - 1"
  by (induction a cs rule: quot.induct) simp_all

lemma horner_quot: "horner cs x = (x - a) * horner (quot a cs) x + horner cs a"
proof (induction a cs rule: quot.induct)
  case (3 a c d cs)
  have "horner (c # d # cs) x = horner (d # cs) x * x + c" by simp
  also have "\<dots> = ((x - a) * horner (quot a (d # cs)) x + horner (d # cs) a) * x + c"
    by (subst 3) simp
  also have "\<dots> = (x - a) * (horner (quot a (d # cs)) x * x + horner (d # cs) a)
      + (horner (d # cs) a * a + c)"
    by (simp add: algebra_simps)
  finally show ?case by simp
qed simp_all

lemma quot_zero: "list_all (\<lambda>c. c = 0) (quot a cs) \<Longrightarrow> horner cs a = 0 \<Longrightarrow> list_all (\<lambda>c. c = 0) cs"
  by (induction a cs rule: quot.induct) auto

lemma roots_zero:
  assumes "distinct xs" "length cs = length xs" "\<And>x. x \<in> set xs \<Longrightarrow> horner cs x = 0"
  shows "list_all (\<lambda>c. c = 0) cs"
  using assms
proof (induction xs arbitrary: cs)
  case Nil
  then show ?case by simp
next
  case (Cons a xs)
  have "horner (quot a cs) x = 0" if "x \<in> set xs" for x
  proof -
    have "x \<noteq> a" using that Cons.prems(1) by auto
    moreover have "(x - a) * horner (quot a cs) x = 0"
    proof -
      have "horner cs x = 0" "horner cs a = 0" using Cons.prems(3) that by simp_all
      then show ?thesis using horner_quot [of cs x a] by (simp only: add_0_right)
    qed
    ultimately show ?thesis by simp
  qed
  then have "list_all (\<lambda>c. c = 0) (quot a cs)"
    using Cons by (intro Cons.IH) simp_all
  then show ?case
    using Cons.prems(3) [of a] by (rule_tac quot_zero [of a cs]) simp_all
qed

lemma horner_diff: "length cs = length ds \<Longrightarrow> horner (map2 (-) cs ds) x = horner cs x - horner ds x"
  by (induction cs ds rule: list_induct2) (simp_all add: left_diff_distrib)

lemma horner_unique:
  assumes "distinct xs" "length cs = length xs" "length ds = length xs"
    and "\<And>x. x \<in> set xs \<Longrightarrow> horner cs x = horner ds x"
  shows "cs = ds"
proof -
  have "list_all (\<lambda>c. c = 0) (map2 (-) cs ds)"
    using assms by (intro roots_zero [of xs]) (simp_all add: horner_diff)
  then show ?thesis
    using assms(2,3) by (intro nth_equalityI) (auto simp: list_all_length)
qed

section \<open>Lagrange's polynomial\<close>

definition poly_fun :: "nat \<Rightarrow> ('a::field \<Rightarrow> 'a) \<Rightarrow> bool" where
  "poly_fun n f \<longleftrightarrow> (\<exists>cs. length cs = n \<and> (\<forall>x. horner cs x = f x))"

lemma poly_fun_0: "poly_fun n (\<lambda>x. 0)"
  unfolding poly_fun_def by (intro exI [of _ "replicate n 0"]) simp

lemma horner_add: "length cs = length ds \<Longrightarrow> horner (map2 (+) cs ds) x = horner cs x + horner ds x"
  by (induction cs ds rule: list_induct2) (simp_all add: algebra_simps)

lemma poly_fun_add: "poly_fun n f \<Longrightarrow> poly_fun n g \<Longrightarrow> poly_fun n (\<lambda>x. f x + g x)"
  unfolding poly_fun_def by (metis horner_add length_map length_zip min.idem)

lemma horner_smult: "horner (map ((*) k) cs) x = k * horner cs x"
  by (induction cs) (simp_all add: algebra_simps)

lemma poly_fun_smult: "poly_fun n f \<Longrightarrow> poly_fun n (\<lambda>x. k * f x)"
  unfolding poly_fun_def by (metis horner_smult length_map)

lemma poly_fun_linear: "poly_fun n f \<Longrightarrow> poly_fun (Suc n) (\<lambda>x. (x - a) * f x)"
proof -
  assume "poly_fun n f"
  then obtain cs where cs: "length cs = n" "\<And>x. horner cs x = f x"
    by (auto simp: poly_fun_def)
  let ?ds = "map2 (+) (0 # cs) (map ((*) (- a)) cs @ [0])"
  have "horner (map ((*) (- a)) cs @ [0]) x = - a * f x" for x
    using horner_pad [of "map ((*) (- a)) cs" 1 x] by (simp add: horner_smult cs(2))
  then have "horner ?ds x = (x - a) * f x" for x
    by (subst horner_add) (simp_all add: cs algebra_simps)
  moreover have "length ?ds = Suc n" by (simp add: cs)
  ultimately show ?thesis unfolding poly_fun_def by blast
qed

lemma poly_fun_prod: "poly_fun (Suc (length as)) (\<lambda>x. prod_list (map (\<lambda>a. x - a) as))"
proof (induction as)
  case Nil
  show ?case unfolding poly_fun_def by (intro exI [of _ "[1]"]) simp
next
  case (Cons a as)
  then show ?case using poly_fun_linear [OF Cons, of a] by simp
qed

text \<open>The points and values; \<open>others i\<close> are the points but the \<open>i\<close>th.\<close>

definition others :: "'a list \<Rightarrow> nat \<Rightarrow> 'a list" where
  "others xs i = map ((!) xs) (filter (\<lambda>j. j \<noteq> i) [0..<length xs])"

definition lagrange :: "'a::field list \<Rightarrow> 'a list \<Rightarrow> 'a \<Rightarrow> 'a" where
  "lagrange xs ys x =
     sum_list (map (\<lambda>i. ys ! i * (prod_list (map (\<lambda>a. x - a) (others xs i))
        / prod_list (map (\<lambda>a. xs ! i - a) (others xs i)))) [0..<length xs])"

lemma length_others: "i < length xs \<Longrightarrow> Suc (length (others xs i)) = length xs"
proof -
  assume i: "i < length xs"
  have "length (filter (\<lambda>j. j \<noteq> i) [0..<length xs]) = card ({0..<length xs} - {i})"
    by (subst distinct_card [symmetric]) (simp_all add: set_diff_eq)
  with i show ?thesis by (simp add: others_def)
qed

lemma poly_fun_sum_list: "(\<And>i. i \<in> set is \<Longrightarrow> poly_fun n (f i)) \<Longrightarrow> poly_fun n (\<lambda>x. sum_list (map (\<lambda>i. f i x) is))"
  by (induction "is") (simp_all add: poly_fun_0 poly_fun_add)

lemma lagrange_poly: "poly_fun (length xs) (lagrange xs ys)"
proof -
  have "poly_fun (length xs) (\<lambda>x. ys ! i * (prod_list (map (\<lambda>a. x - a) (others xs i))
        / prod_list (map (\<lambda>a. xs ! i - a) (others xs i))))" if "i < length xs" for i
  proof -
    let ?d = "prod_list (map (\<lambda>a. xs ! i - a) (others xs i))"
    have "poly_fun (length xs) (\<lambda>x. prod_list (map (\<lambda>a. x - a) (others xs i)))"
      using poly_fun_prod [of "others xs i"] by (simp only: length_others [OF that])
    from poly_fun_smult [OF this, of "ys ! i / ?d"] show ?thesis
      by (simp add: field_simps)
  qed
  then show ?thesis
    unfolding lagrange_def by (intro poly_fun_sum_list) simp
qed

lemma prod_list_zero: "(0 :: 'a :: field) \<in> set zs \<Longrightarrow> prod_list zs = 0"
  by (induction zs) auto

lemma prod_list_nonzero: "(0 :: 'a :: field) \<notin> set zs \<Longrightarrow> prod_list zs \<noteq> 0"
  by (induction zs) auto

lemma sum_list_single:
  "distinct is \<Longrightarrow> k \<in> set is \<Longrightarrow> (\<And>i. i \<in> set is \<Longrightarrow> i \<noteq> k \<Longrightarrow> f i = 0) \<Longrightarrow> sum_list (map f is) = f k"
proof (induction "is")
  case (Cons j js)
  show ?case
  proof (cases "j = k")
    case True
    with Cons.prems have "\<forall>x \<in> set js. f x = 0" by auto
    then have "sum_list (map f js) = 0" by (induction js) auto
    with True show ?thesis by simp
  next
    case False
    with Cons show ?thesis by simp
  qed
qed simp

lemma others_mem: "i < length xs \<Longrightarrow> a \<in> set (others xs i) \<longleftrightarrow> (\<exists>j < length xs. j \<noteq> i \<and> a = xs ! j)"
  by (auto simp: others_def)

lemma lagrange_at:
  assumes "distinct xs" "k < length xs"
  shows "lagrange xs ys (xs ! k) = ys ! k"
proof -
  have z: "ys ! i * (prod_list (map (\<lambda>a. xs ! k - a) (others xs i))
      / prod_list (map (\<lambda>a. xs ! i - a) (others xs i))) = 0" if "i < length xs" "i \<noteq> k" for i
  proof -
    have "xs ! k \<in> set (others xs i)"
      using that assms by (auto simp: others_mem)
    then have "prod_list (map (\<lambda>a. xs ! k - a) (others xs i)) = 0"
      by (intro prod_list_zero) (auto simp: image_iff intro: bexI [of _ "xs ! k"])
    then show ?thesis by simp
  qed
  have "xs ! k \<notin> set (others xs k)"
    using assms by (auto simp: others_mem nth_eq_iff_index_eq)
  then have "prod_list (map (\<lambda>a. xs ! k - a) (others xs k)) \<noteq> 0"
    by (intro prod_list_nonzero) auto
  then show ?thesis
    unfolding lagrange_def using assms z
    by (subst sum_list_single [of "[0..<length xs]" k]) auto
qed

text \<open>Interpolation recovers a polynomial from at least as many points as it has coefficients.\<close>

lemma lagrange_recovers:
  assumes "distinct xs" "length cs \<le> length xs" "\<And>i. i < length xs \<Longrightarrow> ys ! i = horner cs (xs ! i)"
  shows "lagrange xs ys z = horner cs z"
proof -
  obtain ds where ds: "length ds = length xs" "\<And>x. horner ds x = lagrange xs ys x"
    using lagrange_poly [of xs ys] by (auto simp: poly_fun_def)
  let ?cs = "cs @ replicate (length xs - length cs) 0"
  have "horner ?cs x = horner ds x" if "x \<in> set xs" for x
    using that assms by (auto simp: horner_pad ds lagrange_at in_set_conv_nth)
  then have "?cs = ds"
    using assms ds by (intro horner_unique [of xs]) auto
  then show ?thesis
    using horner_pad ds(2) by metis
qed

text \<open>For any values there is exactly one polynomial.\<close>

lemma interpolant_ex1:
  assumes "distinct xs" "length ys = length xs"
  shows "\<exists>!cs. length cs = length xs \<and> (\<forall>i < length xs. horner cs (xs ! i) = ys ! i)"
proof -
  obtain cs where cs: "length cs = length xs" "\<And>x. horner cs x = lagrange xs ys x"
    using lagrange_poly [of xs ys] by (auto simp: poly_fun_def)
  show ?thesis
  proof (intro ex1I [of _ cs] conjI)
    show "\<forall>i<length xs. horner cs (xs ! i) = ys ! i"
      using cs assms by (simp add: lagrange_at)
    fix ds
    assume "length ds = length xs \<and> (\<forall>i<length xs. horner ds (xs ! i) = ys ! i)"
    then show "ds = cs"
      using cs assms by (intro horner_unique [of xs]) (auto simp: lagrange_at in_set_conv_nth)
  qed (rule cs(1))
qed

end
