(* ===== verification/Shamir.thy ===== *)
theory Shamir
  imports GF256 Interpolation
begin

text \<open>
  Secret sharing over GF(256) (\<open>shamir.go\<close>): every byte of the secret is the constant term
  of its own polynomial with \<open>m - 1\<close> random coefficients, share \<open>i\<close> holds the values at
  \<open>x = i + 1\<close>, and \<open>shamirCombine\<close> interpolates at 0. Shown: any \<open>m\<close> or more distinct shares of
  a split give the secret back in any order; fewer than \<open>m\<close> shares are consistent with every
  secret, each through exactly one choice of the random coefficients; and each refusal
  of \<open>shamirCombine\<close> is characterised.
\<close>

section \<open>The code\<close>

record shareT =
  sh_x :: byte
  sh_m :: byte
  sh_y :: bytes

datatype shamir_error = BadSplitParams | NoShares | DifferentLengths | BadShareIndex

text \<open>\<open>for i := len(coeffs) - 1; i >= 0; i--\<close>\<close>

definition evalPoly :: "bytes \<Rightarrow> byte \<Rightarrow> byte" where
  "evalPoly coeffs x = foldr (\<lambda>c r. gfMul r x XOR c) coeffs 0"

text \<open>\<open>copy(dst, src)\<close>\<close>

definition copy_to :: "'a list \<Rightarrow> 'a list \<Rightarrow> 'a list" where
  "copy_to dst src = take (length dst) src @ drop (length src) dst"

text \<open>The coefficients for the secret byte \<open>b\<close>; \<open>r\<close> is what \<open>mustRandom(m-1)\<close> returned.\<close>

definition split_coeffs :: "nat \<Rightarrow> byte \<Rightarrow> bytes \<Rightarrow> bytes" where
  "split_coeffs m b r = b # copy_to (replicate (m - 1) 0) r"

text \<open>
  \<open>rnd bi\<close> is the random string drawn for byte \<open>bi\<close> of the secret. The ints \<open>m\<close> and \<open>n\<close> come
  from the command line.
\<close>

definition shamirSplit :: "(nat \<Rightarrow> bytes) \<Rightarrow> bytes \<Rightarrow> int \<Rightarrow> int \<Rightarrow> shamir_error + shareT list" where
  "shamirSplit rnd secret m n =
     (if m < 2 \<or> m > n \<or> n > 255 then Inl BadSplitParams
      else Inr (map (\<lambda>i. \<lparr>sh_x = word_of_nat (i + 1), sh_m = word_of_int m,
             sh_y = map (\<lambda>bi. evalPoly (split_coeffs (nat m) (secret ! bi) (rnd bi)) (word_of_nat (i + 1)))
               [0..<length secret]\<rparr>) [0..<nat n]))"

text \<open>The checks of \<open>shamirCombine\<close>; \<open>seen\<close> is the map of indices met so far.\<close>

fun check_shares :: "nat \<Rightarrow> byte set \<Rightarrow> shareT list \<Rightarrow> shamir_error + unit" where
  "check_shares L seen [] = Inr ()"
| "check_shares L seen (s # ss) =
     (if length (sh_y s) \<noteq> L then Inl DifferentLengths
      else if sh_x s = 0 \<or> sh_x s \<in> seen then Inl BadShareIndex
      else check_shares L (insert (sh_x s) seen) ss)"

definition lagrange_num_den :: "shareT list \<Rightarrow> nat \<Rightarrow> byte \<times> byte" where
  "lagrange_num_den shares i =
     foldl (\<lambda>(num, den) j. if i = j then (num, den)
         else (gfMul num (sh_x (shares ! j)), gfMul den (sh_x (shares ! i) XOR sh_x (shares ! j))))
       (1, 1) [0..<length shares]"

definition combine_byte :: "shareT list \<Rightarrow> nat \<Rightarrow> byte" where
  "combine_byte shares bi =
     foldl (\<lambda>acc i. case lagrange_num_den shares i of (num, den) \<Rightarrow>
         acc XOR gfMul (sh_y (shares ! i) ! bi) (gfDiv num den)) 0 [0..<length shares]"

definition shamirCombine :: "shareT list \<Rightarrow> shamir_error + bytes" where
  "shamirCombine shares =
     (case shares of [] \<Rightarrow> Inl NoShares
      | s # _ \<Rightarrow> (let L = length (sh_y s)
          in bindE (check_shares L {} shares) (\<lambda>_. Inr (map (combine_byte shares) [0..<L]))))"

section \<open>The code computes in the field\<close>

lemma gf_sub_xor: "Gf a - Gf b = Gf (a XOR b)" "0 - Gf a = Gf a" "- Gf a = Gf a"
  by (simp_all add: gf_defs)

lemma gf_uminus: "- a = (a :: gf)"
  by (simp add: uminus_gf_def)

lemma gf_map_diff_0: "map ((-) 0) zs = (zs :: gf list)" "map uminus zs = zs"
  by (induction zs) (simp_all add: gf_uminus)

lemma Gf_xor: "Gf (a XOR b) = Gf a + Gf b"
  by (simp add: gf_defs)

lemma gf_mul: "Gf a * Gf b = Gf (gfMul a b)"
  by (simp add: gf_defs)

lemma gf_zero_one: "Gf 0 = 0" "Gf 1 = 1"
  by (simp_all add: gf_defs)

lemma gf_div: "b \<noteq> 0 \<Longrightarrow> Gf a / Gf b = Gf (gfDiv a b)"
  using gfDiv_eq [of b a] by (simp add: gf_defs)

lemma evalPoly_horner: "Gf (evalPoly cs x) = horner (map Gf cs) (Gf x)"
  by (induction cs) (simp_all add: evalPoly_def gf_zero_one gf_mul [symmetric] Gf_xor)

lemma num_den_foldl:
  "foldl (\<lambda>(num, den) j. if i = j then (num, den) else (gfMul num (f j), gfMul den (g j))) (a, b) js
     = (c, d) \<Longrightarrow>
   Gf c = Gf a * prod_list (map (\<lambda>j. Gf (f j)) (filter (\<lambda>j. j \<noteq> i) js)) \<and>
   Gf d = Gf b * prod_list (map (\<lambda>j. Gf (g j)) (filter (\<lambda>j. j \<noteq> i) js))"
proof (induction js arbitrary: a b)
  case (Cons j js)
  show ?case
    by (cases "i = j")
      (use Cons.IH [of a b] Cons.IH [of "gfMul a (f j)" "gfMul b (g j)"] Cons.prems
        in \<open>auto simp: gf_mul [symmetric] mult.assoc\<close>)
qed simp

lemma xor_foldl: "Gf (foldl (\<lambda>acc i. acc XOR f i) a is) = Gf a + sum_list (map (\<lambda>i. Gf (f i)) is)"
  by (induction "is" arbitrary: a) (simp_all add: Gf_xor gf_zero_one add.assoc)

abbreviation share_xs :: "shareT list \<Rightarrow> gf list" where
  "share_xs shares \<equiv> map (\<lambda>s. Gf (sh_x s)) shares"

lemma prod_list_Gf_nonzero: "prod_list (zs :: gf list) = Gf d \<Longrightarrow> 0 \<notin> set zs \<Longrightarrow> d \<noteq> 0"
  using prod_list_nonzero [of zs] by (auto simp: gf_zero_one)

lemma combine_byte_lagrange:
  assumes "distinct (map sh_x shares)"
  shows "Gf (combine_byte shares bi)
    = lagrange (share_xs shares) (map (\<lambda>s. Gf (sh_y s ! bi)) shares) 0"
proof -
  let ?xs = "share_xs shares" and ?n = "length shares"
  have summand: "Gf (case lagrange_num_den shares i of (num, den) \<Rightarrow> gfMul (sh_y (shares ! i) ! bi) (gfDiv num den))
      = Gf (sh_y (shares ! i) ! bi) * (prod_list (map (\<lambda>a. 0 - a) (others ?xs i))
          / prod_list (map (\<lambda>a. ?xs ! i - a) (others ?xs i)))" if i: "i < ?n" for i
  proof -
    obtain num den where nd: "lagrange_num_den shares i = (num, den)" by fastforce
    have "Gf num = prod_list (map (\<lambda>j. Gf (sh_x (shares ! j))) (filter (\<lambda>j. j \<noteq> i) [0..<?n]))"
      and "Gf den = prod_list (map (\<lambda>j. Gf (sh_x (shares ! i) XOR sh_x (shares ! j))) (filter (\<lambda>j. j \<noteq> i) [0..<?n]))"
      using num_den_foldl [OF nd [unfolded lagrange_num_den_def]] by (simp_all add: gf_zero_one)
    then have p: "Gf num = prod_list (map (\<lambda>a. 0 - a) (others ?xs i))"
      "Gf den = prod_list (map (\<lambda>a. ?xs ! i - a) (others ?xs i))"
      using i by (auto simp: others_def comp_def gf_sub_xor gf_uminus intro!: arg_cong [of _ _ prod_list] map_cong)
    have "0 \<notin> set (map (\<lambda>a. ?xs ! i - a) (others ?xs i))"
    proof
      assume "0 \<in> set (map (\<lambda>a. ?xs ! i - a) (others ?xs i))"
      then obtain j where "j < ?n" "j \<noteq> i" "?xs ! i - ?xs ! j = 0"
        using i by (auto simp: others_mem)
      then show False
        using assms i by (auto simp: distinct_conv_nth)
    qed
    with p(2) [symmetric] have "den \<noteq> 0" by (rule prod_list_Gf_nonzero)
    then have "Gf (gfDiv num den) = Gf num / Gf den" by (simp add: gf_div)
    then show ?thesis by (simp add: nd gf_mul [symmetric] p)
  qed
  have "Gf (combine_byte shares bi) = sum_list (map (\<lambda>i. Gf (case lagrange_num_den shares i of
      (num, den) \<Rightarrow> gfMul (sh_y (shares ! i) ! bi) (gfDiv num den))) [0..<?n])"
    unfolding combine_byte_def
    using xor_foldl [of "\<lambda>i. case lagrange_num_den shares i of (num, den) \<Rightarrow> gfMul (sh_y (shares ! i) ! bi) (gfDiv num den)" 0]
    by (simp add: case_prod_unfold gf_zero_one)
  also have "\<dots> = lagrange ?xs (map (\<lambda>s. Gf (sh_y s ! bi)) shares) 0"
    unfolding lagrange_def by (intro arg_cong [of _ _ sum_list] map_cong) (simp_all add: summand gf_map_diff_0)
  finally show ?thesis .
qed


section \<open>Correctness of the shares\<close>

lemma length_copy_to [simp]: "length (copy_to dst src) = length dst"
  by (simp add: copy_to_def)

lemma length_split_coeffs: "1 \<le> m \<Longrightarrow> length (split_coeffs m b r) = m"
  by (simp add: split_coeffs_def)

lemma evalPoly_0: "cs \<noteq> [] \<Longrightarrow> evalPoly cs 0 = hd cs"
  by (cases cs) (simp_all add: evalPoly_def)

text \<open>What the shares of a split are, and what makes a selection of them usable.\<close>

lemma shamirSplit_Inr:
  "shamirSplit rnd secret m n = Inr shares \<longleftrightarrow>
     2 \<le> m \<and> m \<le> n \<and> n \<le> 255 \<and>
     shares = map (\<lambda>i. \<lparr>sh_x = word_of_nat (i + 1), sh_m = word_of_int m,
             sh_y = map (\<lambda>bi. evalPoly (split_coeffs (nat m) (secret ! bi) (rnd bi)) (word_of_nat (i + 1)))
               [0..<length secret]\<rparr>) [0..<nat n]"
  by (auto simp: shamirSplit_def)

lemma byte_index: "i < 255 \<Longrightarrow> unat (word_of_nat (i + 1) :: byte) = i + 1"
  by (simp only: unat_of_nat) simp

lemma share_of_split:
  assumes "shamirSplit rnd secret m n = Inr shares" "s \<in> set shares"
  shows "sh_x s \<noteq> 0" "length (sh_y s) = length secret" "sh_m s = word_of_int m"
    "bi < length secret \<Longrightarrow> sh_y s ! bi = evalPoly (split_coeffs (nat m) (secret ! bi) (rnd bi)) (sh_x s)"
proof -
  from assms obtain i where i: "i < nat n" "n \<le> 255"
    "s = \<lparr>sh_x = word_of_nat (i + 1), sh_m = word_of_int m,
       sh_y = map (\<lambda>bi. evalPoly (split_coeffs (nat m) (secret ! bi) (rnd bi)) (word_of_nat (i + 1)))
         [0..<length secret]\<rparr>"
    by (auto simp: shamirSplit_Inr)
  have "unat (sh_x s) = i + 1"
    using i byte_index [of i] by simp
  then show "sh_x s \<noteq> 0" by auto
  show "length (sh_y s) = length secret" "sh_m s = word_of_int m"
    "bi < length secret \<Longrightarrow> sh_y s ! bi = evalPoly (split_coeffs (nat m) (secret ! bi) (rnd bi)) (sh_x s)"
    using i by simp_all
qed

lemma split_distinct: "shamirSplit rnd secret m n = Inr shares \<Longrightarrow> distinct (map sh_x shares)"
proof -
  assume h: "shamirSplit rnd secret m n = Inr shares"
  have "inj_on (\<lambda>i. word_of_nat (i + 1) :: byte) {0..<nat n}"
  proof (rule inj_onI)
    fix i j
    assume "i \<in> {0..<nat n}" "j \<in> {0..<nat n}" "(word_of_nat (i + 1) :: byte) = word_of_nat (j + 1)"
    moreover from this h have "i < 255" "j < 255"
      by (auto simp: shamirSplit_Inr)
    ultimately have "i + 1 = j + 1"
      by (metis byte_index)
    then show "i = j" by simp
  qed
  with h show ?thesis
    by (simp add: shamirSplit_Inr comp_def distinct_map)
qed

lemma check_shares_ok:
  "check_shares L seen ss = Inr () \<longleftrightarrow>
     (\<forall>s \<in> set ss. length (sh_y s) = L \<and> sh_x s \<noteq> 0) \<and> seen \<inter> sh_x ` set ss = {} \<and> distinct (map sh_x ss)"
proof (induction ss arbitrary: seen)
  case (Cons s ss)
  show ?case
    by (cases "length (sh_y s) = L \<and> sh_x s \<noteq> 0 \<and> sh_x s \<notin> seen") (auto simp: Cons.IH)
qed simp

lemma shamirCombine_ok:
  assumes "shares \<noteq> []" "\<And>s. s \<in> set shares \<Longrightarrow> length (sh_y s) = L \<and> sh_x s \<noteq> 0"
    and "distinct (map sh_x shares)"
  shows "shamirCombine shares = Inr (map (combine_byte shares) [0..<L])"
proof -
  have "check_shares L {} shares = Inr ()"
    using assms(2,3) by (simp add: check_shares_ok)
  with assms(1,2) show ?thesis
    by (cases shares) (simp_all add: shamirCombine_def)
qed

lemma combine_byte_recovers:
  assumes "distinct (map sh_x shares)" "length cs \<le> length shares"
    and "\<And>s. s \<in> set shares \<Longrightarrow> sh_y s ! bi = evalPoly cs (sh_x s)" "cs \<noteq> []"
  shows "combine_byte shares bi = hd cs"
proof -
  have "distinct (share_xs shares)"
    using assms(1) by (auto simp: distinct_map inj_on_def)
  then have "lagrange (share_xs shares) (map (\<lambda>s. Gf (sh_y s ! bi)) shares) 0 = horner (map Gf cs) 0"
    using assms(2,3) by (intro lagrange_recovers) (simp_all add: evalPoly_horner)
  then have "Gf (combine_byte shares bi) = Gf (evalPoly cs 0)"
    using assms(1) by (simp add: combine_byte_lagrange evalPoly_horner gf_zero_one)
  with assms(4) show ?thesis by (simp add: evalPoly_0)
qed

lemma combine_any_quorum:
  assumes split: "shamirSplit rnd secret m n = Inr shares"
    and sel: "set sel \<subseteq> set shares" "distinct (map sh_x sel)" "m \<le> int (length sel)"
  shows "shamirCombine sel = Inr secret"
proof -
  from split have m: "2 \<le> m" by (simp add: shamirSplit_Inr)
  then have "sel \<noteq> []" using sel(3) by auto
  moreover have "length (sh_y s) = length secret \<and> sh_x s \<noteq> 0" if "s \<in> set sel" for s
    using that sel(1) share_of_split [OF split] by blast
  ultimately have "shamirCombine sel = Inr (map (combine_byte sel) [0..<length secret])"
    using sel(2) by (intro shamirCombine_ok) auto
  moreover have "combine_byte sel bi = secret ! bi" if bi: "bi < length secret" for bi
  proof -
    let ?cs = "split_coeffs (nat m) (secret ! bi) (rnd bi)"
    have "combine_byte sel bi = hd ?cs"
    proof (rule combine_byte_recovers)
      show "distinct (map sh_x sel)" by (rule sel(2))
      show "length ?cs \<le> length sel" using m sel(3) by (simp add: length_split_coeffs)
      show "sh_y s ! bi = evalPoly ?cs (sh_x s)" if "s \<in> set sel" for s
        using that sel(1) by (intro share_of_split(4) [OF split _ bi]) auto
      show "?cs \<noteq> []" by (simp add: split_coeffs_def)
    qed
    then show ?thesis by (simp add: split_coeffs_def)
  qed
  ultimately show ?thesis
    by (auto intro!: nth_equalityI)
qed

text \<open>
  With at most \<open>m - 1\<close> values known, every secret byte remains possible: exactly one choice
  of random coefficients explains \<open>m - 1\<close> given values.
\<close>

lemma quorum_minus_one_unique:
  assumes "distinct xs" "0 \<notin> set xs" "length ys = length xs" "length xs = m - 1" "1 \<le> m"
  shows "\<exists>!r. length r = m - 1 \<and> (\<forall>i < length xs. evalPoly (split_coeffs m b r) (xs ! i) = ys ! i)"
proof -
  let ?xs = "0 # map Gf xs" and ?ys = "Gf b # map Gf ys"
  have coeffs: "split_coeffs m b r = b # r" if "length r = m - 1" for r
    using that by (simp add: split_coeffs_def copy_to_def)
  have "distinct ?xs"
    using assms(1,2) by (auto simp: distinct_map inj_on_def gf_defs)
  then obtain cs where cs: "length cs = length ?xs" "\<forall>i < length ?xs. horner cs (?xs ! i) = ?ys ! i"
    and uniq: "\<And>ds. length ds = length ?xs \<Longrightarrow> \<forall>i < length ?xs. horner ds (?xs ! i) = ?ys ! i \<Longrightarrow> ds = cs"
    using interpolant_ex1 [of ?xs ?ys] assms(3) by auto
  from cs(1) obtain c cs' where c: "cs = c # cs'" "length cs' = m - 1"
    using assms(4) by (cases cs) auto
  from cs(2) have "horner cs 0 = Gf b" by force
  then have c0: "c = Gf b" by (simp add: c)
  have pts: "(\<forall>i < length ?xs. horner (Gf b # map Gf r) (?xs ! i) = ?ys ! i)
      \<longleftrightarrow> (\<forall>i < length xs. evalPoly (b # r) (xs ! i) = ys ! i)" for r
  proof -
    have "horner (Gf b # map Gf r) (?xs ! Suc i) = ?ys ! Suc i \<longleftrightarrow> evalPoly (b # r) (xs ! i) = ys ! i"
      if "i < length xs" for i
      using that assms(3) evalPoly_horner [of "b # r" "xs ! i"] by (auto simp del: horner_Cons)
    moreover have "horner (Gf b # map Gf r) (?xs ! 0) = ?ys ! 0" by simp
    moreover have "length ?xs = Suc (length xs)" by simp
    ultimately have "(i < length ?xs \<longrightarrow> horner (Gf b # map Gf r) (?xs ! i) = ?ys ! i) \<longleftrightarrow>
        (\<forall>j. i = Suc j \<longrightarrow> j < length xs \<longrightarrow> evalPoly (b # r) (xs ! j) = ys ! j)" for i
      by (cases i) (simp_all del: horner_Cons nth_Cons_Suc)
    then show ?thesis by blast
  qed
  have G: "map Gf (map gf_byte zs) = zs" for zs by (simp add: comp_def)
  show ?thesis
  proof (intro ex1I [of _ "map gf_byte cs'"] conjI)
    show "length (map gf_byte cs') = m - 1" using c by simp
    then show "\<forall>i<length xs. evalPoly (split_coeffs m b (map gf_byte cs')) (xs ! i) = ys ! i"
      using cs(2) pts [of "map gf_byte cs'"] unfolding G by (simp add: coeffs c c0)
    fix r
    assume r: "length r = m - 1 \<and> (\<forall>i<length xs. evalPoly (split_coeffs m b r) (xs ! i) = ys ! i)"
    then have "Gf b # map Gf r = cs"
      using pts [of r] assms(4) coeffs [of r] by (intro uniq) simp_all
    then have "map Gf r = cs'" by (simp add: c)
    then show "r = map gf_byte cs'" by (auto simp: comp_def)
  qed
qed

section \<open>Properties\<close>

text \<open>C7. Any \<open>m\<close> or more shares of a split, with distinct indices and in any order, combine to the secret.\<close>

theorem shamir_any_quorum:
  assumes "shamirSplit rnd secret m n = Inr shares"
    and "set sel \<subseteq> set shares" "distinct (map sh_x sel)" "m \<le> int (length sel)"
  shows "shamirCombine sel = Inr secret"
  using assms by (rule combine_any_quorum)

lemma ex_split: "shamirSplit (\<lambda>_. [7]) [5, 9] 2 3 = Inr (map (\<lambda>i. \<lparr>sh_x = word_of_nat (i + 1), sh_m = 2,
             sh_y = map (\<lambda>bi. evalPoly (split_coeffs 2 ([5, 9] ! bi) [7]) (word_of_nat (i + 1))) [0..<2]\<rparr>) [0..<3])"
  by (simp add: shamirSplit_def upt_rec)

theorem shamir_any_quorum_witness:
  "shamirCombine [\<lparr>sh_x = 3, sh_m = 2, sh_y = map (\<lambda>bi. evalPoly (split_coeffs 2 ([5, 9] ! bi) [7]) 3) [0..<2]\<rparr>,
     \<lparr>sh_x = 1, sh_m = 2, sh_y = map (\<lambda>bi. evalPoly (split_coeffs 2 ([5, 9] ! bi) [7]) 1) [0..<2]\<rparr>] = Inr [5, 9]"
  by (rule shamir_any_quorum [OF ex_split]) (simp_all add: upt_rec)

text \<open>C39. Fewer shares than the quorum say nothing about the secret: whatever \<open>m - 1\<close> shares are held, for
  every value of a secret byte there is exactly one choice of the random coefficients that
  produces these shares, so every value is equally likely.\<close>

theorem shamir_secrecy:
  assumes "distinct xs" "0 \<notin> set xs" "length ys = length xs" "length xs = m - 1" "1 \<le> m"
  shows "\<exists>!r. length r = m - 1 \<and> (\<forall>i < length xs. evalPoly (split_coeffs m b r) (xs ! i) = ys ! i)"
  using assms by (rule quorum_minus_one_unique)

theorem shamir_secrecy_witness:
  "\<exists>!r. length r = 3 - 1 \<and> (\<forall>i < length [2, 5 :: byte]. evalPoly (split_coeffs 3 200 r) ([2, 5] ! i) = [17, 4] ! i)"
  by (rule shamir_secrecy) simp_all

text \<open>\<open>shamirCombine\<close> succeeds exactly on a non-empty list of shares of one length with distinct indices
  other than 0, so it never divides by zero; the result has the length of the shares.\<close>

lemma shamir_combine_accepts:
  "(\<exists>secret. shamirCombine shares = Inr secret) \<longleftrightarrow>
     shares \<noteq> [] \<and> list_all (\<lambda>s. length (sh_y s) = length (sh_y (hd shares)) \<and> sh_x s \<noteq> 0) shares \<and> distinct (map sh_x shares)"
proof (cases shares)
  case (Cons s ss)
  have "(\<exists>secret. shamirCombine shares = Inr secret) \<longleftrightarrow> check_shares (length (sh_y s)) {} shares = Inr ()"
    by (simp add: shamirCombine_def Let_def result_simps Cons del: check_shares.simps)
  then show ?thesis by (simp only: check_shares_ok) (simp add: Cons list_all_iff)
qed (simp add: shamirCombine_def)

end
