(* ===== verification/GoStrings.thy ===== *)
theory GoStrings
  imports Prelude "HOL-Library.Char_ord" "HOL-Library.List_Lexorder"
begin

text \<open>
  The parts of Go's \<open>strings\<close>, \<open>strconv\<close>, \<open>sort\<close> and \<open>encoding/hex\<close> packages the agent uses.
  Strings are byte sequences: \<open>length\<close> counts bytes, and a character outside ASCII is the
  bytes of its UTF-8 encoding. The order on strings is the bytewise lexicographic one of
  \<open>sort.Strings\<close> (theories \<open>Char_ord\<close> and \<open>List_Lexorder\<close>).
\<close>

abbreviation nl :: char where "nl \<equiv> CHR 0x0A"
abbreviation cr :: char where "cr \<equiv> CHR 0x0D"

section \<open>Prefixes, suffixes, trimming\<close>

text \<open>\<open>strings.HasPrefix(s, p)\<close> is \<open>prefix p s\<close>, \<open>strings.Contains(s, t)\<close> is \<open>sublist t s\<close>.\<close>

definition trim_prefix :: "string \<Rightarrow> string \<Rightarrow> string" where
  "trim_prefix s p = (if prefix p s then drop (length p) s else s)"

definition trim_suffix :: "string \<Rightarrow> string \<Rightarrow> string" where
  "trim_suffix s p = (if suffix p s then take (length s - length p) s else s)"

text \<open>\<open>strings.TrimRight\<close> and \<open>TrimLeft\<close> with an ASCII cutset.\<close>

definition trim_right :: "string \<Rightarrow> string \<Rightarrow> string" where
  "trim_right s cs = rev (dropWhile (\<lambda>c. c \<in> set cs) (rev s))"

text \<open>
  The UTF-8 encodings of the characters \<open>unicode.IsSpace\<close> accepts: tab, newline, vertical
  tab, form feed, carriage return, space, U+0085, U+00A0, U+1680, U+2000 to U+200A, U+2028,
  U+2029, U+202F, U+205F and U+3000.
\<close>

definition go_spaces :: "string list" where
  "go_spaces =
    [[CHR 0x09], [CHR 0x0A], [CHR 0x0B], [CHR 0x0C], [CHR 0x0D], [CHR 0x20],
     [CHR 0xC2, CHR 0x85], [CHR 0xC2, CHR 0xA0], [CHR 0xE1, CHR 0x9A, CHR 0x80]] @
    map (\<lambda>c. [CHR 0xE2, CHR 0x80, c])
      [CHR 0x80, CHR 0x81, CHR 0x82, CHR 0x83, CHR 0x84, CHR 0x85, CHR 0x86, CHR 0x87,
       CHR 0x88, CHR 0x89, CHR 0x8A, CHR 0xA8, CHR 0xA9, CHR 0xAF] @
    [[CHR 0xE2, CHR 0x81, CHR 0x9F], [CHR 0xE3, CHR 0x80, CHR 0x80]]"

lemma go_spaces_nonempty: "w \<in> set go_spaces \<Longrightarrow> 0 < length w"
  by (auto simp: go_spaces_def)

fun strip_seqs :: "nat \<Rightarrow> string list \<Rightarrow> string \<Rightarrow> string" where
  "strip_seqs 0 ws s = s"
| "strip_seqs (Suc n) ws s =
     (case find (\<lambda>w. prefix w s) ws of None \<Rightarrow> s | Some w \<Rightarrow> strip_seqs n ws (drop (length w) s))"

text \<open>The fuel is the length of the string: every step removes at least one byte.\<close>

definition trim_space :: "string \<Rightarrow> string" where
  "trim_space s =
     (let t = strip_seqs (length s) go_spaces s
      in rev (strip_seqs (length t) (map rev go_spaces) (rev t)))"

lemma strip_seqs_stop: "(\<And>w. w \<in> set ws \<Longrightarrow> \<not> prefix w s) \<Longrightarrow> strip_seqs n ws s = s"
proof -
  assume "\<And>w. w \<in> set ws \<Longrightarrow> \<not> prefix w s"
  then have "find (\<lambda>w. prefix w s) ws = None"
    by (auto simp: find_None_iff)
  then show ?thesis by (cases n) simp_all
qed

lemma strip_seqs_fuel:
  assumes "length s \<le> n" "\<And>w. w \<in> set ws \<Longrightarrow> 0 < length w" "w \<in> set ws"
  shows "\<not> prefix w (strip_seqs n ws s)"
  using assms
proof (induction n arbitrary: s)
  case 0
  then show ?case by (auto simp: prefix_def)
next
  case (Suc n)
  show ?case
  proof (cases "find (\<lambda>w. prefix w s) ws")
    case None
    then have "\<not> prefix w s"
      using Suc.prems(3) by (auto simp: find_None_iff)
    with None show ?thesis by simp
  next
    case (Some v)
    then have v: "v \<in> set ws" "prefix v s"
      by (auto simp: find_Some_iff)
    have "length v \<le> length s" "1 \<le> length v"
      using v Suc.prems(2) [OF v(1)] by (auto dest: prefix_length_le simp: Suc_le_eq)
    with Suc.prems(1) have "length (drop (length v) s) \<le> n" by (simp only: length_drop)
    with Some Suc show ?thesis by simp
  qed
qed

text \<open>The bytes that can start or end an encoded space.\<close>

definition space_edge :: "char \<Rightarrow> bool" where
  "space_edge c \<longleftrightarrow> c \<in> hd ` set go_spaces \<or> c \<in> last ` set go_spaces"

lemma trim_space_id:
  assumes "s \<noteq> [] \<Longrightarrow> \<not> space_edge (hd s) \<and> \<not> space_edge (last s)"
  shows "trim_space s = s"
proof -
  have l: "\<not> prefix w s" if "w \<in> set go_spaces" for w
  proof
    assume p: "prefix w s"
    from go_spaces_nonempty [OF that] obtain a w' where w: "w = a # w'" by (cases w) auto
    with p have "s \<noteq> []" "hd s = a" by (cases s; simp)+
    moreover have "a \<in> hd ` set go_spaces"
      using that w by (auto simp: image_iff intro!: bexI [of _ w])
    ultimately show False
      using assms by (simp add: space_edge_def)
  qed
  have r: "\<not> prefix w (rev s)" if "w \<in> set (map rev go_spaces)" for w
  proof
    assume p: "prefix w (rev s)"
    from that obtain v where v: "v \<in> set go_spaces" "w = rev v" by auto
    with go_spaces_nonempty obtain us u where u: "v = us @ [u]"
      by (cases v rule: rev_cases) auto
    with p v have "prefix (u # rev us) (rev s)" by simp
    then have "s \<noteq> []" "last s = u"
      by (auto simp: prefix_def rev_swap)
    moreover have "u \<in> last ` set go_spaces"
      using v u by (auto simp: image_iff intro!: bexI [of _ v])
    ultimately show False
      using assms by (simp add: space_edge_def)
  qed
  show ?thesis
    unfolding trim_space_def Let_def
    by (subst strip_seqs_stop [OF l], assumption)+ (subst strip_seqs_stop [OF r], auto)
qed

text \<open>A line that is read back loses its newline.\<close>

lemma trim_space_newline:
  assumes "s \<noteq> []" "\<not> space_edge (hd s)" "\<not> space_edge (last s)"
  shows "trim_space (s @ [nl]) = s"
proof -
  have l: "\<not> prefix w (s @ r)" if "w \<in> set go_spaces" for w r
  proof
    assume p: "prefix w (s @ r)"
    from go_spaces_nonempty [OF that] obtain a w' where w: "w = a # w'" by (cases w) auto
    with p assms(1) have "hd s = a" by (cases s) simp_all
    moreover have "a \<in> hd ` set go_spaces" using that w by (auto simp: image_iff intro!: bexI [of _ w])
    ultimately show False using assms(2) by (simp add: space_edge_def)
  qed
  have f: "find (\<lambda>w. prefix w (nl # rev s)) (map rev go_spaces) = Some [nl]"
    by (simp add: go_spaces_def)
  have rr: "\<not> prefix w (rev s)" if "w \<in> set (map rev go_spaces)" for w
  proof
    assume p: "prefix w (rev s)"
    from that obtain v where v: "v \<in> set go_spaces" "w = rev v" by auto
    with go_spaces_nonempty obtain us u where u: "v = us @ [u]" by (cases v rule: rev_cases) auto
    with p v have "prefix (u # rev us) (rev s)" by simp
    then have "last s = u" by (auto simp: prefix_def rev_swap)
    moreover have "u \<in> last ` set go_spaces" using v u by (auto simp: image_iff intro!: bexI [of _ v])
    ultimately show False using assms(3) by (simp add: space_edge_def)
  qed
  have "strip_seqs (length (s @ [nl])) go_spaces (s @ [nl]) = s @ [nl]"
    by (rule strip_seqs_stop) (rule l)
  moreover have "strip_seqs (length (s @ [nl])) (map rev go_spaces) (rev (s @ [nl])) = rev s"
  proof -
    have "strip_seqs (length s) (map rev go_spaces) (rev s) = rev s"
      by (rule strip_seqs_stop) (rule rr)
    then show ?thesis using f by simp
  qed
  ultimately show ?thesis by (simp only: trim_space_def Let_def) simp
qed

section \<open>Splitting and joining\<close>

fun split_on :: "char \<Rightarrow> string \<Rightarrow> string list" where
  "split_on d [] = [[]]"
| "split_on d (c # cs) =
     (if c = d then [] # split_on d cs
      else case split_on d cs of [] \<Rightarrow> [[c]] | w # ws \<Rightarrow> (c # w) # ws)"

fun join_with :: "string \<Rightarrow> string list \<Rightarrow> string" where
  "join_with d [] = []"
| "join_with d [w] = w"
| "join_with d (w # v # ws) = w @ d @ join_with d (v # ws)"

lemma split_on_nonempty [simp]: "split_on d s \<noteq> []"
  by (induction s) (auto split: list.splits)

lemma split_on_no_sep: "d \<notin> set s \<Longrightarrow> split_on d s = [s]"
  by (induction s) auto

lemma split_on_append: "d \<notin> set w \<Longrightarrow> split_on d (w @ d # s) = w # split_on d s"
  by (induction w) auto

lemma join_split: "join_with [d] (split_on d s) = s"
proof (induction s)
  case Nil
  then show ?case by simp
next
  case (Cons c s)
  then show ?case
    by (cases "split_on d s") (auto split: list.splits, (cases "tl (split_on d s)"; auto)+)
qed

lemma split_join:
  "ws \<noteq> [] \<Longrightarrow> (\<And>w. w \<in> set ws \<Longrightarrow> d \<notin> set w) \<Longrightarrow> split_on d (join_with [d] ws) = ws"
proof (induction "[d]" ws rule: join_with.induct)
  case 1
  then show ?case by simp
next
  case (2 w)
  then show ?case by (simp add: split_on_no_sep)
next
  case (3 w v ws)
  then show ?case by (simp add: split_on_append)
qed

section \<open>Numbers\<close>

text \<open>\<open>strconv.Itoa\<close> and \<open>strconv.FormatInt(n, 10)\<close>\<close>

definition digit :: "nat \<Rightarrow> char" where
  "digit d = char_of (48 + d)"

fun show_nat :: "nat \<Rightarrow> string" where
  "show_nat n = (if n < 10 then [digit n] else show_nat (n div 10) @ [digit (n mod 10)])"

declare show_nat.simps [simp del]

definition format_int :: "int \<Rightarrow> string" where
  "format_int z = (if z < 0 then CHR ''-'' # show_nat (nat (- z)) else show_nat (nat z))"

definition digit_val :: "char \<Rightarrow> nat option" where
  "digit_val c = (let n = of_char c in if 48 \<le> n \<and> n \<le> 57 then Some (n - 48) else None)"

fun read_digits :: "nat \<Rightarrow> string \<Rightarrow> nat option" where
  "read_digits acc [] = Some acc"
| "read_digits acc (c # cs) =
     (case digit_val c of None \<Rightarrow> None | Some d \<Rightarrow> read_digits (10 * acc + d) cs)"

text \<open>
  \<open>strconv.ParseInt(s, 10, 64)\<close>, which \<open>strconv.Atoi\<close> is on a 64-bit platform: an optional
  sign, then at least one decimal digit and nothing else; \<open>None\<close> also when out of range.
\<close>

definition parse_int64 :: "string \<Rightarrow> int option" where
  "parse_int64 s =
     (let neg = (s \<noteq> [] \<and> hd s = CHR ''-'');
          ds = (if s \<noteq> [] \<and> (hd s = CHR ''-'' \<or> hd s = CHR ''+'') then tl s else s)
      in if ds = [] then None
         else case read_digits 0 ds of
           None \<Rightarrow> None
         | Some n \<Rightarrow> (let z = (if neg then - int n else int n) in if is_i64 z then Some z else None))"

lemma of_char_digit: "d < 10 \<Longrightarrow> (of_char (digit d) :: nat) = 48 + d"
  by (simp only: digit_def of_char_of) simp

lemma digit_val_digit [simp]: "d < 10 \<Longrightarrow> digit_val (digit d) = Some d"
  by (simp add: digit_val_def of_char_digit)

lemma show_nat_nonempty [simp]: "show_nat n \<noteq> []"
  by (subst show_nat.simps) simp

lemma read_digits_append:
  "read_digits acc (s @ t) = (case read_digits acc s of None \<Rightarrow> None | Some a \<Rightarrow> read_digits a t)"
  by (induction s arbitrary: acc) (auto split: option.splits)

lemma show_nat_chars: "c \<in> set (show_nat n) \<Longrightarrow> \<exists>d<10. c = digit d"
proof (induction n rule: show_nat.induct)
  case (1 n)
  then show ?case
    by (cases "n < 10") (auto simp: show_nat.simps [of n] intro: exI [of _ "n mod 10"])
qed

lemma read_show_nat: "read_digits 0 (show_nat n) = Some n"
proof (induction n rule: show_nat.induct)
  case (1 n)
  then show ?case
    by (cases "n < 10") (auto simp: show_nat.simps [of n] read_digits_append)
qed

lemma show_nat_inject: "show_nat m = show_nat n \<longleftrightarrow> m = n"
  by (metis read_show_nat option.inject)

lemma hd_show_nat: "hd (show_nat n) \<noteq> CHR ''-'' \<and> hd (show_nat n) \<noteq> CHR ''+''"
proof -
  have "hd (show_nat n) \<in> set (show_nat n)" by simp
  then obtain d where d: "d < 10" "hd (show_nat n) = digit d"
    using show_nat_chars by blast
  have "of_char (CHR ''-'') = (45 :: nat)" "of_char (CHR ''+'') = (43 :: nat)"
    by simp_all
  with d of_char_digit [OF d(1)] show ?thesis by auto
qed

lemma parse_format_int [codec_simps]: "is_i64 z \<Longrightarrow> parse_int64 (format_int z) = Some z"
  using hd_show_nat [of "nat z"]
  by (cases "z < 0") (simp_all add: parse_int64_def format_int_def read_show_nat)

lemma format_int_chars: "c \<in> set (format_int z) \<Longrightarrow> c = CHR ''-'' \<or> (\<exists>d<10. c = digit d)"
  by (auto simp: format_int_def dest: show_nat_chars split: if_splits)

lemma format_int_inject: "format_int y = format_int z \<longleftrightarrow> y = z"
proof
  assume h: "format_int y = format_int z"
  have neq: "show_nat m \<noteq> CHR ''-'' # t" for m t
    using hd_show_nat [of m] by (metis list.sel(1))
  from h show "y = z"
    by (auto simp: format_int_def show_nat_inject neq neq [symmetric] split: if_splits)
qed simp

section \<open>Hexadecimal\<close>

definition hex_digit :: "nat \<Rightarrow> char" where
  "hex_digit d = char_of (if d < 10 then 48 + d else 87 + d)"

definition hex_encode :: "bytes \<Rightarrow> string" where
  "hex_encode b = concat (map (\<lambda>x. [hex_digit (unat x div 16), hex_digit (unat x mod 16)]) b)"

lemma of_char_hex_digit: "d < 16 \<Longrightarrow> (of_char (hex_digit d) :: nat) = (if d < 10 then 48 + d else 87 + d)"
proof -
  assume "d < 16"
  then have "(if d < 10 then 48 + d else 87 + d) < 256" by simp
  then show ?thesis by (simp only: hex_digit_def of_char_of mod_less)
qed

lemma hex_digit_inject: "c < 16 \<Longrightarrow> d < 16 \<Longrightarrow> hex_digit c = hex_digit d \<longleftrightarrow> c = d"
proof -
  assume b: "c < 16" "d < 16"
  show ?thesis
  proof
    assume h: "hex_digit c = hex_digit d"
    have "(if c < 10 then 48 + c else 87 + c) = (of_char (hex_digit c) :: nat)"
      by (rule of_char_hex_digit [OF b(1), symmetric])
    also have "\<dots> = (if d < 10 then 48 + d else 87 + d)"
      unfolding h by (rule of_char_hex_digit [OF b(2)])
    finally show "c = d"
      using b by (simp split: if_splits)
  qed simp
qed

lemma hex_encode_Cons:
  "hex_encode (x # b) = hex_digit (unat x div 16) # hex_digit (unat x mod 16) # hex_encode b"
  by (simp add: hex_encode_def)

lemma length_hex_encode [simp, codec_simps]: "length (hex_encode b) = 2 * length b"
  by (induction b) (simp_all add: hex_encode_def)

lemma byte_nibbles:
  "hex_digit (unat x div 16) = hex_digit (unat y div 16) \<Longrightarrow>
   hex_digit (unat x mod 16) = hex_digit (unat y mod 16) \<Longrightarrow> x = (y :: byte)"
proof -
  assume a: "hex_digit (unat x div 16) = hex_digit (unat y div 16)"
    and b: "hex_digit (unat x mod 16) = hex_digit (unat y mod 16)"
  have "unat x div 16 < 16" "unat y div 16 < 16"
    using unat_byte_less [of x] unat_byte_less [of y] by (simp_all add: less_mult_imp_div_less)
  with a b have "unat x div 16 = unat y div 16" "unat x mod 16 = unat y mod 16"
    by (simp_all add: hex_digit_inject)
  then have "unat x = unat y"
    by (metis div_mult_mod_eq)
  then show "x = y" by (simp add: word_unat_eq_iff)
qed

lemma hex_encode_inject: "hex_encode a = hex_encode b \<longleftrightarrow> a = b"
proof (induction a arbitrary: b)
  case Nil
  then show ?case by (cases b) (simp_all add: hex_encode_def)
next
  case (Cons x a)
  note IH = Cons.IH
  show ?case
  proof (cases b)
    case Nil
    then show ?thesis by (simp add: hex_encode_def)
  next
    case (Cons y c)
    then show ?thesis
      using IH by (simp only: hex_encode_Cons list.inject) (blast dest: byte_nibbles)
  qed
qed

lemma hex_encode_chars: "c \<in> set (hex_encode b) \<Longrightarrow> \<exists>d<16. c = hex_digit d"
proof (induction b)
  case Nil
  then show ?case by (simp add: hex_encode_def)
next
  case (Cons x b)
  have "unat x div 16 < 16"
    using unat_byte_less [of x] by (simp add: less_mult_imp_div_less)
  moreover have "unat x mod 16 < 16" by simp
  ultimately show ?case
    using Cons by (auto simp only: hex_encode_Cons list.set insert_iff)
qed

section \<open>The first value that is set\<close>

text \<open>\<open>firstNonEmpty\<close> of \<open>cli.go\<close>, the precedence rule of every setting.\<close>

fun firstNonEmpty :: "string list \<Rightarrow> string" where
  "firstNonEmpty [] = []"
| "firstNonEmpty (v # vs) = (if v \<noteq> [] then v else firstNonEmpty vs)"

lemma firstNonEmpty_append:
  "firstNonEmpty (us @ vs) = (if firstNonEmpty us \<noteq> [] then firstNonEmpty us else firstNonEmpty vs)"
  by (induction us) auto

lemma firstNonEmpty_empty: "firstNonEmpty vs = [] \<longleftrightarrow> (\<forall>v \<in> set vs. v = [])"
  by (induction vs) auto

section \<open>Fields that cannot contain a separator\<close>

lemma format_int_excludes: "c \<noteq> CHR ''-'' \<Longrightarrow> digit_val c = None \<Longrightarrow> c \<notin> set (format_int z)"
  using format_int_chars [of c z] by auto

lemma hex_encode_excludes: "102 < (of_char c :: nat) \<Longrightarrow> c \<notin> set (hex_encode b)"
  using hex_encode_chars [of c b] of_char_hex_digit by (force split: if_splits)

lemma last_field:
  assumes "x @ d # y = x' @ d # y'" "d \<notin> set y" "d \<notin> set y'"
  shows "x = x' \<and> y = y'"
proof -
  have tail: "takeWhile (\<lambda>c. c \<noteq> d) (rev (u @ d # v)) = rev v" if "d \<notin> set v" for u v
    using that by (simp add: takeWhile_append takeWhile_eq_all_conv [THEN iffD2])
  have "rev y = rev y'"
    using tail [OF assms(2), of x] tail [OF assms(3), of x'] assms(1) by simp
  with assms(1) show ?thesis by simp
qed

lemma first_field:
  assumes "x @ d # y = x' @ d # y'" "d \<notin> set x" "d \<notin> set x'"
  shows "x = x' \<and> y = y'"
proof -
  have "takeWhile (\<lambda>c. c \<noteq> d) (u @ d # v) = u" if "d \<notin> set u" for u v
    using that by (simp add: takeWhile_append takeWhile_eq_all_conv [THEN iffD2])
  from this [OF assms(2), of y] this [OF assms(3), of y'] have "x = x'" by (simp add: assms(1))
  with assms(1) show ?thesis by simp
qed

end
