(* ===== verification/Base64.thy ===== *)
theory Base64
  imports GoStrings
begin

text \<open>
  \<open>base64.StdEncoding\<close> (with padding) and \<open>base64.RawURLEncoding\<close> (without) as
  \<open>encoding/base64\<close> implements them. The standard decoder skips carriage returns and
  newlines anywhere, takes padding at the end only, and ignores the unused low bits of a
  final partial group (it is not the \<open>Strict\<close> decoder).
\<close>

section \<open>Sextets and their characters\<close>

definition b64_char :: "nat \<Rightarrow> char" where
  "b64_char n = char_of (if n < 26 then 65 + n else if n < 52 then 71 + n
     else if n < 62 then n - 4 else if n = 62 then 43 else 47)"

definition b64_val :: "char \<Rightarrow> nat option" where
  "b64_val ch = (let c = of_char ch in
     if 65 \<le> c \<and> c \<le> 90 then Some (c - 65)
     else if 97 \<le> c \<and> c \<le> 122 then Some (c - 71)
     else if 48 \<le> c \<and> c \<le> 57 then Some (c + 4)
     else if c = 43 then Some 62 else if c = 47 then Some 63 else None)"

definition b64url_char :: "nat \<Rightarrow> char" where
  "b64url_char n = (if n = 62 then CHR ''-'' else if n = 63 then CHR ''_'' else b64_char n)"

lemma of_char_b64_char:
  "n < 64 \<Longrightarrow> (of_char (b64_char n) :: nat) =
     (if n < 26 then 65 + n else if n < 52 then 71 + n else if n < 62 then n - 4
      else if n = 62 then 43 else 47)"
proof -
  assume "n < 64"
  then have "(if n < 26 then 65 + n else if n < 52 then 71 + n else if n < 62 then n - 4
      else if n = 62 then 43 else 47) < 256"
    by auto
  then show ?thesis by (simp only: b64_char_def of_char_of mod_less)
qed

lemma b64_val_char: "n < 64 \<Longrightarrow> b64_val (b64_char n) = Some n"
  using of_char_b64_char [of n] by (auto simp: b64_val_def Let_def split: if_splits)

lemma b64_val_pad [simp]: "b64_val (CHR ''='') = None"
  by (simp add: b64_val_def)

lemma b64_val_less: "b64_val c = Some n \<Longrightarrow> n < 64"
  by (auto simp: b64_val_def Let_def split: if_splits)

lemma b64_char_neq:
  "n < 64 \<Longrightarrow> b64_char n \<noteq> CHR ''=''" "n < 64 \<Longrightarrow> b64_char n \<noteq> nl" "n < 64 \<Longrightarrow> b64_char n \<noteq> cr"
proof -
  have v: "b64_val nl = None" "b64_val cr = None" by (simp_all add: b64_val_def)
  show "n < 64 \<Longrightarrow> b64_char n \<noteq> CHR ''=''" "n < 64 \<Longrightarrow> b64_char n \<noteq> nl" "n < 64 \<Longrightarrow> b64_char n \<noteq> cr"
    using b64_val_char [of n] v by (auto simp del: b64_val_pad) (metis b64_val_pad option.distinct(1))
qed

section \<open>Encoding\<close>

definition quantum :: "nat \<Rightarrow> nat \<Rightarrow> nat \<Rightarrow> nat" where
  "quantum a b c = a * 65536 + b * 256 + c"

text \<open>The four sextets of a quantum: \<open>(val >> 18) & 0x3F\<close>, and so on down to \<open>val & 0x3F\<close>.\<close>

definition sextet :: "nat \<Rightarrow> nat \<Rightarrow> nat" where
  "sextet d q = (q div d) mod 64"

definition low6 :: "nat \<Rightarrow> nat" where
  "low6 q = q mod 64"

fun b64_encode :: "bytes \<Rightarrow> string" where
  "b64_encode [] = []"
| "b64_encode [a] = (let q = quantum (unat a) 0 0
     in [b64_char (sextet 262144 q), b64_char (sextet 4096 q), CHR ''='', CHR ''=''])"
| "b64_encode [a, b] = (let q = quantum (unat a) (unat b) 0
     in [b64_char (sextet 262144 q), b64_char (sextet 4096 q), b64_char (sextet 64 q), CHR ''=''])"
| "b64_encode (a # b # c # bs) = (let q = quantum (unat a) (unat b) (unat c)
     in [b64_char (sextet 262144 q), b64_char (sextet 4096 q), b64_char (sextet 64 q), b64_char (low6 q)]
        @ b64_encode bs)"

fun b64rawurl_encode :: "bytes \<Rightarrow> string" where
  "b64rawurl_encode [] = []"
| "b64rawurl_encode [a] = (let q = quantum (unat a) 0 0
     in [b64url_char (sextet 262144 q), b64url_char (sextet 4096 q)])"
| "b64rawurl_encode [a, b] = (let q = quantum (unat a) (unat b) 0
     in [b64url_char (sextet 262144 q), b64url_char (sextet 4096 q), b64url_char (sextet 64 q)])"
| "b64rawurl_encode (a # b # c # bs) = (let q = quantum (unat a) (unat b) (unat c)
     in [b64url_char (sextet 262144 q), b64url_char (sextet 4096 q), b64url_char (sextet 64 q), b64url_char (low6 q)]
        @ b64rawurl_encode bs)"

section \<open>Decoding\<close>

definition byte_at :: "nat \<Rightarrow> nat \<Rightarrow> byte" where
  "byte_at d q = word_of_nat ((q div d) mod 256)"

definition low8 :: "nat \<Rightarrow> byte" where
  "low8 q = word_of_nat (q mod 256)"

definition join4 :: "nat \<Rightarrow> nat \<Rightarrow> nat \<Rightarrow> nat \<Rightarrow> nat" where
  "join4 s t u v = s * 262144 + t * 4096 + u * 64 + v"

fun b64_groups :: "string \<Rightarrow> bytes option" where
  "b64_groups [] = Some []"
| "b64_groups (a # b # c # d # cs) =
     (case (b64_val a, b64_val b) of
        (Some s, Some t) \<Rightarrow>
          (case b64_val c of
             Some u \<Rightarrow>
               (case b64_val d of
                  Some v \<Rightarrow> map_option (\<lambda>bs. byte_at 65536 (join4 s t u v) # byte_at 256 (join4 s t u v)
                     # low8 (join4 s t u v) # bs) (b64_groups cs)
                | None \<Rightarrow> if d = CHR ''='' \<and> cs = []
                    then Some [byte_at 65536 (join4 s t u 0), byte_at 256 (join4 s t u 0)] else None)
           | None \<Rightarrow> if c = CHR ''='' \<and> d = CHR ''='' \<and> cs = []
                then Some [byte_at 65536 (join4 s t 0 0)] else None)
      | _ \<Rightarrow> None)"
| "b64_groups _ = None"

definition b64_decode :: "string \<Rightarrow> bytes option" where
  "b64_decode s = b64_groups (filter (\<lambda>c. c \<noteq> nl \<and> c \<noteq> cr) s)"

section \<open>Round trip\<close>

lemma sextet_less [simp]: "sextet i q < 64" "low6 q < 64"
  by (simp_all add: sextet_def low6_def)

lemma join_sextets: "q < 16777216 \<Longrightarrow> join4 (sextet 262144 q) (sextet 4096 q) (sextet 64 q) (low6 q) = q"
proof -
  assume q: "q < 16777216"
  have d: "q div 262144 = q div 64 div 64 div 64" "q div 4096 = q div 64 div 64"
    by (simp_all add: div_mult2_eq [symmetric])
  have h: "w * 262144 + x * 4096 + y * 64 + z = ((w * 64 + x) * 64 + y) * 64 + z" for w x y z :: nat
    by simp
  have "q div 64 div 64 div 64 < 64"
    using q by (simp add: d(1) [symmetric] less_mult_imp_div_less)
  then have "join4 (sextet 262144 q) (sextet 4096 q) (sextet 64 q) (low6 q)
      = ((q div 64 div 64 div 64 * 64 + q div 64 div 64 mod 64) * 64 + q div 64 mod 64) * 64 + q mod 64"
    by (simp only: join4_def sextet_def low6_def d h mod_less)
  then show ?thesis by (simp only: div_mult_mod_eq)
qed

lemma quantum_less: "quantum (unat (a :: byte)) (unat (b :: byte)) (unat (c :: byte)) < 16777216"
  using unat_byte_less [of a] unat_byte_less [of b] unat_byte_less [of c]
  unfolding quantum_def by linarith

lemma quantum_bytes:
  "byte_at 65536 (quantum (unat a) (unat b) (unat c)) = a"
  "byte_at 256 (quantum (unat a) (unat b) (unat c)) = b"
  "low8 (quantum (unat a) (unat b) (unat c)) = c"
proof -
  note l = unat_byte_less [of a] unat_byte_less [of b] unat_byte_less [of c]
  let ?q = "quantum (unat a) (unat b) (unat c)"
  have q: "?q = (unat a * 256 + unat b) * 256 + unat c" by (simp add: quantum_def)
  have h: "z < 256 \<Longrightarrow> (x * 256 + z) div 256 = x \<and> (x * 256 + z) mod 256 = z" for x z :: nat
    by simp
  have 1: "?q div 256 = unat a * 256 + unat b" "?q mod 256 = unat c"
    using l h [of "unat c" "unat a * 256 + unat b"] unfolding q by blast+
  have "?q div 65536 = ?q div 256 div 256" by (simp add: div_mult2_eq [symmetric])
  then have 2: "?q div 65536 = unat a" using l by (simp add: 1)
  show "byte_at 65536 ?q = a" "byte_at 256 ?q = b" "low8 ?q = c"
    using l by (simp_all add: byte_at_def low8_def 1 2)
qed

lemma sextet_zero_tail:
  "sextet 64 (quantum a 0 0) = 0" "low6 (quantum a 0 0) = 0" "low6 (quantum a b 0) = 0"
proof -
  have "quantum a 0 0 div 64 = (16 * a) * 64"
    by (simp add: quantum_def)
  then show "sextet 64 (quantum a 0 0) = 0" by (simp add: sextet_def)
  have "quantum a b 0 = (a * 1024 + b * 4) * 64" for b
    by (simp add: quantum_def)
  then show "low6 (quantum a 0 0) = 0" "low6 (quantum a b 0) = 0"
    by (simp_all add: sextet_def low6_def)
qed

text \<open>What one group decodes to, for full and padded groups.\<close>

lemma group4:
  "b64_groups (b64_char (sextet 262144 q) # b64_char (sextet 4096 q) # b64_char (sextet 64 q) # b64_char (low6 q) # cs)
     = map_option (\<lambda>bs. byte_at 65536 q # byte_at 256 q # low8 q # bs) (b64_groups cs)"
  if "q < 16777216"
  using that by (simp add: b64_val_char join_sextets)

lemma group_pad1:
  "b64_groups [b64_char (sextet 262144 q), b64_char (sextet 4096 q), b64_char (sextet 64 q), CHR ''='']
     = Some [byte_at 65536 q, byte_at 256 q]" if "q < 16777216" "low6 q = 0"
  using join_sextets [OF that(1)] that by (simp add: b64_val_char)

lemma group_pad2:
  "b64_groups [b64_char (sextet 262144 q), b64_char (sextet 4096 q), CHR ''='', CHR ''='']
     = Some [byte_at 65536 q]" if "q < 16777216" "sextet 64 q = 0" "low6 q = 0"
  using join_sextets [OF that(1)] that by (simp add: b64_val_char)

lemma quantum_less_0:
  "quantum (unat (a :: byte)) (unat (b :: byte)) 0 < 16777216" "quantum (unat (a :: byte)) 0 0 < 16777216"
  using quantum_less [of a b 0] quantum_less [of a 0 0] by simp_all

lemma quantum_bytes_0:
  "byte_at 65536 (quantum (unat a) (unat b) 0) = a" "byte_at 256 (quantum (unat a) (unat b) 0) = b"
  "byte_at 65536 (quantum (unat a) 0 0) = a"
  using quantum_bytes [of a b 0] quantum_bytes [of a 0 0] by simp_all

lemma groups_encode: "b64_groups (b64_encode bs) = Some bs"
  by (induction bs rule: b64_encode.induct)
    (simp_all add: Let_def group4 group_pad1 group_pad2 quantum_less quantum_less_0 quantum_bytes
      quantum_bytes_0 sextet_zero_tail del: b64_groups.simps(2))

text \<open>The alphabet of encoded text.\<close>

definition b64_alphabet :: "char \<Rightarrow> bool" where
  "b64_alphabet c \<longleftrightarrow> c = CHR ''='' \<or> b64_val c \<noteq> None"

lemma b64_encode_chars: "c \<in> set (b64_encode bs) \<Longrightarrow> b64_alphabet c"
  by (induction bs rule: b64_encode.induct) (auto simp: b64_alphabet_def Let_def b64_val_char)

lemma alphabet_no_newline: "b64_alphabet c \<Longrightarrow> c \<noteq> nl \<and> c \<noteq> cr \<and> c \<noteq> CHR ''|'' \<and> c \<noteq> CHR '' '' \<and> c \<noteq> CHR '':''"
  by (auto simp: b64_alphabet_def b64_val_def)

lemma b64_decode_encode [simp, codec_simps]: "b64_decode (b64_encode bs) = Some bs"
proof -
  have "filter (\<lambda>c. c \<noteq> nl \<and> c \<noteq> cr) (b64_encode bs) = b64_encode bs"
    by (auto simp: filter_id_conv dest!: b64_encode_chars alphabet_no_newline)
  then show ?thesis by (simp add: b64_decode_def groups_encode)
qed

lemma b64_encode_inject [simp]: "b64_encode a = b64_encode b \<longleftrightarrow> a = b"
  by (metis b64_decode_encode option.inject)

lemma length_b64_encode: "length (b64_encode bs) = 4 * ((length bs + 2) div 3)"
proof (induction bs rule: b64_encode.induct)
  case (4 a b c bs)
  have "(length (a # b # c # bs) + 2) div 3 = ((length bs + 2) + 3) div 3" by (simp add: add.commute)
  also have "\<dots> = Suc ((length bs + 2) div 3)" by simp
  finally show ?case using 4 by (simp add: Let_def)
qed (simp_all add: Let_def)

lemma b64_encode_empty [simp]: "b64_encode bs = [] \<longleftrightarrow> bs = []"
  by (induction bs rule: b64_encode.induct) (simp_all add: Let_def)

text \<open>Anything the decoder accepts is over the alphabet, newlines apart.\<close>

lemma b64_groups_chars: "b64_groups s = Some bs \<Longrightarrow> c \<in> set s \<Longrightarrow> b64_alphabet c"
  by (induction s arbitrary: bs rule: b64_groups.induct)
    (auto simp: b64_alphabet_def split: option.splits if_splits)

lemma b64_decode_chars: "b64_decode s = Some bs \<Longrightarrow> c \<in> set s \<Longrightarrow> b64_alphabet c \<or> c = nl \<or> c = cr"
  by (auto simp: b64_decode_def dest: b64_groups_chars)

lemma length_b64rawurl_encode: "length (b64rawurl_encode bs) = (4 * length bs + 2) div 3"
proof (induction bs rule: b64rawurl_encode.induct)
  case (4 a b c bs)
  have "(4 * length (a # b # c # bs) + 2) div 3 = ((4 * length bs + 2) + 4 * 3) div 3"
    by (simp add: add.commute)
  also have "\<dots> = 4 + (4 * length bs + 2) div 3" by simp
  finally show ?case using 4 by (simp add: Let_def)
qed (simp_all add: Let_def)

end
