(* ===== verification/Cards.thy ===== *)
theory Cards
  imports Shamir Base64 GoStrings
begin

text \<open>
  The recovery card format (\<open>backup.go\<close>, from \<open>buildBlob\<close> on): the checksummed binary frame,
  the printed card and share, the scanner that finds them again in pasted text, and the
  opening of a card. SHA-256, Argon2id and secretbox are parameters. Shown: the frame round
  trips and a changed checksum is refused; everything printed is found again, in the order
  it was pasted; a printed single card opens to its key.
\<close>

section \<open>The code\<close>

datatype card_error = NotACard | BadChecksum | BadBase64 | MalformedShare | UnknownBlock | NothingFound
  | NotRecoveryCard | MalformedPayload | WrongPassphrase | RecoveredSize | UnknownMode byte
  | PassphraseError

text \<open>\<open>sha\<close> is SHA-256, \<open>kdf pass salt\<close> Argon2id with the card's parameters, \<open>box\<close> secretbox.\<close>

record card_crypto =
  sha :: "bytes \<Rightarrow> bytes"
  kdf :: "string \<Rightarrow> bytes \<Rightarrow> bytes"
  box_seal :: "bytes \<Rightarrow> bytes \<Rightarrow> bytes \<Rightarrow> bytes"
  box_open :: "bytes \<Rightarrow> bytes \<Rightarrow> bytes \<Rightarrow> bytes option"

definition cardMagic :: string where "cardMagic = ''P3R1''"
definition shareMagic :: string where "shareMagic = ''P3S1''"
definition cardModePlain :: byte where "cardModePlain = 0"
definition cardModePass :: byte where "cardModePass = 1"

definition privateKeySize :: nat where "privateKeySize = 64"

definition buildBlob :: "card_crypto \<Rightarrow> string \<Rightarrow> bytes \<Rightarrow> bytes" where
  "buildBlob cc magic body =
     (let p = bytes_of magic @ body in p @ take 4 (sha cc p))"

definition openBlob :: "card_crypto \<Rightarrow> bytes \<Rightarrow> card_error + (string \<times> bytes)" where
  "openBlob cc p =
     (if length p < 4 + 4 then Inl NotACard
      else let pre = take (length p - 4) p; sum = drop (length p - 4) p
        in if take 4 (sha cc pre) \<noteq> sum then Inl BadChecksum
           else Inr (string_of (take 4 pre), drop 4 pre))"

text \<open>\<open>for i := 0; i < len(b64); i += 48\<close>\<close>

fun chunks48 :: "string \<Rightarrow> string list" where
  "chunks48 [] = []"
| "chunks48 (c # cs) = take 48 (c # cs) # chunks48 (drop 47 cs)"

abbreviation em_dash :: string where "em_dash \<equiv> [CHR 0xE2, CHR 0x80, CHR 0x94]"

definition renderCard :: "string \<Rightarrow> string \<Rightarrow> bytes \<Rightarrow> string" where
  "renderCard fp protection payload =
     ''-----BEGIN P3SIG RECOVERY CARD-----'' @ [nl] @
     ''fingerprint: '' @ fp @ ''   (public '' @ em_dash @ '' identifies the key, not secret)'' @ [nl] @
     ''protection:  '' @ protection @ [nl] @
     [nl] @ join_with [nl] (chunks48 (b64_encode payload)) @ [nl] @
     ''-----END P3SIG RECOVERY CARD-----'' @ [nl]"

definition renderShare :: "string \<Rightarrow> int \<Rightarrow> int \<Rightarrow> int \<Rightarrow> bytes \<Rightarrow> string" where
  "renderShare fp idx n m payload =
     ''-----BEGIN P3SIG RECOVERY SHARE-----'' @ [nl] @
     ''share:       '' @ format_int idx @ '' of '' @ format_int n @ ''   (any '' @ format_int m
       @ '' recover the key)'' @ [nl] @
     ''fingerprint: '' @ fp @ ''   (public '' @ em_dash @ '' identifies the key, not secret)'' @ [nl] @
     [nl] @ join_with [nl] (chunks48 (b64_encode payload)) @ [nl] @
     ''-----END P3SIG RECOVERY SHARE-----'' @ [nl]"

text \<open>\<open>^[A-Za-z0-9+/=]+$\<close>\<close>

definition cardB64Char :: "char \<Rightarrow> bool" where
  "cardB64Char c \<longleftrightarrow> (CHR ''A'' \<le> c \<and> c \<le> CHR ''Z'') \<or> (CHR ''a'' \<le> c \<and> c \<le> CHR ''z'')
     \<or> (CHR ''0'' \<le> c \<and> c \<le> CHR ''9'') \<or> c = CHR ''+'' \<or> c = CHR ''/'' \<or> c = CHR ''=''"

definition cardB64Line :: "string \<Rightarrow> bool" where
  "cardB64Line s \<longleftrightarrow> s \<noteq> [] \<and> list_all cardB64Char s"

text \<open>The variables the scanner's closure captures: \<open>in\<close>, the builder \<open>b\<close>, the results.\<close>

record scan =
  sc_in :: bool
  sc_b :: string
  sc_cards :: "bytes list"
  sc_shares :: "shareT list"

definition flush_block :: "card_crypto \<Rightarrow> scan \<Rightarrow> card_error + scan" where
  "flush_block cc st =
     (if sc_b st = [] then Inr st
      else bindE (optE BadBase64 (b64_decode (sc_b st))) (\<lambda>p.
        let st = st\<lparr>sc_b := []\<rparr>
        in bindE (openBlob cc p) (\<lambda>(magic, body).
          if magic = cardMagic then Inr (st\<lparr>sc_cards := sc_cards st @ [p]\<rparr>)
          else if magic = shareMagic then
            (if length body < 2 then Inl MalformedShare
             else Inr (st\<lparr>sc_shares := sc_shares st
               @ [\<lparr>sh_x = body ! 1, sh_m = body ! 0, sh_y = drop 2 body\<rparr>]\<rparr>))
          else Inl UnknownBlock)))"

definition scan_line :: "card_crypto \<Rightarrow> scan \<Rightarrow> string \<Rightarrow> card_error + scan" where
  "scan_line cc st ln =
     (let s = trim_space ln
      in if sublist ''BEGIN P3SIG RECOVERY'' s then Inr (st\<lparr>sc_in := True, sc_b := []\<rparr>)
         else if sublist ''END P3SIG RECOVERY'' s then
           bindE (flush_block cc st) (\<lambda>st. Inr (st\<lparr>sc_in := False\<rparr>))
         else if sc_in st \<and> cardB64Line s then Inr (st\<lparr>sc_b := sc_b st @ s\<rparr>)
         else Inr st)"

definition extractBlocks :: "card_crypto \<Rightarrow> string \<Rightarrow> card_error + (bytes list \<times> shareT list)" where
  "extractBlocks cc raw =
     bindE (foldE (scan_line cc) \<lparr>sc_in = False, sc_b = [], sc_cards = [], sc_shares = []\<rparr> (split_on nl raw))
       (\<lambda>st. if sc_cards st = [] \<and> sc_shares st = [] then Inl NothingFound
             else Inr (sc_cards st, sc_shares st))"

text \<open>\<open>pass\<close> is what \<open>readPassphrase\<close> returned.\<close>

definition openSingleCard :: "card_crypto \<Rightarrow> card_error + string \<Rightarrow> bytes \<Rightarrow> card_error + bytes" where
  "openSingleCard cc pass payload =
     bindE (openBlob cc payload) (\<lambda>(magic, body).
       if magic \<noteq> cardMagic \<or> length body < 1 then Inl NotRecoveryCard
       else let mode = hd body; rest = tl body
         in if mode = cardModePlain then
              (if length rest \<noteq> privateKeySize then Inl MalformedPayload else Inr rest)
            else if mode = cardModePass then
              (if length rest < 16 + 24 + 1 then Inl MalformedPayload
               else let salt = take 16 rest; nonce = take 24 (drop 16 rest); ct = drop 40 rest
                 in bindE pass (\<lambda>p.
                      case box_open cc (kdf cc p salt) nonce ct of
                        None \<Rightarrow> Inl WrongPassphrase
                      | Some plain \<Rightarrow>
                          if length plain \<noteq> privateKeySize then Inl RecoveredSize else Inr plain))
            else Inl (UnknownMode mode))"

text \<open>The body of a passphrase card, as \<open>cmdBackup\<close> builds it.\<close>

definition passBody :: "card_crypto \<Rightarrow> string \<Rightarrow> bytes \<Rightarrow> bytes \<Rightarrow> bytes \<Rightarrow> bytes" where
  "passBody cc pass salt nonce key =
     [cardModePass] @ salt @ nonce @ box_seal cc (kdf cc pass salt) nonce key"

definition sharePayload :: "card_crypto \<Rightarrow> shareT \<Rightarrow> bytes" where
  "sharePayload cc s = buildBlob cc shareMagic ([sh_m s, sh_x s] @ sh_y s)"

subsection \<open>\<open>parseSplit\<close>\<close>

text \<open>
  \<open>strings.ToLower\<close> is the ASCII one: no character outside ASCII lowers to a digit, a
  letter of ''of'', a dash or a slash, so the result of \<open>parseSplit\<close> is the same.
\<close>

definition lower_char :: "char \<Rightarrow> char" where
  "lower_char c = (if CHR ''A'' \<le> c \<and> c \<le> CHR ''Z'' then char_of (of_char c + 32 :: nat) else c)"

fun split_first :: "string \<Rightarrow> string \<Rightarrow> string \<times> string" where
  "split_first t [] = ([], [])"
| "split_first t (c # cs) =
     (if prefix t (c # cs) then ([], drop (length t) (c # cs))
      else case split_first t cs of (a, b) \<Rightarrow> (c # a, b))"

definition parseSplit :: "string \<Rightarrow> (int \<times> int) option" where
  "parseSplit s0 =
     (let s = map lower_char (trim_space s0)
      in case find (\<lambda>d. sublist d s) [''-of-'', ''of'', ''/'', ''-''] of
           None \<Rightarrow> None
         | Some sep \<Rightarrow> (case split_first sep s of (a, b) \<Rightarrow>
             (case (parse_int64 (trim_space a), parse_int64 (trim_space b)) of
                (Some m, Some n) \<Rightarrow> Some (m, n)
              | _ \<Rightarrow> None)))"

section \<open>The frame\<close>

text \<open>What is used of SHA-256 and secretbox.\<close>

definition sha256_length :: "card_crypto \<Rightarrow> bool" where
  "sha256_length cc \<longleftrightarrow> (\<forall>p. length (sha cc p) = 32)"

definition secretbox_opens :: "card_crypto \<Rightarrow> bool" where
  "secretbox_opens cc \<longleftrightarrow> (\<forall>k n m. box_open cc k n (box_seal cc k n m) = Some m
     \<and> length (box_seal cc k n m) = length m + 16)"

lemma openBlob_buildBlob:
  assumes "sha256_length cc" "length magic = 4"
  shows "openBlob cc (buildBlob cc magic body) = Inr (magic, body)"
  using assms by (simp add: openBlob_def buildBlob_def sha256_length_def Let_def)

lemma openBlob_canonical:
  "openBlob cc p = Inr (magic, body) \<Longrightarrow> p = buildBlob cc magic body \<and> length magic = 4"
proof -
  let ?pre = "take (length p - 4) p"
  assume h: "openBlob cc p = Inr (magic, body)"
  then have "8 \<le> length p" "take 4 (sha cc ?pre) = drop (length p - 4) p"
    and mb: "magic = string_of (take 4 ?pre)" "body = drop 4 ?pre"
    by (simp_all add: openBlob_def Let_def split: if_splits)
  then have "p = ?pre @ take 4 (sha cc ?pre)" by simp
  moreover have "bytes_of magic @ body = ?pre" by (simp only: mb bytes_of_string_of append_take_drop_id)
  ultimately show ?thesis
    using \<open>8 \<le> length p\<close> by (simp add: buildBlob_def Let_def mb(1))
qed

section \<open>Printed text\<close>

definition unlines :: "string list \<Rightarrow> string" where
  "unlines ls = concat (map (\<lambda>l. l @ [nl]) ls)"

lemma unlines_simps [simp]: "unlines [] = []" "unlines (l # ls) = l @ nl # unlines ls"
  "unlines (ks @ ls) = unlines ks @ unlines ls"
  by (simp_all add: unlines_def)

lemma split_unlines:
  "(\<And>l. l \<in> set ls \<Longrightarrow> nl \<notin> set l) \<Longrightarrow> split_on nl (unlines ls @ rest) = ls @ split_on nl rest"
  by (induction ls) (simp_all add: split_on_append)

lemma join_unlines: "ls \<noteq> [] \<Longrightarrow> join_with [nl] ls @ nl # rest = unlines ls @ rest"
  by (induction "[nl]" ls rule: join_with.induct) simp_all

lemma chunks48_concat [simp]: "concat (chunks48 s) = s"
  by (induction s rule: chunks48.induct) simp_all

lemma chunks48_mem: "w \<in> set (chunks48 s) \<Longrightarrow> w \<noteq> [] \<and> set w \<subseteq> set s"
  by (induction s rule: chunks48.induct) (auto dest: in_set_takeD in_set_dropD)

lemma chunks48_empty [simp]: "chunks48 s = [] \<longleftrightarrow> s = []"
  by (cases s) simp_all

text \<open>
  A block marker contains a space followed by P; no other line of a card does. So the other
  lines are either base64 or ignored.
\<close>

lemma marker_space_P:
  "sublist ''BEGIN P3SIG RECOVERY'' s \<Longrightarrow> sublist '' P'' s"
  "sublist ''END P3SIG RECOVERY'' s \<Longrightarrow> sublist '' P'' s"
proof -
  have "sublist '' P'' ''BEGIN P3SIG RECOVERY''" "sublist '' P'' ''END P3SIG RECOVERY''"
    by (simp_all add: sublist_code)
  then show "sublist ''BEGIN P3SIG RECOVERY'' s \<Longrightarrow> sublist '' P'' s"
    "sublist ''END P3SIG RECOVERY'' s \<Longrightarrow> sublist '' P'' s"
    using sublist_order.order_trans by blast+
qed

lemma scan_ignored:
  "trim_space l = l \<Longrightarrow> \<not> sublist '' P'' l \<Longrightarrow> \<not> cardB64Line l \<Longrightarrow> scan_line cc st l = Inr st"
  using marker_space_P [of l] by (auto simp: scan_line_def Let_def)

lemma alphabet_cardB64Char: "b64_alphabet c \<Longrightarrow> cardB64Char c"
proof -
  have eq: "c = d" if "of_char c = (of_char d :: nat)" for d
    using that by (simp only: of_char_eq_iff)
  have "c = CHR ''+''" if "of_char c = (43 :: nat)"
    using that by (intro eq) simp
  moreover have "c = CHR ''/''" if "of_char c = (47 :: nat)"
    using that by (intro eq) simp
  moreover assume "b64_alphabet c"
  ultimately show ?thesis
    by (auto simp: cardB64Char_def b64_alphabet_def b64_val_def Let_def less_eq_char_def split: if_splits)
qed

lemma b64_line:
  assumes "w \<in> set (chunks48 (b64_encode p))"
  shows "cardB64Line w" "trim_space w = w" "\<not> sublist '' P'' w" "nl \<notin> set w"
proof -
  have w: "w \<noteq> []" "\<And>c. c \<in> set w \<Longrightarrow> b64_alphabet c"
    using chunks48_mem [OF assms] b64_encode_chars by blast+
  then show "cardB64Line w"
    by (auto simp: cardB64Line_def list_all_iff intro: alphabet_cardB64Char)
  have "\<not> space_edge c" if "b64_alphabet c" for c
    using that by (auto simp: b64_alphabet_def b64_val_def Let_def space_edge_def go_spaces_def)
  then show "trim_space w = w"
    using w by (intro trim_space_id) simp
  show "nl \<notin> set w" using w(2) alphabet_no_newline by blast
  have "CHR '' '' \<notin> set w" using w(2) alphabet_no_newline by blast
  then show "\<not> sublist '' P'' w"
    by (auto simp: sublist_def)
qed

lemma scan_b64:
  "(\<And>w. w \<in> set ws \<Longrightarrow> cardB64Line w \<and> trim_space w = w \<and> \<not> sublist '' P'' w) \<Longrightarrow>
   foldE (scan_line cc) \<lparr>sc_in = True, sc_b = b, sc_cards = cs, sc_shares = ss\<rparr> ws =
     Inr \<lparr>sc_in = True, sc_b = b @ concat ws, sc_cards = cs, sc_shares = ss\<rparr>"
  using marker_space_P
  by (induction ws arbitrary: b) (auto simp: scan_line_def Let_def)

lemma scan_ignored_all:
  "(\<And>w. w \<in> set ws \<Longrightarrow> trim_space w = w \<and> \<not> sublist '' P'' w \<and> \<not> cardB64Line w) \<Longrightarrow>
   foldE (scan_line cc) st ws = Inr st"
  by (induction ws) (simp_all add: scan_ignored)

text \<open>A printed block: marker, notes, an empty line, the payload, marker.\<close>

definition printed :: "string \<Rightarrow> string list \<Rightarrow> bytes \<Rightarrow> string list" where
  "printed kind notes payload =
     [''-----BEGIN P3SIG RECOVERY '' @ kind @ ''-----''] @ notes @ [[]] @
     chunks48 (b64_encode payload) @ [''-----END P3SIG RECOVERY '' @ kind @ ''-----'']"

definition note_line :: "string \<Rightarrow> bool" where
  "note_line l \<longleftrightarrow> trim_space l = l \<and> \<not> sublist '' P'' l \<and> \<not> cardB64Line l \<and> nl \<notin> set l"

lemma scan_begin:
  "trim_space (''-----BEGIN P3SIG RECOVERY '' @ kind @ ''-----'') = ''-----BEGIN P3SIG RECOVERY '' @ kind @ ''-----''"
  "trim_space (''-----END P3SIG RECOVERY '' @ kind @ ''-----'') = ''-----END P3SIG RECOVERY '' @ kind @ ''-----''"
  by (intro trim_space_id; simp add: space_edge_def go_spaces_def)+

lemma not_begin_end:
  "kind \<in> {''CARD'', ''SHARE''} \<Longrightarrow> \<not> sublist ''BEGIN P3SIG RECOVERY'' (''-----END P3SIG RECOVERY '' @ kind @ ''-----'')"
  "sublist ''END P3SIG RECOVERY'' (''-----END P3SIG RECOVERY '' @ kind @ ''-----'')"
  "sublist ''BEGIN P3SIG RECOVERY'' (''-----BEGIN P3SIG RECOVERY '' @ kind @ ''-----'')"
  by (auto simp: sublist_code)

lemma scan_printed:
  assumes "payload \<noteq> []" "kind \<in> {''CARD'', ''SHARE''}" "\<And>l. l \<in> set notes \<Longrightarrow> note_line l"
  shows "foldE (scan_line cc) st (printed kind notes payload) =
    bindE (flush_block cc \<lparr>sc_in = True, sc_b = b64_encode payload, sc_cards = sc_cards st, sc_shares = sc_shares st\<rparr>)
      (\<lambda>st. Inr (st\<lparr>sc_in := False\<rparr>))"
proof -
  let ?st = "\<lparr>sc_in = True, sc_b = [], sc_cards = sc_cards st, sc_shares = sc_shares st\<rparr>"
  have empty: "scan_line cc ?st [] = Inr ?st"
    by (rule scan_ignored) (simp_all add: trim_space_def cardB64Line_def sublist_code)
  have ns: "foldE (scan_line cc) ?st notes = Inr ?st"
    using assms(3) by (intro scan_ignored_all) (simp add: note_line_def)
  have "scan_line cc st (''-----BEGIN P3SIG RECOVERY '' @ kind @ ''-----'') = Inr ?st"
    by (simp only: scan_line_def scan_begin not_begin_end Let_def if_True) simp
  moreover have "scan_line cc \<lparr>sc_in = True, sc_b = b64_encode payload, sc_cards = sc_cards st, sc_shares = sc_shares st\<rparr>
      (''-----END P3SIG RECOVERY '' @ kind @ ''-----'') =
    bindE (flush_block cc \<lparr>sc_in = True, sc_b = b64_encode payload, sc_cards = sc_cards st, sc_shares = sc_shares st\<rparr>)
      (\<lambda>st. Inr (st\<lparr>sc_in := False\<rparr>))"
    using assms(2) by (simp only: scan_line_def scan_begin not_begin_end Let_def if_True if_False)
  ultimately show ?thesis
    using b64_line [of _ payload]
    by (simp add: printed_def foldE_append empty ns scan_b64 del: append_Cons)
qed

section \<open>What is printed is found\<close>

text \<open>A fingerprint: \<open>SHA256:\<close> and base64.\<close>

definition fp_text :: "string \<Rightarrow> bool" where
  "fp_text fp \<longleftrightarrow> (\<exists>b. fp = ''SHA256:'' @ b64_encode b)"

lemma no_space_P_append:
  assumes "\<not> sublist '' P'' xs" "\<not> sublist '' P'' ys" "xs = [] \<or> last xs \<noteq> CHR '' '' \<or> ys = [] \<or> hd ys \<noteq> CHR ''P''"
  shows "\<not> sublist '' P'' (xs @ ys)"
proof
  assume "sublist '' P'' (xs @ ys)"
  with assms(1,2) obtain us vs where uv: "us @ vs = '' P''" "suffix us xs" "prefix vs ys"
    by (auto simp: sublist_append)
  consider "us = []" | "us = '' ''" "vs = ''P''" | "vs = []"
    using uv(1) by (auto simp: append_eq_Cons_conv)
  then show False
  proof cases
    case 1
    with uv have "prefix '' P'' ys" by simp
    with assms(2) show False using prefix_imp_sublist by blast
  next
    case 2
    with uv have "suffix '' '' xs" "prefix ''P'' ys" by simp_all
    then have "xs \<noteq> []" "last xs = CHR '' ''" "ys \<noteq> []" "hd ys = CHR ''P''"
      by (auto simp: suffix_def prefix_def)
    with assms(3) show False by blast
  next
    case 3
    with uv have "suffix '' P'' xs" by simp
    with assms(1) show False using suffix_imp_sublist by blast
  qed
qed

lemma no_space_P_word: "CHR '' '' \<notin> set xs \<Longrightarrow> \<not> sublist '' P'' xs"
  by (auto simp: sublist_def)

lemma digit_not: "d < 10 \<Longrightarrow> digit d \<noteq> CHR '' '' \<and> digit d \<noteq> nl \<and> digit d \<noteq> CHR ''P''"
  using of_char_digit [of d] by auto

lemma format_int_no_space: "CHR '' '' \<notin> set (format_int z)" "nl \<notin> set (format_int z)"
  using format_int_chars [of _ z] digit_not by fastforce+

lemma note_line_intro:
  assumes "l \<noteq> []" "\<not> space_edge (hd l)" "\<not> space_edge (last l)" "\<not> sublist '' P'' l" "nl \<notin> set l"
    "c \<in> set l" "\<not> cardB64Char c"
  shows "note_line l"
  using assms by (auto simp: note_line_def cardB64Line_def list_all_iff intro: trim_space_id)

lemma fp_no_space: "fp_text fp \<Longrightarrow> CHR '' '' \<notin> set fp \<and> nl \<notin> set fp \<and> fp \<noteq> [] \<and> hd fp = CHR ''S''"
  using b64_encode_chars alphabet_no_newline by (fastforce simp: fp_text_def)

lemma fingerprint_note:
  assumes "fp_text fp"
  shows "note_line (''fingerprint: '' @ fp @ ''   (public '' @ em_dash @ '' identifies the key, not secret)'')"
    (is "note_line (?a @ fp @ ?b)")
proof (rule note_line_intro [where c = "CHR '':''"])
  have "\<not> sublist '' P'' ?a" "\<not> sublist '' P'' ?b" by (simp_all add: sublist_code)
  moreover have "\<not> sublist '' P'' (fp @ ?b)"
    using fp_no_space [OF assms] \<open>\<not> sublist '' P'' ?b\<close>
    by (intro no_space_P_append [of fp]) (simp_all add: no_space_P_word)
  ultimately show "\<not> sublist '' P'' (?a @ fp @ ?b)"
    using fp_no_space [OF assms] by (intro no_space_P_append [of ?a "fp @ ?b"]) simp_all
qed (use fp_no_space [OF assms] in \<open>simp_all add: space_edge_def go_spaces_def cardB64Char_def less_eq_char_def\<close>)

lemma share_note:
  "note_line (''share:       '' @ format_int i @ '' of '' @ format_int n @ ''   (any '' @ format_int m
       @ '' recover the key)'')" (is "note_line (?a @ format_int i @ ?b @ format_int n @ ?c @ format_int m @ ?d)")
proof (rule note_line_intro [where c = "CHR '':''"])
  have lit: "\<not> sublist '' P'' ?a" "\<not> sublist '' P'' ?b" "\<not> sublist '' P'' ?c" "\<not> sublist '' P'' ?d"
    by (simp_all add: sublist_code)
  have num: "\<not> sublist '' P'' (format_int z)" for z
    using format_int_no_space by (intro no_space_P_word) simp
  have P: "hd (format_int z @ s) \<noteq> CHR ''P''" for z s
  proof -
    have "format_int z \<noteq> []" by (simp add: format_int_def)
    then have "hd (format_int z @ s) \<in> set (format_int z)" by simp
    then show ?thesis
      using format_int_chars [of "hd (format_int z @ s)" z] digit_not by fastforce
  qed
  show "\<not> sublist '' P'' (?a @ format_int i @ ?b @ format_int n @ ?c @ format_int m @ ?d)"
    by (intro no_space_P_append lit num) (use P in simp_all)
qed (use format_int_no_space in \<open>simp_all add: space_edge_def go_spaces_def cardB64Char_def less_eq_char_def\<close>)

text \<open>The notes of a printed block.\<close>

definition fp_line :: "string \<Rightarrow> string" where
  "fp_line fp = ''fingerprint: '' @ fp @ ''   (public '' @ em_dash @ '' identifies the key, not secret)''"

definition share_line :: "int \<Rightarrow> int \<Rightarrow> int \<Rightarrow> string" where
  "share_line i n m = ''share:       '' @ format_int i @ '' of '' @ format_int n @ ''   (any '' @ format_int m
     @ '' recover the key)''"

definition prot_line :: "string \<Rightarrow> string" where
  "prot_line prot = ''protection:  '' @ prot"

lemma b64_chunks_nonempty: "payload \<noteq> [] \<Longrightarrow> chunks48 (b64_encode payload) \<noteq> []"
  by simp

lemma renderCard_lines:
  assumes "payload \<noteq> []"
  shows "renderCard fp protection payload = unlines (printed ''CARD''
    [fp_line fp, prot_line protection] payload)"
  using join_unlines [OF b64_chunks_nonempty [OF assms], of "''-----END P3SIG RECOVERY CARD-----'' @ [nl]"]
  by (simp add: renderCard_def printed_def fp_line_def prot_line_def)

lemma renderShare_lines:
  assumes "payload \<noteq> []"
  shows "renderShare fp i n m payload = unlines (printed ''SHARE''
    [share_line i n m, fp_line fp] payload)"
  using join_unlines [OF b64_chunks_nonempty [OF assms], of "''-----END P3SIG RECOVERY SHARE-----'' @ [nl]"]
  by (simp add: renderShare_def printed_def fp_line_def share_line_def)

lemma printed_no_nl:
  assumes "kind \<in> {''CARD'', ''SHARE''}" "\<And>l. l \<in> set notes \<Longrightarrow> note_line l" "l \<in> set (printed kind notes payload)"
  shows "nl \<notin> set l"
  using assms b64_line(4) [of l payload] by (auto simp: printed_def note_line_def)

lemma scan_text:
  assumes "\<And>l. l \<in> set ls \<Longrightarrow> nl \<notin> set l" "foldE (scan_line cc) \<lparr>sc_in = False, sc_b = [], sc_cards = [], sc_shares = []\<rparr> ls
      = Inr st" "sc_cards st \<noteq> [] \<or> sc_shares st \<noteq> []"
  shows "extractBlocks cc (unlines ls) = Inr (sc_cards st, sc_shares st)"
proof -
  have last_line: "scan_line cc st' [] = Inr st'" for st'
    by (rule scan_ignored) (simp_all add: trim_space_def cardB64Line_def sublist_code)
  have "split_on nl (unlines ls) = ls @ [[]]"
    using split_unlines [of ls "[]"] assms(1) by simp
  with assms(2,3) show ?thesis
    by (simp add: extractBlocks_def foldE_append last_line)
qed

lemma buildBlob_nonempty [simp]: "length magic = 4 \<Longrightarrow> buildBlob cc magic body \<noteq> []"
proof -
  assume "length magic = 4"
  then have "bytes_of magic \<noteq> []" by (metis length_bytes_of list.size(3) zero_neq_numeral)
  then show ?thesis by (simp add: buildBlob_def Let_def)
qed

lemma scan_card:
  assumes "sha256_length cc" "\<And>l. l \<in> set notes \<Longrightarrow> note_line l"
  shows "foldE (scan_line cc) st (printed ''CARD'' notes (buildBlob cc cardMagic body))
    = Inr \<lparr>sc_in = False, sc_b = [], sc_cards = sc_cards st @ [buildBlob cc cardMagic body], sc_shares = sc_shares st\<rparr>"
  using assms openBlob_buildBlob [OF assms(1), of cardMagic body]
  by (subst scan_printed) (simp_all add: flush_block_def cardMagic_def)

lemma scan_share:
  assumes "sha256_length cc" "\<And>l. l \<in> set notes \<Longrightarrow> note_line l"
  shows "foldE (scan_line cc) st (printed ''SHARE'' notes (sharePayload cc s))
    = Inr \<lparr>sc_in = False, sc_b = [], sc_cards = sc_cards st, sc_shares = sc_shares st @ [s]\<rparr>"
  using assms openBlob_buildBlob [OF assms(1), of shareMagic "[sh_m s, sh_x s] @ sh_y s"]
  by (subst scan_printed) (simp_all add: flush_block_def cardMagic_def shareMagic_def sharePayload_def)

lemma sharePayload_nonempty [simp]: "sharePayload cc s \<noteq> []"
  by (simp add: sharePayload_def shareMagic_def)

text \<open>The two protection lines \<open>cmdBackup\<close> prints.\<close>

definition protection_none :: string where
  "protection_none = ''NONE '' @ em_dash @ '' keep this card physically secure (e.g. a safe)''"

definition protection_pass :: string where
  "protection_pass = ''passphrase (Argon2id) '' @ em_dash @ '' useless to anyone without the passphrase''"

lemma protection_note: "prot \<in> {protection_none, protection_pass} \<Longrightarrow> note_line (prot_line prot)"
proof -
  have "note_line (prot_line protection_none)" "note_line (prot_line protection_pass)"
    unfolding prot_line_def protection_none_def protection_pass_def
    by (rule note_line_intro [where c = "CHR '':''"];
      simp add: sublist_code space_edge_def go_spaces_def cardB64Char_def less_eq_char_def)+
  then show "prot \<in> {protection_none, protection_pass} \<Longrightarrow> ?thesis" by blast
qed

lemma extract_printed_card:
  assumes "sha256_length cc" "fp_text fp" "prot \<in> {protection_none, protection_pass}"
  shows "extractBlocks cc (renderCard fp prot (buildBlob cc cardMagic body))
    = Inr ([buildBlob cc cardMagic body], [])"
proof -
  let ?notes = "[fp_line fp, prot_line prot]"
  have ns: "note_line l" if "l \<in> set ?notes" for l
    using that fingerprint_note [OF assms(2), folded fp_line_def] protection_note [OF assms(3)] by auto
  have as_lines: "renderCard fp prot (buildBlob cc cardMagic body)
      = unlines (printed ''CARD'' ?notes (buildBlob cc cardMagic body))"
    by (rule renderCard_lines) (simp add: cardMagic_def)
  have "foldE (scan_line cc) \<lparr>sc_in = False, sc_b = [], sc_cards = [], sc_shares = []\<rparr>
      (printed ''CARD'' ?notes (buildBlob cc cardMagic body))
    = Inr \<lparr>sc_in = False, sc_b = [], sc_cards = [buildBlob cc cardMagic body], sc_shares = []\<rparr>"
    by (subst scan_card [OF assms(1)]) (erule ns, simp)
  moreover have "nl \<notin> set l" if "l \<in> set (printed ''CARD'' ?notes (buildBlob cc cardMagic body))" for l
    by (rule printed_no_nl [OF _ _ that]) (simp, erule ns)
  ultimately have "extractBlocks cc (unlines (printed ''CARD'' ?notes (buildBlob cc cardMagic body)))
      = Inr ([buildBlob cc cardMagic body], [])" using scan_text by fastforce
  then show ?thesis by (simp only: as_lines)
qed

text \<open>Any number of printed shares, pasted one after the other.\<close>

lemma extract_printed_shares:
  assumes "sha256_length cc" "fp_text fp" "sel \<noteq> []"
  shows "extractBlocks cc (concat (map (\<lambda>(i, s). renderShare fp i n m (sharePayload cc s)) sel))
    = Inr ([], map snd sel)"
proof -
  let ?notes = "\<lambda>i. [share_line i n m, fp_line fp]"
  let ?lines = "concat (map (\<lambda>(i, s). printed ''SHARE'' (?notes i) (sharePayload cc s)) sel)"
  have ns: "note_line l" if "l \<in> set (?notes i)" for l i
    using that fingerprint_note [OF assms(2), folded fp_line_def] share_note [folded share_line_def] by auto
  have as_lines: "concat (map (\<lambda>(i, s). renderShare fp i n m (sharePayload cc s)) xs)
      = unlines (concat (map (\<lambda>(i, s). printed ''SHARE'' (?notes i) (sharePayload cc s)) xs))" for xs
    by (induction xs) (auto simp: renderShare_lines)
  have no_nl: "nl \<notin> set l" if "l \<in> set ?lines" for l
  proof -
    from that obtain i s where "l \<in> set (printed ''SHARE'' (?notes i) (sharePayload cc s))" by auto
    from printed_no_nl [OF _ _ this] show ?thesis by (simp add: ns)
  qed
  have "foldE (scan_line cc) st (concat (map (\<lambda>(i, s). printed ''SHARE'' (?notes i) (sharePayload cc s)) xs))
      = Inr (if xs = [] then st else \<lparr>sc_in = False, sc_b = [], sc_cards = sc_cards st, sc_shares = sc_shares st @ map snd xs\<rparr>)"
    for xs and st :: scan
  proof (induction xs arbitrary: st)
    case (Cons a xs)
    obtain i s where a: "a = (i, s)" by (cases a)
    show ?case
      using scan_share [of cc "?notes i" st s] assms(1) ns [of _ i]
      by (simp add: a foldE_append Cons.IH)
  qed simp
  from this [of _ sel] assms(3)
  have "foldE (scan_line cc) \<lparr>sc_in = False, sc_b = [], sc_cards = [], sc_shares = []\<rparr> ?lines
      = Inr \<lparr>sc_in = False, sc_b = [], sc_cards = [], sc_shares = map snd sel\<rparr>" by simp
  from scan_text [OF no_nl this] assms(3) show ?thesis
    by (simp add: as_lines)
qed

section \<open>Opening a card\<close>

lemma open_plain_card:
  assumes "sha256_length cc" "length key = 64"
  shows "openSingleCard cc pass (buildBlob cc cardMagic ([cardModePlain] @ key)) = Inr key"
  using assms openBlob_buildBlob [OF assms(1), of cardMagic "[cardModePlain] @ key"]
  by (simp add: openSingleCard_def cardMagic_def privateKeySize_def)

lemma open_pass_card:
  assumes "sha256_length cc" "secretbox_opens cc" "length key = 64" "length salt = 16" "length nonce = 24"
  shows "openSingleCard cc (Inr p) (buildBlob cc cardMagic (passBody cc p salt nonce key)) = Inr key"
proof -
  have "length (box_seal cc (kdf cc p salt) nonce key) = 80"
    using assms(2,3) by (simp add: secretbox_opens_def)
  with assms openBlob_buildBlob [OF assms(1), of cardMagic "passBody cc p salt nonce key"]
  show ?thesis
    by (simp add: openSingleCard_def cardMagic_def privateKeySize_def passBody_def cardModePlain_def cardModePass_def
        Let_def secretbox_opens_def)
qed

end
