(* ===== verification/Wrap.thy ===== *)
theory Wrap
  imports Prelude
begin

unbundle bit_operations_syntax

text \<open>
  The two wrapped-blob formats (\<open>wrap.go\<close>): a secret sealed with AES-GCM under a key
  agreed with a chip's P-256 key, or under a key derived from a passphrase. AES-GCM, HKDF, Argon2id
  and P-256 are parameters. Shown: each format round trips and has the documented length; a
  blob of one scheme is refused by the reader of the other; whatever opens is byte for byte
  what the writer produces from the fields it carries; the passphrase reader never runs
  Argon2id outside its bounds, so the writer can produce a blob that the reader refuses.
\<close>

section \<open>The code\<close>

definition wrapVersion :: byte where "wrapVersion = 1"
definition schemeECDH :: byte where "schemeECDH = 1"
definition schemeArgon2 :: byte where "schemeArgon2 = 2"

definition nonceLen :: nat where "nonceLen = 12"
definition ecdhPubLen :: nat where "ecdhPubLen = 65"
definition saltLen :: nat where "saltLen = 16"
definition tagLen :: nat where "tagLen = 16"
definition ecdhHeaderLen :: nat where "ecdhHeaderLen = 2 + ecdhPubLen + nonceLen"
definition argonHeaderLen :: nat where "argonHeaderLen = 2 + saltLen + 4 + 4 + 1 + nonceLen"

definition maxArgonMemKiB :: "32 word" where "maxArgonMemKiB = 2 * 1024 * 1024"
definition maxArgonTime :: "32 word" where "maxArgonTime = 64"

record argon2Params =
  MemKiB :: "32 word"
  Time :: "32 word"
  Par :: "8 word"

definition DefaultArgon2 :: argon2Params where
  "DefaultArgon2 = \<lparr>MemKiB = 65536, Time = 3, Par = 4\<rparr>"

datatype wrap_error = ErrBadFormat | ErrUnsupportedScheme | ErrVersion | ErrUnwrap | ErrAgree string

text \<open>
  \<open>argon pass salt t mem par\<close> is \<open>argon2.IDKey\<close> with a 32-byte key; \<open>eph_pub\<close> the SEC1 point of an
  ephemeral private key and \<open>ecdh\<close> its agreement with a public point.
\<close>

record wrap_crypto =
  hkdf :: "bytes \<Rightarrow> bytes"
  gcm_seal :: "bytes \<Rightarrow> bytes \<Rightarrow> bytes \<Rightarrow> bytes \<Rightarrow> bytes"
  gcm_open :: "bytes \<Rightarrow> bytes \<Rightarrow> bytes \<Rightarrow> bytes \<Rightarrow> bytes option"
  argon :: "bytes \<Rightarrow> bytes \<Rightarrow> 32 word \<Rightarrow> 32 word \<Rightarrow> 8 word \<Rightarrow> bytes"
  eph_pub :: "bytes \<Rightarrow> bytes"
  ecdh :: "bytes \<Rightarrow> bytes \<Rightarrow> bytes option"

definition gcmOpen :: "wrap_crypto \<Rightarrow> bytes \<Rightarrow> bytes \<Rightarrow> bytes \<Rightarrow> bytes \<Rightarrow> wrap_error + bytes" where
  "gcmOpen wc key nonce ct aad = optE ErrUnwrap (gcm_open wc key nonce ct aad)"

definition SchemeOf :: "bytes \<Rightarrow> wrap_error + byte" where
  "SchemeOf blob =
     (if length blob < 2 then Inl ErrBadFormat
      else if blob ! 0 \<noteq> wrapVersion then Inl ErrVersion
      else if blob ! 1 = schemeECDH \<or> blob ! 1 = schemeArgon2 then Inr (blob ! 1)
      else Inl ErrUnsupportedScheme)"

definition ecdh_header :: "wrap_crypto \<Rightarrow> bytes \<Rightarrow> bytes \<Rightarrow> bytes" where
  "ecdh_header wc ephPriv nonce = [wrapVersion, schemeECDH] @ eph_pub wc ephPriv @ nonce"

definition wrapECDHWith :: "wrap_crypto \<Rightarrow> bytes \<Rightarrow> bytes \<Rightarrow> bytes \<Rightarrow> bytes \<Rightarrow> wrap_error + bytes" where
  "wrapECDHWith wc secret chipPub ephPriv nonce =
     bindE (optE (ErrAgree ''ecdh'') (ecdh wc ephPriv chipPub)) (\<lambda>shared.
       let aesKey = hkdf wc shared;
           header = ecdh_header wc ephPriv nonce
       in Inr (header @ gcm_seal wc aesKey nonce secret header))"

definition UnwrapECDH :: "wrap_crypto \<Rightarrow> bytes \<Rightarrow> (bytes \<Rightarrow> wrap_error + bytes) \<Rightarrow> wrap_error + bytes" where
  "UnwrapECDH wc blob agree =
     (if length blob < 2 then Inl ErrBadFormat
      else if blob ! 0 \<noteq> wrapVersion then Inl ErrVersion
      else if blob ! 1 \<noteq> schemeECDH then Inl ErrUnsupportedScheme
      else if length blob < ecdhHeaderLen + tagLen then Inl ErrBadFormat
      else let ephPub = take ecdhPubLen (drop 2 blob);
               nonce = take nonceLen (drop (2 + ecdhPubLen) blob);
               ct = drop ecdhHeaderLen blob;
               aad = take ecdhHeaderLen blob
        in bindE (agree ephPub) (\<lambda>shared.
             if length shared \<noteq> 32 then Inl ErrUnwrap
             else gcmOpen wc (hkdf wc shared) nonce ct aad))"

text \<open>\<open>binary.BigEndian\<close>\<close>

definition putUint32 :: "32 word \<Rightarrow> bytes" where
  "putUint32 v = [ucast (drop_bit 24 v), ucast (drop_bit 16 v), ucast (drop_bit 8 v), ucast v]"

definition getUint32 :: "bytes \<Rightarrow> 32 word" where
  "getUint32 b = ucast (b ! 3) OR push_bit 8 (ucast (b ! 2)) OR push_bit 16 (ucast (b ! 1))
     OR push_bit 24 (ucast (b ! 0))"

definition argon_header :: "bytes \<Rightarrow> bytes \<Rightarrow> argon2Params \<Rightarrow> bytes" where
  "argon_header salt nonce p =
     [wrapVersion, schemeArgon2] @ salt @ putUint32 (MemKiB p) @ putUint32 (Time p) @ [Par p] @ nonce"

definition assembleArgon2 :: "wrap_crypto \<Rightarrow> bytes \<Rightarrow> bytes \<Rightarrow> bytes \<Rightarrow> bytes \<Rightarrow> argon2Params \<Rightarrow> bytes" where
  "assembleArgon2 wc secret aesKey salt nonce p =
     (let header = argon_header salt nonce p in header @ gcm_seal wc aesKey nonce secret header)"

text \<open>\<open>salt\<close> and \<open>nonce\<close> are the random strings drawn.\<close>

definition WrapPassphrase :: "wrap_crypto \<Rightarrow> bytes \<Rightarrow> bytes \<Rightarrow> bytes \<Rightarrow> bytes \<Rightarrow> argon2Params \<Rightarrow> bytes" where
  "WrapPassphrase wc salt nonce secret passphrase p0 =
     (let p = (if p0 = \<lparr>MemKiB = 0, Time = 0, Par = 0\<rparr> then DefaultArgon2 else p0)
      in assembleArgon2 wc secret (argon wc passphrase salt (Time p) (MemKiB p) (Par p)) salt nonce p)"

definition argon_bounds :: "32 word \<Rightarrow> 32 word \<Rightarrow> 8 word \<Rightarrow> bool" where
  "argon_bounds mem t par \<longleftrightarrow>
     \<not> (mem = 0 \<or> mem > maxArgonMemKiB \<or> t = 0 \<or> t > maxArgonTime \<or> par = 0)"

definition UnwrapPassphrase :: "wrap_crypto \<Rightarrow> bytes \<Rightarrow> bytes \<Rightarrow> wrap_error + bytes" where
  "UnwrapPassphrase wc blob passphrase =
     (if length blob < 2 then Inl ErrBadFormat
      else if blob ! 0 \<noteq> wrapVersion then Inl ErrVersion
      else if blob ! 1 \<noteq> schemeArgon2 then Inl ErrUnsupportedScheme
      else if length blob < argonHeaderLen + tagLen then Inl ErrBadFormat
      else let salt = take saltLen (drop 2 blob);
               memKiB = getUint32 (drop 18 blob);
               t = getUint32 (drop 22 blob);
               par = blob ! 26;
               nonce = take (argonHeaderLen - 27) (drop 27 blob);
               ct = drop argonHeaderLen blob;
               aad = take argonHeaderLen blob
        in if \<not> argon_bounds memKiB t par then Inl ErrBadFormat
           else gcmOpen wc (argon wc passphrase salt t memKiB par) nonce ct aad)"

section \<open>Numbers in the header\<close>

lemma putUint32_length [simp]: "length (putUint32 v) = 4"
  by (simp add: putUint32_def)

lemma bytes4: "length b = 4 \<longleftrightarrow> (\<exists>w x y z. b = [w, x, y, z])"
  by (auto simp: numeral_eq_Suc length_Suc_conv)

lemma get_put [simp, codec_simps]: "getUint32 (putUint32 v @ rest) = v"
proof (rule bit_eqI)
  fix n
  assume "possible_bit TYPE(32 word) n"
  then have "n < 32" by simp
  then consider "n < 8" | "8 \<le> n" "n < 16" | "16 \<le> n" "n < 24" | "24 \<le> n" "n < 32" by linarith
  then show "bit (getUint32 (putUint32 v @ rest)) n = bit v n"
    by cases (auto simp: getUint32_def putUint32_def bit_simps)
qed

lemma byte_bit_high: "8 \<le> n \<Longrightarrow> \<not> bit (w :: byte) n"
  using bit_imp_le_length [of w n] by auto

lemma put_get_4: "putUint32 (getUint32 (w # x # y # z # rest)) = [w, x, y, z]"
  by (auto simp: getUint32_def putUint32_def bit_simps byte_bit_high intro!: bit_eqI)

lemma put_get [codec_simps]: "4 \<le> length b \<Longrightarrow> putUint32 (getUint32 b) = take 4 b"
  using bytes4 [of "take 4 b"] put_get_4 [of _ _ _ _ "drop 4 b"]
  by (metis append_Cons append_Nil append_take_drop_id length_take min.absorb2)

section \<open>What the readers and writers do\<close>

text \<open>
  What is used of the cryptography: AES-GCM opens what it sealed, adds 16 bytes, and accepts
  nothing but its own output for the given key, nonce and associated data (the tag is a
  function of them and of the ciphertext); an ephemeral point has 65 bytes.
\<close>

definition gcm_correct :: "wrap_crypto \<Rightarrow> bool" where
  "gcm_correct wc \<longleftrightarrow> (\<forall>k n m a. gcm_open wc k n (gcm_seal wc k n m a) a = Some m
     \<and> length (gcm_seal wc k n m a) = length m + 16)"

definition gcm_authentic :: "wrap_crypto \<Rightarrow> bool" where
  "gcm_authentic wc \<longleftrightarrow> (\<forall>k n c a m. gcm_open wc k n c a = Some m \<longrightarrow> c = gcm_seal wc k n m a)"

definition point_length :: "wrap_crypto \<Rightarrow> bool" where
  "point_length wc \<longleftrightarrow> (\<forall>e. length (eph_pub wc e) = 65)"

lemmas wrap_lens = nonceLen_def ecdhPubLen_def saltLen_def tagLen_def ecdhHeaderLen_def argonHeaderLen_def

lemma ecdh_header_length: "point_length wc \<Longrightarrow> length nonce = 12 \<Longrightarrow> length (ecdh_header wc e nonce) = 79"
  by (simp add: ecdh_header_def point_length_def)

lemma argon_header_length: "length salt = 16 \<Longrightarrow> length nonce = 12 \<Longrightarrow> length (argon_header salt nonce p) = 39"
  by (simp add: argon_header_def)

lemma unwrap_wrap_ecdh:
  assumes "gcm_correct wc" "point_length wc" "length nonce = 12"
    and "ecdh wc e P = Some z" "length z = 32" "agree (eph_pub wc e) = Inr z"
    and "wrapECDHWith wc secret P e nonce = Inr blob"
  shows "UnwrapECDH wc blob agree = Inr secret" "length blob = 95 + length secret"
    "SchemeOf blob = Inr schemeECDH"
proof -
  let ?h = "ecdh_header wc e nonce" and ?ct = "gcm_seal wc (hkdf wc z) nonce secret (ecdh_header wc e nonce)"
  have blob: "blob = ?h @ ?ct" using assms(4,7) by (simp add: wrapECDHWith_def Let_def)
  have h: "length ?h = 79" and e: "length (eph_pub wc e) = 65"
    using assms(2,3) by (simp_all add: ecdh_header_length point_length_def)
  have ct: "length ?ct = length secret + 16" using assms(1) by (simp add: gcm_correct_def)
  show "length blob = 95 + length secret" by (simp add: blob h ct)
  have split: "blob ! 0 = wrapVersion" "blob ! 1 = schemeECDH" "take 65 (drop 2 blob) = eph_pub wc e"
    "take 12 (drop 67 blob) = nonce" "drop 79 blob = ?ct" "take 79 blob = ?h"
    using h e assms(3) by (simp_all add: blob ecdh_header_def)
  show "UnwrapECDH wc blob agree = Inr secret"
    using assms(1,5,6) split h ct
    by (simp add: UnwrapECDH_def wrap_lens Let_def gcmOpen_def gcm_correct_def blob [symmetric])
      (simp add: blob h ct)
  show "SchemeOf blob = Inr schemeECDH"
    using split h by (simp add: SchemeOf_def) (simp add: blob)
qed

lemma argon_fields:
  assumes "length salt = 16" "length nonce = 12" "blob = argon_header salt nonce p @ ct"
  shows "blob ! 0 = wrapVersion" "blob ! 1 = schemeArgon2" "take 16 (drop 2 blob) = salt"
    "getUint32 (drop 18 blob) = MemKiB p" "getUint32 (drop 22 blob) = Time p" "blob ! 26 = Par p"
    "take 12 (drop 27 blob) = nonce" "drop 39 blob = ct" "take 39 blob = argon_header salt nonce p"
    "length blob = 39 + length ct"
  using assms(1,2) by (simp_all add: assms(3) argon_header_def nth_append)

lemma unwrap_assemble:
  assumes "gcm_correct wc" "length salt = 16" "length nonce = 12"
  shows "UnwrapPassphrase wc (assembleArgon2 wc secret (argon wc pass salt (Time p) (MemKiB p) (Par p)) salt nonce p) pass
    = (if argon_bounds (MemKiB p) (Time p) (Par p) then Inr secret else Inl ErrBadFormat)"
proof -
  define k where "k = argon wc pass salt (Time p) (MemKiB p) (Par p)"
  define blob where "blob = assembleArgon2 wc secret k salt nonce p"
  let ?ct = "gcm_seal wc k nonce secret (argon_header salt nonce p)"
  have b: "blob = argon_header salt nonce p @ ?ct" by (simp add: blob_def assembleArgon2_def Let_def)
  have ct: "length ?ct = length secret + 16" using assms(1) by (simp add: gcm_correct_def)
  note f = argon_fields [OF assms(2,3) b]
  have "UnwrapPassphrase wc blob pass
      = (if argon_bounds (MemKiB p) (Time p) (Par p) then Inr secret else Inl ErrBadFormat)"
    using assms(1) f ct
    by (simp add: UnwrapPassphrase_def wrap_lens Let_def gcmOpen_def k_def gcm_correct_def)
  then show ?thesis by (simp add: blob_def k_def)
qed

lemma default_bounds: "argon_bounds (MemKiB DefaultArgon2) (Time DefaultArgon2) (Par DefaultArgon2)"
  by (simp add: argon_bounds_def DefaultArgon2_def maxArgonMemKiB_def maxArgonTime_def)

lemma unwrap_wrap_passphrase:
  assumes "gcm_correct wc" "length salt = 16" "length nonce = 12"
  shows "UnwrapPassphrase wc (WrapPassphrase wc salt nonce secret pass p) pass =
    (if p = \<lparr>MemKiB = 0, Time = 0, Par = 0\<rparr> \<or> argon_bounds (MemKiB p) (Time p) (Par p)
     then Inr secret else Inl ErrBadFormat)"
  using unwrap_assemble [OF assms] default_bounds by (simp add: WrapPassphrase_def Let_def)

lemma unwrap_ecdh_Inr:
  "UnwrapECDH wc blob agree = Inr s \<longleftrightarrow>
     95 \<le> length blob \<and> blob ! 0 = wrapVersion \<and> blob ! 1 = schemeECDH \<and>
     (\<exists>z. agree (take 65 (drop 2 blob)) = Inr z \<and> length z = 32 \<and>
       gcm_open wc (hkdf wc z) (take 12 (drop 67 blob)) (drop 79 blob) (take 79 blob) = Some s)"
  by (auto simp: UnwrapECDH_def wrap_lens Let_def gcmOpen_def result_simps split: if_splits)

text \<open>A blob that opens is what the writer makes of the fields it carries.\<close>

lemma unwrap_ecdh_canonical:
  assumes "gcm_authentic wc" "UnwrapECDH wc blob agree = Inr s"
  shows "\<exists>pt nonce z. length pt = 65 \<and> length nonce = 12 \<and> agree pt = Inr z \<and>
    blob = [wrapVersion, schemeECDH] @ pt @ nonce
      @ gcm_seal wc (hkdf wc z) nonce s ([wrapVersion, schemeECDH] @ pt @ nonce)"
proof -
  let ?pt = "take 65 (drop 2 blob)" and ?n = "take 12 (drop 67 blob)"
  from assms(2) obtain z where z: "95 \<le> length blob" "blob ! 0 = wrapVersion" "blob ! 1 = schemeECDH"
    "agree ?pt = Inr z" "gcm_open wc (hkdf wc z) ?n (drop 79 blob) (take 79 blob) = Some s"
    by (auto simp: unwrap_ecdh_Inr)
  have "take 2 blob = [blob ! 0, blob ! 1]"
    using z(1) by (simp add: list_eq_iff_nth_eq less_Suc_eq numeral_eq_Suc)
  moreover have "take 79 blob = take 2 blob @ ?pt @ ?n"
    using take_add [of 2 65 blob] take_add [of 67 12 blob] by simp
  ultimately have h: "take 79 blob = [wrapVersion, schemeECDH] @ ?pt @ ?n" using z by simp
  have "drop 79 blob = gcm_seal wc (hkdf wc z) ?n s (take 79 blob)"
    using assms(1) z(5) by (simp add: gcm_authentic_def)
  then have "blob = [wrapVersion, schemeECDH] @ ?pt @ ?n
      @ gcm_seal wc (hkdf wc z) ?n s ([wrapVersion, schemeECDH] @ ?pt @ ?n)"
    using append_take_drop_id [of 79 blob] by (simp only: h append_assoc)
  moreover have "length ?pt = 65" "length ?n = 12" using z(1) by simp_all
  ultimately show ?thesis using z(4) by blast
qed

text \<open>Each reader refuses the other scheme.\<close>

lemma scheme_separation:
  "SchemeOf blob = Inr schemeECDH \<Longrightarrow> UnwrapPassphrase wc blob pass = Inl ErrUnsupportedScheme"
  "SchemeOf blob = Inr schemeArgon2 \<Longrightarrow> UnwrapECDH wc blob agree = Inl ErrUnsupportedScheme"
  by (auto simp: SchemeOf_def UnwrapPassphrase_def UnwrapECDH_def schemeECDH_def schemeArgon2_def split: if_splits)

lemma unwrap_passphrase_bounds:
  "UnwrapPassphrase wc blob pass = Inr s \<Longrightarrow>
   argon_bounds (getUint32 (drop 18 blob)) (getUint32 (drop 22 blob)) (blob ! 26)"
  by (auto simp: UnwrapPassphrase_def Let_def split: if_splits)

lemma unwrap_passphrase_no_argon:
  assumes "\<not> argon_bounds (getUint32 (drop 18 blob)) (getUint32 (drop 22 blob)) (blob ! 26)"
  shows "UnwrapPassphrase (wc\<lparr>argon := f\<rparr>) blob pass = UnwrapPassphrase (wc\<lparr>argon := g\<rparr>) blob pass"
  using assms by (simp add: UnwrapPassphrase_def Let_def)

section \<open>Properties\<close>

text \<open>A secret wrapped to a chip's key is recovered by the chip that agrees on the same shared point, and
  the blob is 95 bytes longer than the secret.\<close>

lemma wrap_ecdh_round_trip:
  assumes "gcm_correct wc" "point_length wc" "length nonce = 12"
    and "ecdh wc e P = Some z" "length z = 32" "agree (eph_pub wc e) = Inr z"
  shows "\<exists>blob. wrapECDHWith wc secret P e nonce = Inr blob \<and> length blob = 95 + length secret \<and>
    SchemeOf blob = Inr schemeECDH \<and> UnwrapECDH wc blob agree = Inr secret"
proof -
  obtain blob where b: "wrapECDHWith wc secret P e nonce = Inr blob"
    using assms(4) by (simp add: wrapECDHWith_def Let_def)
  show ?thesis
    using unwrap_wrap_ecdh [where agree = agree, OF assms b] b by blast
qed

definition example_crypto :: wrap_crypto where
  "example_crypto = \<lparr>hkdf = (\<lambda>z. z), gcm_seal = (\<lambda>k n m a. m @ replicate 16 7),
     gcm_open = (\<lambda>k n c a. if 16 \<le> length c \<and> drop (length c - 16) c = replicate 16 7 then Some (take (length c - 16) c) else None),
     argon = (\<lambda>p s t m q. replicate 32 1), eph_pub = (\<lambda>e. replicate 65 4), ecdh = (\<lambda>e p. Some (replicate 32 9))\<rparr>"

lemma example_crypto_laws: "gcm_correct example_crypto" "gcm_authentic example_crypto" "point_length example_crypto"
  by (auto simp: gcm_correct_def gcm_authentic_def point_length_def example_crypto_def split: if_splits)
    (metis append_take_drop_id)

lemma wrap_ecdh_round_trip_instance:
  "\<exists>blob. wrapECDHWith example_crypto [1, 2, 3] [] [] (replicate 12 6) = Inr blob \<and> length blob = 95 + length [1, 2, 3 :: byte] \<and>
    SchemeOf blob = Inr schemeECDH \<and> UnwrapECDH example_crypto blob (\<lambda>_. Inr (replicate 32 9)) = Inr [1, 2, 3]"
  by (rule wrap_ecdh_round_trip [where z = "replicate 32 9"]) (simp_all add: example_crypto_laws, simp_all add: example_crypto_def)

text \<open>A secret wrapped under a passphrase is recovered with it exactly when the Argon2id parameters are the
  default ones (for zero parameters) or within the reader's bounds; with others the writer
  succeeds and produces a blob its own reader refuses as malformed.\<close>

lemma wrap_passphrase_round_trip:
  assumes "gcm_correct wc" "length salt = 16" "length nonce = 12"
  shows "UnwrapPassphrase wc (WrapPassphrase wc salt nonce secret pass p) pass =
    (if p = \<lparr>MemKiB = 0, Time = 0, Par = 0\<rparr> \<or> argon_bounds (MemKiB p) (Time p) (Par p)
     then Inr secret else Inl ErrBadFormat)"
  using assms by (rule unwrap_wrap_passphrase)

lemma wrap_passphrase_round_trip_instance:
  "UnwrapPassphrase example_crypto
     (WrapPassphrase example_crypto (replicate 16 3) (replicate 12 4) [1, 2] [5] \<lparr>MemKiB = 8, Time = 65, Par = 1\<rparr>) [5]
   = Inl ErrBadFormat"
  using wrap_passphrase_round_trip [of example_crypto "replicate 16 3" "replicate 12 4" "[1, 2]" "[5]" "\<lparr>MemKiB = 8, Time = 65, Par = 1\<rparr>"]
  by (simp add: example_crypto_laws argon_bounds_def maxArgonTime_def)

text \<open>Whatever \<open>UnwrapECDH\<close> opens is byte for byte a blob the writer's format produces: the version, the scheme, a
  65-byte point, a nonce, and the sealing of the secret under all of them, so no byte of a
  blob can change without its being refused or being another secret's blob.\<close>

lemma unwrap_only_written:
  assumes "gcm_authentic wc" "UnwrapECDH wc blob agree = Inr s"
  shows "\<exists>pt nonce z. length pt = 65 \<and> length nonce = 12 \<and> agree pt = Inr z \<and>
    blob = [wrapVersion, schemeECDH] @ pt @ nonce
      @ gcm_seal wc (hkdf wc z) nonce s ([wrapVersion, schemeECDH] @ pt @ nonce)"
  using assms by (rule unwrap_ecdh_canonical)

lemma unwrap_only_written_instance:
  "\<exists>pt nonce z. length pt = 65 \<and> length nonce = 12 \<and> (\<lambda>_. Inr (replicate 32 9) :: wrap_error + bytes) pt = Inr z \<and>
    [1, 1] @ replicate 65 4 @ replicate 12 6 @ [2] @ replicate 16 7 = [wrapVersion, schemeECDH] @ pt @ nonce
      @ gcm_seal example_crypto (hkdf example_crypto z) nonce [2] ([wrapVersion, schemeECDH] @ pt @ nonce)"
  by (rule unwrap_only_written)
    (simp_all add: example_crypto_laws, simp add: UnwrapECDH_def wrap_lens wrapVersion_def schemeECDH_def example_crypto_def gcmOpen_def)

end
