(* ===== verification/GoTime.thy ===== *)
theory GoTime
  imports Prelude
begin

text \<open>
  Go's \<open>time.Time\<close> as the components use it: nanoseconds since the start of year 1, the
  zero \<open>Time\<close>. \<open>time.Unix\<close> adds the offset of 1970 to the seconds in 64 bits, so it wraps for
  seconds near the end of the range; \<open>Sub\<close> saturates at the ends of \<open>Duration\<close>.
  \<open>t.After(u)\<close> is \<open>t > u\<close> and \<open>t.Add(d)\<close> is \<open>t + d\<close>.
\<close>

definition second :: int where "second = 1000000000"
definition minute :: int where "minute = 60 * second"

definition unixToInternal :: int where "unixToInternal = 62135596800"

definition timeUnix :: "int \<Rightarrow> int" where
  "timeUnix s = i64 (s + unixToInternal) * second"

definition unixOf :: "int \<Rightarrow> int" where
  "unixOf t = i64 (t div second - unixToInternal)"

definition timeSub :: "int \<Rightarrow> int \<Rightarrow> int" where
  "timeSub t u = max (- (2 ^ 63)) (min (2 ^ 63 - 1) (t - u))"

lemma timeSub_less: "- (2 ^ 63) < d \<Longrightarrow> d \<le> 2 ^ 63 - 1 \<Longrightarrow> timeSub t u < d \<longleftrightarrow> t - u < d"
  by (auto simp: timeSub_def)

lemma timeSub_le: "- (2 ^ 63) \<le> d \<Longrightarrow> d < 2 ^ 63 - 1 \<Longrightarrow> timeSub t u \<le> d \<longleftrightarrow> t - u \<le> d"
  by (auto simp: timeSub_def)

lemma timeSub_ge: "- (2 ^ 63) < d \<Longrightarrow> d \<le> 2 ^ 63 - 1 \<Longrightarrow> d \<le> timeSub t u \<longleftrightarrow> d \<le> t - u"
  by (auto simp: timeSub_def)

lemma timeUnix_normal:
  "is_i64 (s + unixToInternal) \<Longrightarrow> timeUnix s = (s + unixToInternal) * second"
  by (simp add: timeUnix_def i64_id)

lemma unixOf_timeUnix: "is_i64 s \<Longrightarrow> unixOf (timeUnix s) = s"
proof -
  assume s: "is_i64 s"
  have "i64 (i64 (s + unixToInternal) - unixToInternal) = i64 s"
    by (simp add: i64_def mod_simps algebra_simps)
  then show ?thesis using s by (simp add: unixOf_def timeUnix_def second_def i64_id)
qed

end
