(* ===== verification/Policy.thy ===== *)
theory Policy
  imports Base64 GoTime GoStrings
begin

text \<open>
  Signed policy (\<open>policy.go\<close>, \<open>account_policy.go\<close>): the signed payloads, their verification against
  a pinned root and the last accepted state, the freshness statements, and the state that is
  kept. OpenSSH keys and signatures, SHA-256 and JSON are parameters.
\<close>

section \<open>Payloads\<close>

definition ctxDelegation :: string where "ctxDelegation = ''p3sig-delegation-v1'' @ [nl]"
definition ctxRevocations :: string where "ctxRevocations = ''p3sig-revocations-v1'' @ [nl]"
definition ctxPolicy :: string where "ctxPolicy = ''p3sig-policy-v1'' @ [nl]"
definition ctxAccountPolicy :: string where "ctxAccountPolicy = ''p3sig-account-policy-v1'' @ [nl]"
definition ctxFreshness :: string where "ctxFreshness = ''p3sig-freshness-v1'' @ [nl]"
definition ctxFreshnessDelegation :: string where "ctxFreshnessDelegation = ''p3sig-freshness-delegation-v1'' @ [nl]"
definition formatAccount :: string where "formatAccount = ''account''"
definition maxFreshnessWindow :: int where "maxFreshnessWindow = 7 * 24 * 60 * minute"
definition maxFreshnessClockSkew :: int where "maxFreshnessClockSkew = 5 * minute"

record delegation =
  dl_Account :: string
  dl_DeviceKey :: string
  dl_Label :: string
  dl_Issued :: int
  dl_Expires :: int

record revocations =
  rv_Account :: string
  rv_Version :: int
  rv_Revoked :: "string list"

record policy_grant =
  g_Principal :: string
  g_LoginUser :: string

record policy =
  p_Account :: string
  p_Version :: int
  p_Issued :: int
  p_KRLExpires :: int
  p_CAKeys :: "string list"
  p_Grants :: "policy_grant list"
  p_KRLSpec :: string

record machine_policy =
  m_CAKeys :: "string list"
  m_Grants :: "policy_grant list"

record account_policy =
  ap_Account :: string
  ap_Group :: string
  ap_Version :: int
  ap_Issued :: int
  ap_Expires :: int
  ap_KRLSpec :: string
  ap_Machines :: "string \<rightharpoonup> machine_policy"

record freshness_delegation =
  fd_Account :: string
  fd_Key :: string
  fd_Label :: string
  fd_Issued :: int
  fd_Expires :: int

record freshness =
  fr_Account :: string
  fr_Group :: string
  fr_PolicyHash :: string
  fr_Version :: int
  fr_Issued :: int
  fr_Expires :: int

record signedBlob =
  sb_Payload :: string
  sb_Sig :: string

record signedPolicy =
  sp_RootKey :: string
  sp_Chain :: "signedBlob list"
  sp_Revocations :: "signedBlob option"
  sp_Policy :: signedBlob
  sp_Signer :: string
  sp_AccountPolicy :: "signedBlob option"
  sp_Freshness :: "signedBlob option"
  sp_FreshnessSigner :: string
  sp_FreshnessChain :: "signedBlob list"

record policyState =
  st_RootFP :: string
  st_Version :: int
  st_RevocationsVersion :: int
  st_KRLExpires :: int
  st_Format :: string

section \<open>Keys, signatures and JSON\<close>

text \<open>
  \<open>parse_key\<close> is \<open>ssh.ParseAuthorizedKey\<close>, \<open>fp\<close> \<open>ssh.FingerprintSHA256\<close>; \<open>sig_parse\<close> is \<open>ssh.Unmarshal\<close> of a
  signature, \<open>verify\<close> the key's \<open>Verify\<close>. The decoders \<open>dec_*\<close> are the strict ones of \<open>openSignedBlob\<close>
  (no unknown fields, text after the value ignored), \<open>lax_revocations\<close> is \<open>json.Unmarshal\<close>.
\<close>

record ('k, 's) policy_env =
  parse_key :: "string \<Rightarrow> 'k option"
  fp :: "'k \<Rightarrow> string"
  sig_parse :: "bytes \<Rightarrow> 's option"
  verify :: "'k \<Rightarrow> bytes \<Rightarrow> 's \<Rightarrow> bool"
  pe_sha :: "bytes \<Rightarrow> bytes"
  dec_delegation :: "bytes \<Rightarrow> delegation option"
  dec_revocations :: "bytes \<Rightarrow> revocations option"
  lax_revocations :: "bytes \<Rightarrow> revocations option"
  dec_policy :: "bytes \<Rightarrow> policy option"
  dec_account_policy :: "bytes \<Rightarrow> account_policy option"
  dec_freshness_delegation :: "bytes \<Rightarrow> freshness_delegation option"
  dec_freshness :: "bytes \<Rightarrow> freshness option"

datatype blob_error = PayloadEncoding | SignatureEncoding | SignatureFormat | BadSignature | BadPayload

datatype policy_error = NoRootPinned | RootKeyBad | RootMismatch | RevocationsBad blob_error | RevocationsReplay
  | RevocationsStripped | SignerKeyBad | SignerRevoked | DelegationBad nat blob_error | NoLiveDelegation
  | PolicyBad blob_error | NotDelegatedForAccount | PolicyReplay | CAKeyBad | StaleKRL | StaleKRLFreshness policy_error
  | NoMachineEntry | FormatDowngrade | FreshnessKeyBad | FreshnessRevoked | FreshnessDelegationBad nat blob_error
  | FreshnessNotDelegated | FreshnessBad blob_error | HashEncoding | FreshnessOther | FreshnessFuture | FreshnessExpired

definition openSignedBlob ::
  "('k, 's) policy_env \<Rightarrow> 'k \<Rightarrow> string \<Rightarrow> (bytes \<Rightarrow> 'v option) \<Rightarrow> signedBlob \<Rightarrow> blob_error + 'v" where
  "openSignedBlob env pub ctx dec b =
     bindE (optE PayloadEncoding (b64_decode (sb_Payload b))) (\<lambda>payload.
     bindE (optE SignatureEncoding (b64_decode (sb_Sig b))) (\<lambda>rawSig.
     bindE (optE SignatureFormat (sig_parse env rawSig)) (\<lambda>sig.
     bindE (requireE (verify env pub (bytes_of ctx @ payload) sig) BadSignature) (\<lambda>_.
     optE BadPayload (dec payload)))))"

text \<open>A signer: its public key, and \<open>ssh.Marshal\<close> of its signature on a message, or an error.\<close>

record 'k signer =
  sg_pub :: 'k
  sg_sign :: "bytes \<Rightarrow> bytes option"

definition signBlob :: "'k signer \<Rightarrow> string \<Rightarrow> ('v \<Rightarrow> bytes) \<Rightarrow> 'v \<Rightarrow> signedBlob option" where
  "signBlob s ctx enc v =
     (let payload = enc v
      in case sg_sign s (bytes_of ctx @ payload) of
           None \<Rightarrow> None
         | Some sig \<Rightarrow> Some \<lparr>sb_Payload = b64_encode payload, sb_Sig = b64_encode sig\<rparr>)"

section \<open>Verification\<close>

text \<open>The set of revoked fingerprints and the set of accounts are lists; only membership and emptiness are used.\<close>

definition verifyRootAndRevocations ::
  "('k, 's) policy_env \<Rightarrow> signedPolicy \<Rightarrow> string \<Rightarrow> policyState \<Rightarrow> policy_error + ('k \<times> string list)" where
  "verifyRootAndRevocations env sp rootFP st =
     (if rootFP = [] then Inl NoRootPinned
      else bindE (optE RootKeyBad (parse_key env (sp_RootKey sp))) (\<lambda>root.
        if fp env root \<noteq> rootFP then Inl RootMismatch
        else case sp_Revocations sp of
          Some b \<Rightarrow>
            bindE (wrapE RevocationsBad (openSignedBlob env root ctxRevocations (dec_revocations env) b)) (\<lambda>r.
              if rv_Version r < st_RevocationsVersion st then Inl RevocationsReplay
              else Inr (root, rv_Revoked r))
        | None \<Rightarrow> if st_RevocationsVersion st > 0 then Inl RevocationsStripped else Inr (root, [])))"

fun live_loop ::
  "('k, 's) policy_env \<Rightarrow> 'k \<Rightarrow> string \<Rightarrow> int \<Rightarrow> nat \<Rightarrow> signedBlob list \<Rightarrow> string list \<Rightarrow> policy_error + string list" where
  "live_loop env root signerFP now i [] accounts = Inr accounts"
| "live_loop env root signerFP now i (b # bs) accounts =
     bindE (wrapE (DelegationBad i) (openSignedBlob env root ctxDelegation (dec_delegation env) b)) (\<lambda>d.
       let next = live_loop env root signerFP now (i + 1) bs
       in case parse_key env (dl_DeviceKey d) of
            None \<Rightarrow> next accounts
          | Some dk \<Rightarrow>
              if fp env dk \<noteq> signerFP then next accounts
              else if dl_Expires d \<noteq> 0 \<and> unixOf now \<ge> dl_Expires d then next accounts
              else next (dl_Account d # accounts))"

definition liveDelegations ::
  "('k, 's) policy_env \<Rightarrow> 'k \<Rightarrow> signedBlob list \<Rightarrow> string \<Rightarrow> int \<Rightarrow> policy_error + string list" where
  "liveDelegations env root chain signerFP now =
     bindE (live_loop env root signerFP now 0 chain []) (\<lambda>accounts.
       if accounts = [] then Inl NoLiveDelegation else Inr accounts)"

text \<open>The loop over the CA keys.\<close>

definition check_ca_keys :: "('k, 's) policy_env \<Rightarrow> string list \<Rightarrow> policy_error + unit" where
  "check_ca_keys env ks = foldE (\<lambda>_ k. requireE (parse_key env k \<noteq> None) CAKeyBad) () ks"

text \<open>
  The code returns the policy beside \<open>errStaleKRL\<close>; no caller uses it when there is an error, so
  the model returns the error alone.
\<close>

definition verifySignedPolicy ::
  "('k, 's) policy_env \<Rightarrow> signedPolicy \<Rightarrow> string \<Rightarrow> policyState \<Rightarrow> int \<Rightarrow> policy_error + policy" where
  "verifySignedPolicy env sp rootFP st now =
     bindE (verifyRootAndRevocations env sp rootFP st) (\<lambda>(root, revoked).
     bindE (optE SignerKeyBad (parse_key env (sp_Signer sp))) (\<lambda>signer.
     let signerFP = fp env signer in
     bindE (requireE (signerFP \<notin> set revoked) SignerRevoked) (\<lambda>_.
     bindE (liveDelegations env root (sp_Chain sp) signerFP now) (\<lambda>accounts.
     bindE (wrapE PolicyBad (openSignedBlob env signer ctxPolicy (dec_policy env) (sp_Policy sp))) (\<lambda>p.
     bindE (requireE (p_Account p \<in> set accounts) NotDelegatedForAccount) (\<lambda>_.
     bindE (requireE (\<not> p_Version p < st_Version st) PolicyReplay) (\<lambda>_.
     bindE (requireE (\<not> (p_KRLExpires p = 0 \<or> unixOf now \<ge> p_KRLExpires p)) StaleKRL) (\<lambda>_.
     bindE (check_ca_keys env (p_CAKeys p)) (\<lambda>_. Inr p)))))))))"

definition accountPolicyHash :: "('k, 's) policy_env \<Rightarrow> signedBlob \<Rightarrow> policy_error + string" where
  "accountPolicyHash env b =
     bindE (optE HashEncoding (b64_decode (sb_Payload b))) (\<lambda>payload.
       Inr (''sha256:'' @ hex_encode (pe_sha env (bytes_of ctxAccountPolicy @ payload))))"

fun fresh_loop ::
  "('k, 's) policy_env \<Rightarrow> 'k \<Rightarrow> string \<Rightarrow> string \<Rightarrow> int \<Rightarrow> nat \<Rightarrow> signedBlob list \<Rightarrow> bool \<Rightarrow> policy_error + bool" where
  "fresh_loop env root kfp account now i [] delegated = Inr delegated"
| "fresh_loop env root kfp account now i (b # bs) delegated =
     bindE (wrapE (FreshnessDelegationBad i)
         (openSignedBlob env root ctxFreshnessDelegation (dec_freshness_delegation env) b)) (\<lambda>d.
       let next = fresh_loop env root kfp account now (i + 1) bs
       in case parse_key env (fd_Key d) of
            None \<Rightarrow> next delegated
          | Some k \<Rightarrow>
              if fp env k \<noteq> kfp \<or> fd_Account d \<noteq> account then next delegated
              else if fd_Expires d \<noteq> 0 \<and> unixOf now \<ge> fd_Expires d then next delegated
              else next True)"

definition verifyFreshness ::
  "('k, 's) policy_env \<Rightarrow> signedPolicy \<Rightarrow> signedBlob \<Rightarrow> signedBlob \<Rightarrow> 'k \<Rightarrow> string list \<Rightarrow> account_policy \<Rightarrow> int
    \<Rightarrow> policy_error + int" where
  "verifyFreshness env sp apBlob frBlob root revoked ap now =
     bindE (optE FreshnessKeyBad (parse_key env (sp_FreshnessSigner sp))) (\<lambda>key.
     let kfp = fp env key in
     bindE (requireE (kfp \<notin> set revoked) FreshnessRevoked) (\<lambda>_.
     bindE (fresh_loop env root kfp (ap_Account ap) now 0 (sp_FreshnessChain sp) False) (\<lambda>delegated.
     bindE (requireE delegated FreshnessNotDelegated) (\<lambda>_.
     bindE (wrapE FreshnessBad (openSignedBlob env key ctxFreshness (dec_freshness env) frBlob)) (\<lambda>f.
     bindE (accountPolicyHash env apBlob) (\<lambda>want.
     if fr_PolicyHash f \<noteq> want \<or> fr_Account f \<noteq> ap_Account ap \<or> fr_Group f \<noteq> ap_Group ap
        \<or> fr_Version f \<noteq> ap_Version ap then Inl FreshnessOther
     else if fr_Issued f > unixOf (now + maxFreshnessClockSkew) then Inl FreshnessFuture
     else let cap = i64 (fr_Issued f + maxFreshnessWindow div second);
              exp = (if fr_Expires f > cap then cap else fr_Expires f)
       in if unixOf now \<ge> exp then Inl FreshnessExpired else Inr exp))))))"

definition verifyAccountPolicy ::
  "('k, 's) policy_env \<Rightarrow> signedPolicy \<Rightarrow> signedBlob \<Rightarrow> string \<Rightarrow> string \<Rightarrow> policyState \<Rightarrow> int \<Rightarrow> policy_error + policy" where
  "verifyAccountPolicy env sp apBlob rootFP machine st now =
     bindE (verifyRootAndRevocations env sp rootFP st) (\<lambda>(root, revoked).
     bindE (optE SignerKeyBad (parse_key env (sp_Signer sp))) (\<lambda>signer.
     let signerFP = fp env signer in
     bindE (requireE (signerFP \<notin> set revoked) SignerRevoked) (\<lambda>_.
     bindE (liveDelegations env root (sp_Chain sp) signerFP now) (\<lambda>accounts.
     bindE (wrapE PolicyBad (openSignedBlob env signer ctxAccountPolicy (dec_account_policy env) apBlob)) (\<lambda>ap.
     bindE (requireE (ap_Account ap \<in> set accounts) NotDelegatedForAccount) (\<lambda>_.
     bindE (requireE (\<not> ap_Version ap < st_Version st) PolicyReplay) (\<lambda>_.
     bindE (optE NoMachineEntry (ap_Machines ap machine)) (\<lambda>mine.
     bindE (check_ca_keys env (m_CAKeys mine)) (\<lambda>_.
     let p = \<lparr>p_Account = ap_Account ap, p_Version = ap_Version ap, p_Issued = ap_Issued ap, p_KRLExpires = ap_Expires ap,
              p_CAKeys = m_CAKeys mine, p_Grants = m_Grants mine, p_KRLSpec = ap_KRLSpec ap\<rparr>;
         (p, why) = (case sp_Freshness sp of
            None \<Rightarrow> (p, None)
          | Some frBlob \<Rightarrow> (case verifyFreshness env sp apBlob frBlob root revoked ap now of
                Inl e \<Rightarrow> (p, Some e)
              | Inr exp \<Rightarrow> (if exp > p_KRLExpires p then p\<lparr>p_KRLExpires := exp\<rparr> else p, None)))
     in if p_KRLExpires p = 0 \<or> unixOf now \<ge> p_KRLExpires p
        then (case why of Some e \<Rightarrow> Inl (StaleKRLFreshness e) | None \<Rightarrow> Inl StaleKRL)
        else Inr p)))))))))"

text \<open>The account policy of a response, when there is one.\<close>

definition account_blob :: "signedPolicy \<Rightarrow> signedBlob option" where
  "account_blob sp =
     (case sp_AccountPolicy sp of None \<Rightarrow> None | Some b \<Rightarrow> if sb_Payload b \<noteq> [] then Some b else None)"

definition verifyPolicyAny ::
  "('k, 's) policy_env \<Rightarrow> signedPolicy \<Rightarrow> string \<Rightarrow> string \<Rightarrow> policyState \<Rightarrow> int \<Rightarrow> policy_error + policy" where
  "verifyPolicyAny env sp rootFP machine st now =
     (case account_blob sp of
        Some b \<Rightarrow> verifyAccountPolicy env sp b rootFP machine st now
      | None \<Rightarrow>
          if st_Format st = formatAccount then Inl FormatDowngrade
          else verifySignedPolicy env sp rootFP st now)"

definition nextState :: "('k, 's) policy_env \<Rightarrow> signedPolicy \<Rightarrow> string \<Rightarrow> policy \<Rightarrow> policyState \<Rightarrow> policyState" where
  "nextState env sp rootFP p prev =
     (let st = \<lparr>st_RootFP = rootFP, st_Version = p_Version p, st_RevocationsVersion = st_RevocationsVersion prev,
                st_KRLExpires = p_KRLExpires p, st_Format = st_Format prev\<rparr>;
          st = (if account_blob sp \<noteq> None then st\<lparr>st_Format := formatAccount\<rparr> else st)
      in case sp_Revocations sp of
           None \<Rightarrow> st
         | Some b \<Rightarrow> (case b64_decode (sb_Payload b) of
               None \<Rightarrow> st
             | Some payload \<Rightarrow> (case lax_revocations env payload of
                   None \<Rightarrow> st
                 | Some r \<Rightarrow> st\<lparr>st_RevocationsVersion := rv_Version r\<rparr>)))"

section \<open>What the loops collect\<close>

text \<open>The root, through the blob \<open>b\<close>, lets the key with fingerprint \<open>signerFP\<close> sign for the account \<open>a\<close>.\<close>

definition delegates :: "('k, 's) policy_env \<Rightarrow> 'k \<Rightarrow> string \<Rightarrow> int \<Rightarrow> signedBlob \<Rightarrow> string \<Rightarrow> bool" where
  "delegates env root signerFP now b a \<longleftrightarrow>
     (case openSignedBlob env root ctxDelegation (dec_delegation env) b of
        Inl _ \<Rightarrow> False
      | Inr d \<Rightarrow> (case parse_key env (dl_DeviceKey d) of
            None \<Rightarrow> False
          | Some dk \<Rightarrow> fp env dk = signerFP \<and> (dl_Expires d = 0 \<or> unixOf now < dl_Expires d) \<and> dl_Account d = a))"

definition opens :: "('k, 's) policy_env \<Rightarrow> 'k \<Rightarrow> string \<Rightarrow> (bytes \<Rightarrow> 'v option) \<Rightarrow> signedBlob \<Rightarrow> bool" where
  "opens env k ctx dec b \<longleftrightarrow> (case openSignedBlob env k ctx dec b of Inl _ \<Rightarrow> False | Inr _ \<Rightarrow> True)"

lemma live_loop_Inr:
  "live_loop env root sfp now i bs acc = Inr res \<Longrightarrow>
     set res = set acc \<union> {a. \<exists>b \<in> set bs. delegates env root sfp now b a} \<and>
     (\<forall>b \<in> set bs. opens env root ctxDelegation (dec_delegation env) b)"
proof (induction bs arbitrary: i acc)
  case (Cons b bs)
  from Cons.prems obtain d where d: "openSignedBlob env root ctxDelegation (dec_delegation env) b = Inr d"
    by (auto simp: result_simps)
  with Cons.prems obtain acc' where acc': "live_loop env root sfp now (i + 1) bs acc' = Inr res"
    "set acc' = set acc \<union> {a. delegates env root sfp now b a}"
    by (fastforce simp: delegates_def Let_def split: option.splits if_splits)
  with Cons.IH [OF acc'(1)] d show ?case
    by (auto simp: opens_def)
qed simp

lemma live_loop_ok:
  "\<forall>b \<in> set bs. opens env root ctxDelegation (dec_delegation env) b \<Longrightarrow> \<exists>res. live_loop env root sfp now i bs acc = Inr res"
proof (induction bs arbitrary: i acc)
  case (Cons b bs)
  then obtain d where d: "openSignedBlob env root ctxDelegation (dec_delegation env) b = Inr d"
    by (auto simp: opens_def split: sum.splits)
  from Cons.IH Cons.prems have "\<exists>res. live_loop env root sfp now (i + 1) bs acc' = Inr res" for acc' by simp
  then show ?case
    by (simp add: d Let_def split: option.split)
qed simp

lemma liveDelegations_Inr:
  "(\<exists>accounts. liveDelegations env root chain sfp now = Inr accounts \<and> a \<in> set accounts) \<longleftrightarrow>
     (\<forall>b \<in> set chain. opens env root ctxDelegation (dec_delegation env) b) \<and>
     (\<exists>b \<in> set chain. delegates env root sfp now b a)"
proof
  assume "\<exists>accounts. liveDelegations env root chain sfp now = Inr accounts \<and> a \<in> set accounts"
  then obtain accounts where "live_loop env root sfp now 0 chain [] = Inr accounts" "a \<in> set accounts"
    by (auto simp: liveDelegations_def result_simps split: if_splits)
  with live_loop_Inr [of env root sfp now 0 chain "[]" accounts]
  show "(\<forall>b \<in> set chain. opens env root ctxDelegation (dec_delegation env) b) \<and>
     (\<exists>b \<in> set chain. delegates env root sfp now b a)" by auto
next
  assume h: "(\<forall>b \<in> set chain. opens env root ctxDelegation (dec_delegation env) b) \<and>
     (\<exists>b \<in> set chain. delegates env root sfp now b a)"
  with live_loop_ok [of chain env root sfp now 0 "[]"] obtain res where
    res: "live_loop env root sfp now 0 chain [] = Inr res" by blast
  with live_loop_Inr [OF res] h have "a \<in> set res" by auto
  with res show "\<exists>accounts. liveDelegations env root chain sfp now = Inr accounts \<and> a \<in> set accounts"
    by (auto simp: liveDelegations_def)
qed

definition vouches :: "('k, 's) policy_env \<Rightarrow> 'k \<Rightarrow> string \<Rightarrow> string \<Rightarrow> int \<Rightarrow> signedBlob \<Rightarrow> bool" where
  "vouches env root kfp account now b \<longleftrightarrow>
     (case openSignedBlob env root ctxFreshnessDelegation (dec_freshness_delegation env) b of
        Inl _ \<Rightarrow> False
      | Inr d \<Rightarrow> (case parse_key env (fd_Key d) of
            None \<Rightarrow> False
          | Some k \<Rightarrow> fp env k = kfp \<and> fd_Account d = account \<and> (fd_Expires d = 0 \<or> unixOf now < fd_Expires d)))"

lemma fresh_loop_Inr:
  "fresh_loop env root kfp account now i bs acc = Inr res \<Longrightarrow>
     res = (acc \<or> (\<exists>b \<in> set bs. vouches env root kfp account now b))"
proof (induction bs arbitrary: i acc)
  case (Cons b bs)
  from Cons.prems obtain d where d: "openSignedBlob env root ctxFreshnessDelegation (dec_freshness_delegation env) b = Inr d"
    by (auto simp: result_simps)
  with Cons.prems have "fresh_loop env root kfp account now (i + 1) bs (acc \<or> vouches env root kfp account now b) = Inr res"
    by (auto simp: vouches_def Let_def split: option.splits if_splits)
  from Cons.IH [OF this] show ?case by auto
qed simp

lemma check_ca_keys_Inr: "check_ca_keys env ks = Inr u \<longleftrightarrow> (\<forall>k \<in> set ks. parse_key env k \<noteq> None)"
proof -
  have "foldE (\<lambda>_ k. requireE (parse_key env k \<noteq> None) CAKeyBad) () ks = Inr () \<longleftrightarrow> (\<forall>k \<in> set ks. parse_key env k \<noteq> None)"
    by (induction ks) (auto simp: requireE_def)
  then show ?thesis by (cases u) (simp add: check_ca_keys_def)
qed

text \<open>The revocations in force: those of the root's list, which is not older than the last one seen.\<close>

definition revocations_in_force ::
  "('k, 's) policy_env \<Rightarrow> signedPolicy \<Rightarrow> 'k \<Rightarrow> policyState \<Rightarrow> string list \<Rightarrow> bool" where
  "revocations_in_force env sp root st revoked \<longleftrightarrow>
     (case sp_Revocations sp of
        None \<Rightarrow> st_RevocationsVersion st \<le> 0 \<and> revoked = []
      | Some b \<Rightarrow> (case openSignedBlob env root ctxRevocations (dec_revocations env) b of
            Inl _ \<Rightarrow> False
          | Inr r \<Rightarrow> st_RevocationsVersion st \<le> rv_Version r \<and> revoked = rv_Revoked r))"

lemma verifyRoot_Inr:
  "verifyRootAndRevocations env sp rootFP st = Inr (root, revoked) \<longleftrightarrow>
     rootFP \<noteq> [] \<and> parse_key env (sp_RootKey sp) = Some root \<and> fp env root = rootFP \<and>
     revocations_in_force env sp root st revoked"
proof (cases "parse_key env (sp_RootKey sp)")
  case (Some k)
  then show ?thesis
  proof (cases "sp_Revocations sp")
    case None
    with Some show ?thesis
      by (auto simp: verifyRootAndRevocations_def revocations_in_force_def)
  next
    case (Some b)
    with \<open>parse_key env (sp_RootKey sp) = Some k\<close> show ?thesis
      by (cases "openSignedBlob env k ctxRevocations (dec_revocations env) b")
        (auto simp: verifyRootAndRevocations_def revocations_in_force_def)
  qed
qed (auto simp: verifyRootAndRevocations_def)

text \<open>The signer is trusted for the account: the pinned root delegated it, and did not revoke it.\<close>

definition trusted_signer ::
  "('k, 's) policy_env \<Rightarrow> signedPolicy \<Rightarrow> string \<Rightarrow> policyState \<Rightarrow> int \<Rightarrow> 'k \<Rightarrow> string list \<Rightarrow> 'k \<Rightarrow> string \<Rightarrow> bool" where
  "trusted_signer env sp rootFP st now root revoked signer a \<longleftrightarrow>
     rootFP \<noteq> [] \<and> parse_key env (sp_RootKey sp) = Some root \<and> fp env root = rootFP \<and>
     revocations_in_force env sp root st revoked \<and>
     parse_key env (sp_Signer sp) = Some signer \<and> fp env signer \<notin> set revoked \<and>
     (\<forall>b \<in> set (sp_Chain sp). opens env root ctxDelegation (dec_delegation env) b) \<and>
     (\<exists>b \<in> set (sp_Chain sp). delegates env root (fp env signer) now b a)"

lemma verifySignedPolicy_Inr:
  "verifySignedPolicy env sp rootFP st now = Inr p \<longleftrightarrow>
     (\<exists>root revoked signer.
        trusted_signer env sp rootFP st now root revoked signer (p_Account p) \<and>
        openSignedBlob env signer ctxPolicy (dec_policy env) (sp_Policy sp) = Inr p \<and>
        st_Version st \<le> p_Version p \<and> p_KRLExpires p \<noteq> 0 \<and> unixOf now < p_KRLExpires p \<and>
        (\<forall>k \<in> set (p_CAKeys p). parse_key env k \<noteq> None))"
proof -
  have "verifySignedPolicy env sp rootFP st now = Inr p \<longleftrightarrow>
     (\<exists>root revoked signer. verifyRootAndRevocations env sp rootFP st = Inr (root, revoked) \<and>
        parse_key env (sp_Signer sp) = Some signer \<and> fp env signer \<notin> set revoked \<and>
        (\<exists>accounts. liveDelegations env root (sp_Chain sp) (fp env signer) now = Inr accounts \<and> p_Account p \<in> set accounts) \<and>
        openSignedBlob env signer ctxPolicy (dec_policy env) (sp_Policy sp) = Inr p \<and>
        st_Version st \<le> p_Version p \<and> p_KRLExpires p \<noteq> 0 \<and> unixOf now < p_KRLExpires p \<and>
        (\<forall>k \<in> set (p_CAKeys p). parse_key env k \<noteq> None))"
    unfolding verifySignedPolicy_def Let_def
    by (auto simp: result_simps check_ca_keys_Inr not_less not_le)
  then show ?thesis
    unfolding liveDelegations_Inr verifyRoot_Inr trusted_signer_def by blast
qed

text \<open>
  What an account policy grants the machine, before and after the freshness statement.
\<close>

definition projected :: "account_policy \<Rightarrow> machine_policy \<Rightarrow> policy" where
  "projected ap mine =
     \<lparr>p_Account = ap_Account ap, p_Version = ap_Version ap, p_Issued = ap_Issued ap, p_KRLExpires = ap_Expires ap,
      p_CAKeys = m_CAKeys mine, p_Grants = m_Grants mine, p_KRLSpec = ap_KRLSpec ap\<rparr>"

definition effective_expiry ::
  "('k, 's) policy_env \<Rightarrow> signedPolicy \<Rightarrow> signedBlob \<Rightarrow> 'k \<Rightarrow> string list \<Rightarrow> account_policy \<Rightarrow> int \<Rightarrow> int" where
  "effective_expiry env sp apBlob root revoked ap now =
     (case sp_Freshness sp of
        None \<Rightarrow> ap_Expires ap
      | Some fr \<Rightarrow> (case verifyFreshness env sp apBlob fr root revoked ap now of
            Inl _ \<Rightarrow> ap_Expires ap
          | Inr e \<Rightarrow> max (ap_Expires ap) e))"

lemma verifyAccountPolicy_Inr:
  "verifyAccountPolicy env sp apBlob rootFP machine st now = Inr p \<longleftrightarrow>
     (\<exists>root revoked signer ap mine.
        trusted_signer env sp rootFP st now root revoked signer (ap_Account ap) \<and>
        openSignedBlob env signer ctxAccountPolicy (dec_account_policy env) apBlob = Inr ap \<and>
        st_Version st \<le> ap_Version ap \<and> ap_Machines ap machine = Some mine \<and>
        (\<forall>k \<in> set (m_CAKeys mine). parse_key env k \<noteq> None) \<and>
        p = (projected ap mine)\<lparr>p_KRLExpires := effective_expiry env sp apBlob root revoked ap now\<rparr> \<and>
        p_KRLExpires p \<noteq> 0 \<and> unixOf now < p_KRLExpires p)"
proof -
  have finish: "(let p = \<lparr>p_Account = ap_Account ap, p_Version = ap_Version ap, p_Issued = ap_Issued ap, p_KRLExpires = ap_Expires ap,
              p_CAKeys = m_CAKeys mine, p_Grants = m_Grants mine, p_KRLSpec = ap_KRLSpec ap\<rparr>;
         (p, why) = (case sp_Freshness sp of
            None \<Rightarrow> (p, None)
          | Some frBlob \<Rightarrow> (case verifyFreshness env sp apBlob frBlob root revoked ap now of
                Inl e \<Rightarrow> (p, Some e)
              | Inr exp \<Rightarrow> (if exp > p_KRLExpires p then p\<lparr>p_KRLExpires := exp\<rparr> else p, None)))
     in if p_KRLExpires p = 0 \<or> unixOf now \<ge> p_KRLExpires p
        then (case why of Some e \<Rightarrow> Inl (StaleKRLFreshness e) | None \<Rightarrow> Inl StaleKRL)
        else Inr p) = Inr p \<longleftrightarrow>
      p = (projected ap mine)\<lparr>p_KRLExpires := effective_expiry env sp apBlob root revoked ap now\<rparr> \<and>
        p_KRLExpires p \<noteq> 0 \<and> unixOf now < p_KRLExpires p" for ap mine root revoked
    by (auto simp: projected_def effective_expiry_def Let_def max_def split: option.splits sum.splits if_splits)
  have "verifyAccountPolicy env sp apBlob rootFP machine st now = Inr p \<longleftrightarrow>
     (\<exists>root revoked signer ap mine. verifyRootAndRevocations env sp rootFP st = Inr (root, revoked) \<and>
        parse_key env (sp_Signer sp) = Some signer \<and> fp env signer \<notin> set revoked \<and>
        (\<exists>accounts. liveDelegations env root (sp_Chain sp) (fp env signer) now = Inr accounts \<and> ap_Account ap \<in> set accounts) \<and>
        openSignedBlob env signer ctxAccountPolicy (dec_account_policy env) apBlob = Inr ap \<and>
        st_Version st \<le> ap_Version ap \<and> ap_Machines ap machine = Some mine \<and>
        (\<forall>k \<in> set (m_CAKeys mine). parse_key env k \<noteq> None) \<and>
        p = (projected ap mine)\<lparr>p_KRLExpires := effective_expiry env sp apBlob root revoked ap now\<rparr> \<and>
        p_KRLExpires p \<noteq> 0 \<and> unixOf now < p_KRLExpires p)"
    unfolding verifyAccountPolicy_def Let_def [of "fp env x" for x] bindE_Inr case_prod_unfold
    unfolding finish [unfolded case_prod_unfold]
    by (simp add: check_ca_keys_Inr not_less) blast
  then show ?thesis
    unfolding liveDelegations_Inr verifyRoot_Inr trusted_signer_def by blast
qed

lemma verifyFreshness_Inr:
  assumes "verifyFreshness env sp apBlob fr root revoked ap now = Inr e"
  shows "\<exists>key f payload. parse_key env (sp_FreshnessSigner sp) = Some key \<and> fp env key \<notin> set revoked \<and>
    (\<exists>b \<in> set (sp_FreshnessChain sp). vouches env root (fp env key) (ap_Account ap) now b) \<and>
    openSignedBlob env key ctxFreshness (dec_freshness env) fr = Inr f \<and>
    b64_decode (sb_Payload apBlob) = Some payload \<and>
    fr_PolicyHash f = ''sha256:'' @ hex_encode (pe_sha env (bytes_of ctxAccountPolicy @ payload)) \<and>
    fr_Account f = ap_Account ap \<and> fr_Group f = ap_Group ap \<and> fr_Version f = ap_Version ap \<and>
    fr_Issued f \<le> unixOf (now + maxFreshnessClockSkew) \<and>
    e = min (fr_Expires f) (i64 (fr_Issued f + 604800)) \<and> unixOf now < e"
proof -
  have win: "maxFreshnessWindow div second = 604800"
    by (simp add: maxFreshnessWindow_def minute_def second_def)
  from assms obtain key f where k: "parse_key env (sp_FreshnessSigner sp) = Some key" "fp env key \<notin> set revoked"
    "fresh_loop env root (fp env key) (ap_Account ap) now 0 (sp_FreshnessChain sp) False = Inr True"
    "openSignedBlob env key ctxFreshness (dec_freshness env) fr = Inr f"
    "accountPolicyHash env apBlob = Inr (fr_PolicyHash f)" "fr_Account f = ap_Account ap" "fr_Group f = ap_Group ap"
    "fr_Version f = ap_Version ap" "fr_Issued f \<le> unixOf (now + maxFreshnessClockSkew)"
    "e = min (fr_Expires f) (i64 (fr_Issued f + 604800))" "unixOf now < e"
    unfolding verifyFreshness_def Let_def [of "fp env x" for x] bindE_Inr
    by (auto simp: win Let_def not_less not_le min_def split: if_splits)
  with fresh_loop_Inr [OF k(3)] show ?thesis
    by (auto simp: accountPolicyHash_def result_simps)
qed

section \<open>The clock in whole seconds\<close>

text \<open>A clock far from the ends of \<open>int64\<close>, as any clock is until the year 146 billion.\<close>

definition sane_clock :: "int \<Rightarrow> bool" where
  "sane_clock now \<longleftrightarrow> 0 \<le> now \<and> now < 2 ^ 62 * second"

lemma unixOf_sane: "sane_clock now \<Longrightarrow> unixOf now = now div second - unixToInternal"
  by (auto simp: unixOf_def sane_clock_def unixToInternal_def second_def is_i64_def intro!: i64_id)

lemma unixOf_skew: "sane_clock now \<Longrightarrow> unixOf (now + maxFreshnessClockSkew) = unixOf now + 300"
proof -
  assume s: "sane_clock now"
  have "(now + maxFreshnessClockSkew) div second = now div second + 300"
    by (simp add: maxFreshnessClockSkew_def minute_def second_def)
  with s show ?thesis
    by (auto simp: unixOf_def sane_clock_def unixToInternal_def second_def is_i64_def i64_id)
qed

section \<open>Contexts\<close>

definition all_contexts :: "string list" where
  "all_contexts = [ctxDelegation, ctxRevocations, ctxPolicy, ctxAccountPolicy, ctxFreshness, ctxFreshnessDelegation]"

lemma context_line:
  assumes "c = l @ [nl]" "c' = l' @ [nl]" "nl \<notin> set l" "nl \<notin> set l'" "bytes_of c @ p = bytes_of c' @ p'"
  shows "c = c' \<and> p = p'"
proof -
  have "string_of (bytes_of c @ p) = string_of (bytes_of c' @ p')" using assms(5) by simp
  then have "l @ nl # string_of p = l' @ nl # string_of p'" by (simp add: assms(1,2))
  from first_field [OF this assms(3,4)] show ?thesis by (simp add: assms(1,2))
qed

lemma all_contexts_lines: "c \<in> set all_contexts \<Longrightarrow> \<exists>l. c = l @ [nl] \<and> nl \<notin> set l"
proof -
  have "list_all (\<lambda>c. c \<noteq> [] \<and> last c = nl \<and> nl \<notin> set (butlast c)) all_contexts"
    by (simp add: all_contexts_def ctxDelegation_def ctxRevocations_def ctxPolicy_def ctxAccountPolicy_def ctxFreshness_def
        ctxFreshnessDelegation_def)
  moreover assume "c \<in> set all_contexts"
  ultimately have "c \<noteq> [] \<and> last c = nl \<and> nl \<notin> set (butlast c)" by (auto simp: list_all_iff)
  then show ?thesis
    using append_butlast_last_id [of c] by (intro exI [of _ "butlast c"]) simp
qed

section \<open>Signing and opening\<close>

text \<open>A signer whose signatures verify under its public key.\<close>

definition honest_signer :: "('k, 's) policy_env \<Rightarrow> 'k signer \<Rightarrow> bool" where
  "honest_signer env s \<longleftrightarrow> (\<forall>m sig. sg_sign s m = Some sig \<longrightarrow>
     (case sig_parse env sig of None \<Rightarrow> False | Some x \<Rightarrow> verify env (sg_pub s) m x))"

lemma open_signBlob:
  assumes "honest_signer env s" "signBlob s ctx enc v = Some b" "dec (enc v) = Some v"
  shows "openSignedBlob env (sg_pub s) ctx dec b = Inr v"
proof -
  from assms(2) obtain sig where sig: "sg_sign s (bytes_of ctx @ enc v) = Some sig"
    "b = \<lparr>sb_Payload = b64_encode (enc v), sb_Sig = b64_encode sig\<rparr>"
    by (auto simp: signBlob_def Let_def split: option.splits)
  with assms(1) obtain x where "sig_parse env sig = Some x" "verify env (sg_pub s) (bytes_of ctx @ enc v) x"
    by (auto simp: honest_signer_def split: option.splits)
  with assms(3) show ?thesis by (simp add: openSignedBlob_def sig(2))
qed

lemma nextState_fields:
  "st_RootFP (nextState env sp rootFP p st) = rootFP"
  "st_Version (nextState env sp rootFP p st) = p_Version p"
  "st_KRLExpires (nextState env sp rootFP p st) = p_KRLExpires p"
  "st_Format (nextState env sp rootFP p st) = (if account_blob sp \<noteq> None then formatAccount else st_Format st)"
  by (auto simp: nextState_def Let_def split: option.split)

text \<open>What \<open>json.Unmarshal\<close> reads from a payload the strict decoder accepted, if it reads it at all.\<close>

definition json_agree :: "('k, 's) policy_env \<Rightarrow> bool" where
  "json_agree env \<longleftrightarrow> (\<forall>b r. dec_revocations env b = Some r \<longrightarrow> lax_revocations env b \<in> {None, Some r})"

lemma openSignedBlob_payload:
  "openSignedBlob env k ctx dec b = Inr v \<Longrightarrow> \<exists>payload. b64_decode (sb_Payload b) = Some payload \<and> dec payload = Some v"
  by (auto simp: openSignedBlob_def result_simps)

lemma nextState_revocations:
  assumes "json_agree env" "revocations_in_force env sp root st revoked"
  shows "st_RevocationsVersion st \<le> st_RevocationsVersion (nextState env sp rootFP p st)"
proof (cases "sp_Revocations sp")
  case None
  then show ?thesis by (simp add: nextState_def Let_def)
next
  case (Some b)
  with assms(2) obtain r where r: "openSignedBlob env root ctxRevocations (dec_revocations env) b = Inr r"
    "st_RevocationsVersion st \<le> rv_Version r"
    by (auto simp: revocations_in_force_def split: sum.splits)
  from openSignedBlob_payload [OF r(1)] obtain payload where
    "b64_decode (sb_Payload b) = Some payload" "dec_revocations env payload = Some r" by blast
  moreover from this(2) assms(1) have "lax_revocations env payload \<in> {None, Some r}" by (simp add: json_agree_def)
  ultimately show ?thesis
    using r(2) Some by (auto simp: nextState_def Let_def)
qed

lemma accepted_in_force:
  assumes "verifyPolicyAny env sp rootFP machine st now = Inr p"
  shows "(\<exists>root revoked. revocations_in_force env sp root st revoked \<and> fp env root = rootFP \<and> rootFP \<noteq> []) \<and>
    st_Version st \<le> p_Version p \<and> unixOf now < p_KRLExpires p \<and>
    (account_blob sp = None \<longrightarrow> st_Format st \<noteq> formatAccount)"
proof -
  consider b where "account_blob sp = Some b" "verifyAccountPolicy env sp b rootFP machine st now = Inr p"
    | "account_blob sp = None" "st_Format st \<noteq> formatAccount" "verifySignedPolicy env sp rootFP st now = Inr p"
    using assms by (auto simp: verifyPolicyAny_def split: option.splits if_splits)
  then show ?thesis
    by cases (auto simp: verifyAccountPolicy_Inr verifySignedPolicy_Inr trusted_signer_def projected_def)
qed

section \<open>Properties\<close>

text \<open>An instance: keys are their lines, a signature is the key followed by the message.\<close>

definition sample_delegation :: delegation where
  "sample_delegation = \<lparr>dl_Account = ''user:1'', dl_DeviceKey = ''D'', dl_Label = [], dl_Issued = 0, dl_Expires = 0\<rparr>"

definition sample_policy :: policy where
  "sample_policy = \<lparr>p_Account = ''user:1'', p_Version = 3, p_Issued = 0, p_KRLExpires = 5000, p_CAKeys = [''C''],
     p_Grants = [\<lparr>g_Principal = ''alice'', g_LoginUser = ''root''\<rparr>], p_KRLSpec = []\<rparr>"

definition sample_account_policy :: account_policy where
  "sample_account_policy = \<lparr>ap_Account = ''user:1'', ap_Group = [], ap_Version = 4, ap_Issued = 0, ap_Expires = 900, ap_KRLSpec = [],
     ap_Machines = [''m1'' \<mapsto> \<lparr>m_CAKeys = [''C''], m_Grants = []\<rparr>]\<rparr>"

definition sample_hash :: string where
  "sample_hash = ''sha256:'' @ hex_encode (take 32 ((bytes_of ctxAccountPolicy @ [1]) @ replicate 32 0))"

definition sample_env :: "(string, bytes) policy_env" where
  "sample_env = \<lparr>parse_key = Some, fp = (\<lambda>k. ''SHA256:'' @ k), sig_parse = Some,
     verify = (\<lambda>k m s. s = bytes_of k @ m), pe_sha = (\<lambda>b. take 32 (b @ replicate 32 0)),
     dec_delegation = (\<lambda>_. Some sample_delegation),
     dec_revocations = (\<lambda>_. Some \<lparr>rv_Account = ''user:1'', rv_Version = 2, rv_Revoked = [''SHA256:X'']\<rparr>),
     lax_revocations = (\<lambda>_. Some \<lparr>rv_Account = ''user:1'', rv_Version = 2, rv_Revoked = [''SHA256:X'']\<rparr>),
     dec_policy = (\<lambda>_. Some sample_policy), dec_account_policy = (\<lambda>_. Some sample_account_policy),
     dec_freshness_delegation = (\<lambda>_. Some \<lparr>fd_Account = ''user:1'', fd_Key = ''F'', fd_Label = [], fd_Issued = 0, fd_Expires = 0\<rparr>),
     dec_freshness = (\<lambda>_. Some \<lparr>fr_Account = ''user:1'', fr_Group = [],
       fr_PolicyHash = sample_hash,
       fr_Version = 4, fr_Issued = 800, fr_Expires = 2000000\<rparr>)\<rparr>"

definition sample_blob :: "string \<Rightarrow> string \<Rightarrow> signedBlob" where
  "sample_blob k ctx = \<lparr>sb_Payload = b64_encode [1], sb_Sig = b64_encode (bytes_of k @ bytes_of ctx @ [1])\<rparr>"

definition sample_response :: "bool \<Rightarrow> signedPolicy" where
  "sample_response acct = \<lparr>sp_RootKey = ''R'', sp_Chain = [sample_blob ''R'' ctxDelegation],
     sp_Revocations = Some (sample_blob ''R'' ctxRevocations), sp_Policy = sample_blob ''D'' ctxPolicy, sp_Signer = ''D'',
     sp_AccountPolicy = (if acct then Some (sample_blob ''D'' ctxAccountPolicy) else None),
     sp_Freshness = Some (sample_blob ''F'' ctxFreshness), sp_FreshnessSigner = ''F'',
     sp_FreshnessChain = [sample_blob ''R'' ctxFreshnessDelegation]\<rparr>"

definition fresh_state :: policyState where
  "fresh_state = \<lparr>st_RootFP = [], st_Version = 0, st_RevocationsVersion = 0, st_KRLExpires = 0, st_Format = []\<rparr>"

definition sample_now :: int where "sample_now = timeUnix 1000"

lemma sample_now_unix: "unixOf sample_now = 1000" "sane_clock sample_now" "unixOf (sample_now + maxFreshnessClockSkew) = 1300"
  by (simp_all add: sample_now_def unixOf_timeUnix is_i64_def)
    (simp_all add: sane_clock_def timeUnix_def unixToInternal_def i64_def second_def maxFreshnessClockSkew_def minute_def unixOf_def)

lemma sample_open: "openSignedBlob sample_env k ctx dec (sample_blob k ctx) = optE BadPayload (dec [1])"
  by (simp add: openSignedBlob_def sample_env_def sample_blob_def del: b64_encode.simps)

lemma sample_parts: "parse_key sample_env l = Some l" "fp sample_env k = ''SHA256:'' @ k"
  "dec_delegation sample_env b = Some sample_delegation" "dec_policy sample_env b = Some sample_policy"
  "dec_account_policy sample_env b = Some sample_account_policy"
  by (simp_all add: sample_env_def)

lemma sample_trusted:
  "trusted_signer sample_env (sample_response acct) ''SHA256:R'' fresh_state sample_now ''R'' [''SHA256:X''] ''D'' ''user:1''"
  by (simp add: trusted_signer_def sample_response_def sample_parts opens_def sample_open delegates_def sample_delegation_def
      revocations_in_force_def fresh_state_def) (simp add: sample_env_def)

lemma sample_accepted: "verifySignedPolicy sample_env (sample_response acct) ''SHA256:R'' fresh_state sample_now = Inr sample_policy"
proof -
  have "openSignedBlob sample_env ''D'' ctxPolicy (dec_policy sample_env) (sp_Policy (sample_response acct)) = Inr sample_policy"
    by (simp add: sample_response_def sample_open sample_parts)
  moreover have "p_Account sample_policy = ''user:1''" by (simp add: sample_policy_def)
  ultimately show ?thesis
    unfolding verifySignedPolicy_Inr using sample_trusted [of acct]
    by (intro exI conjI, assumption?) (simp_all add: sample_policy_def fresh_state_def sample_now_unix sample_parts)
qed

text \<open>C2. The agent accepts a per-machine policy exactly when the served root key has the pinned fingerprint, the
  root's own revocation list is not older than the last one seen and does not name the
  signer, every blob of the chain is signed by the root and one of them delegates the
  signer, unexpired, for the policy's account, the policy is signed by the signer, is not older than the last
  applied one and not expired, its CA keys parse, and no account policy was applied before.\<close>

theorem machine_policy_accepted_iff:
  assumes "account_blob sp = None"
  shows "verifyPolicyAny env sp rootFP machine st now = Inr p \<longleftrightarrow>
    st_Format st \<noteq> formatAccount \<and>
    (\<exists>root revoked signer.
       trusted_signer env sp rootFP st now root revoked signer (p_Account p) \<and>
       openSignedBlob env signer ctxPolicy (dec_policy env) (sp_Policy sp) = Inr p \<and>
       st_Version st \<le> p_Version p \<and> p_KRLExpires p \<noteq> 0 \<and> unixOf now < p_KRLExpires p \<and>
       (\<forall>k \<in> set (p_CAKeys p). parse_key env k \<noteq> None))"
  using assms by (simp add: verifyPolicyAny_def verifySignedPolicy_Inr)

theorem machine_policy_accepted_iff_witness:
  "\<exists>root revoked signer. trusted_signer sample_env (sample_response False) ''SHA256:R'' fresh_state sample_now root revoked signer ''user:1''"
proof -
  have "account_blob (sample_response False) = None" by (simp add: sample_response_def account_blob_def)
  from machine_policy_accepted_iff [OF this, of sample_env "''SHA256:R''" "''m1''" fresh_state sample_now sample_policy] this
  show ?thesis
    using sample_accepted [of False] by (simp add: verifyPolicyAny_def fresh_state_def formatAccount_def) (auto simp: sample_policy_def)
qed

text \<open>C3. The agent accepts an account policy exactly when the same chain of trust holds for it; what it applies is then the entry
  of its own machine, and the expiry is the policy's own or, when later, the one a valid
  freshness statement grants.\<close>

theorem account_policy_accepted_iff:
  assumes "account_blob sp = Some b"
  shows "verifyPolicyAny env sp rootFP machine st now = Inr p \<longleftrightarrow>
    (\<exists>root revoked signer ap mine.
       trusted_signer env sp rootFP st now root revoked signer (ap_Account ap) \<and>
       openSignedBlob env signer ctxAccountPolicy (dec_account_policy env) b = Inr ap \<and>
       st_Version st \<le> ap_Version ap \<and> ap_Machines ap machine = Some mine \<and>
       (\<forall>k \<in> set (m_CAKeys mine). parse_key env k \<noteq> None) \<and>
       p = (projected ap mine)\<lparr>p_KRLExpires := effective_expiry env sp b root revoked ap now\<rparr> \<and>
       p_KRLExpires p \<noteq> 0 \<and> unixOf now < p_KRLExpires p)"
  using assms by (simp add: verifyPolicyAny_def verifyAccountPolicy_Inr)

lemma sample_fresh: "verifyFreshness sample_env (sample_response True) (sample_blob ''D'' ctxAccountPolicy) (sample_blob ''F'' ctxFreshness)
    ''R'' [''SHA256:X''] sample_account_policy sample_now = Inr 605600"
proof -
  have sha: "pe_sha sample_env b = take 32 (b @ replicate 32 0)" for b
    by (simp only: sample_env_def policy_env.simps)
  have "b64_decode (sb_Payload (sample_blob ''D'' ctxAccountPolicy)) = Some [1]"
    by (simp add: sample_blob_def del: b64_encode.simps)
  then have hash: "accountPolicyHash sample_env (sample_blob ''D'' ctxAccountPolicy) = Inr sample_hash"
    by (simp only: accountPolicyHash_def optE_simps bindE_simps sha sample_hash_def)
  have env: "dec_freshness_delegation sample_env [1] = Some \<lparr>fd_Account = ''user:1'', fd_Key = ''F'', fd_Label = [], fd_Issued = 0, fd_Expires = 0\<rparr>"
    "dec_freshness sample_env [1] = Some \<lparr>fr_Account = ''user:1'', fr_Group = [],
       fr_PolicyHash = sample_hash,
       fr_Version = 4, fr_Issued = 800, fr_Expires = 2000000\<rparr>"
    by (simp_all add: sample_env_def)
  have win: "i64 (800 + maxFreshnessWindow div second) = 605600"
    by (simp add: maxFreshnessWindow_def minute_def second_def i64_def)
  show ?thesis
    by (simp add: verifyFreshness_def sample_response_def sample_parts sample_open env hash sample_account_policy_def sample_now_unix win)
qed

lemma sample_account_opens: "openSignedBlob sample_env ''D'' ctxAccountPolicy (dec_account_policy sample_env)
    (sample_blob ''D'' ctxAccountPolicy) = Inr sample_account_policy"
  by (simp add: sample_open sample_parts)

lemma sample_account_accepted:
  "verifyAccountPolicy sample_env (sample_response True) (sample_blob ''D'' ctxAccountPolicy) ''SHA256:R'' ''m1'' fresh_state sample_now
    = Inr ((projected sample_account_policy \<lparr>m_CAKeys = [''C''], m_Grants = []\<rparr>)\<lparr>p_KRLExpires := 605600\<rparr>)"
proof -
  have e: "effective_expiry sample_env (sample_response True) (sample_blob ''D'' ctxAccountPolicy) ''R'' [''SHA256:X''] sample_account_policy sample_now = 605600"
    using sample_fresh by (simp add: effective_expiry_def sample_account_policy_def) (simp add: sample_response_def)
  have "ap_Account sample_account_policy = ''user:1''" by (simp add: sample_account_policy_def)
  moreover note sample_trusted [of True] sample_account_opens
  moreover have "ap_Machines sample_account_policy ''m1'' = Some \<lparr>m_CAKeys = [''C''], m_Grants = []\<rparr>" by (simp add: sample_account_policy_def)
  moreover have "st_Version fresh_state \<le> ap_Version sample_account_policy" by (simp add: fresh_state_def sample_account_policy_def)
  ultimately show ?thesis
    unfolding verifyAccountPolicy_Inr
    using e by (intro exI [of _ "''R''"] exI [of _ "[''SHA256:X'']"] exI [of _ "''D''"] exI [of _ sample_account_policy]
        exI [of _ "\<lparr>m_CAKeys = [''C''], m_Grants = []\<rparr>"]) (simp add: sample_parts sample_now_unix)
qed

theorem account_policy_accepted_iff_witness:
  "\<exists>root revoked signer. trusted_signer sample_env (sample_response True) ''SHA256:R'' fresh_state sample_now root revoked signer ''user:1''"
proof -
  have a: "account_blob (sample_response True) = Some (sample_blob ''D'' ctxAccountPolicy)"
    by (simp add: sample_response_def account_blob_def sample_blob_def del: b64_encode.simps)
  have "verifyPolicyAny sample_env (sample_response True) ''SHA256:R'' ''m1'' fresh_state sample_now
    = Inr ((projected sample_account_policy \<lparr>m_CAKeys = [''C''], m_Grants = []\<rparr>)\<lparr>p_KRLExpires := 605600\<rparr>)"
    by (simp add: verifyPolicyAny_def a sample_account_accepted)
  then show ?thesis
    unfolding account_policy_accepted_iff [OF a] using sample_trusted by blast
qed



text \<open>A freshness statement extends a policy only if it is signed by a key the root delegated for the account and did not
  revoke, names the SHA-256 of exactly the signed policy, and then for at most seven days and the
  clock skew from now, without wrap-around.\<close>

lemma freshness_bounded:
  assumes "verifyFreshness env sp b fr root revoked ap now = Inr e" "sane_clock now"
    and "\<And>payload f. dec_freshness env payload = Some f \<Longrightarrow> is_i64 (fr_Issued f)"
  shows "unixOf now < e \<and> e \<le> unixOf now + 604800 + 300 \<and>
    (\<exists>key f payload. parse_key env (sp_FreshnessSigner sp) = Some key \<and> fp env key \<notin> set revoked \<and>
       (\<exists>d \<in> set (sp_FreshnessChain sp). vouches env root (fp env key) (ap_Account ap) now d) \<and>
       openSignedBlob env key ctxFreshness (dec_freshness env) fr = Inr f \<and> b64_decode (sb_Payload b) = Some payload \<and>
       fr_PolicyHash f = ''sha256:'' @ hex_encode (pe_sha env (bytes_of ctxAccountPolicy @ payload)) \<and>
       e \<le> fr_Expires f \<and> e \<le> fr_Issued f + 604800)"
proof -
  from verifyFreshness_Inr [OF assms(1)] obtain key f payload where k:
    "parse_key env (sp_FreshnessSigner sp) = Some key" "fp env key \<notin> set revoked"
    "\<exists>d \<in> set (sp_FreshnessChain sp). vouches env root (fp env key) (ap_Account ap) now d"
    "openSignedBlob env key ctxFreshness (dec_freshness env) fr = Inr f" "b64_decode (sb_Payload b) = Some payload"
    "fr_PolicyHash f = ''sha256:'' @ hex_encode (pe_sha env (bytes_of ctxAccountPolicy @ payload))"
    "fr_Issued f \<le> unixOf (now + maxFreshnessClockSkew)"
    "e = min (fr_Expires f) (i64 (fr_Issued f + 604800))" "unixOf now < e" by blast
  have "is_i64 (fr_Issued f)"
    using openSignedBlob_payload [OF k(4)] assms(3) by blast
  moreover have "fr_Issued f \<le> unixOf now + 300" using k(7) unixOf_skew [OF assms(2)] by simp
  moreover have "unixOf now < 2 ^ 62"
    using assms(2) by (simp add: unixOf_sane sane_clock_def unixToInternal_def second_def) linarith
  ultimately have "i64 (fr_Issued f + 604800) = fr_Issued f + 604800" "fr_Issued f + 604800 \<le> unixOf now + 604800 + 300"
    by (auto simp: is_i64_def intro!: i64_id)
  with k show ?thesis by auto
qed

lemma freshness_bounded_instance:
  "unixOf sample_now < 605600 \<and> (605600 :: int) \<le> unixOf sample_now + 604800 + 300"
  using freshness_bounded [OF sample_fresh sample_now_unix(2)] by (simp add: sample_env_def is_i64_def)

text \<open>A policy signed by a delegated device is accepted: when root and device sign honestly, the delegation covers
  the policy's account and is not expired, and the policy is current and parses, an agent that has seen no revocation
  list and no account policy gets exactly the policy that was signed.\<close>

lemma honest_policy_accepted:
  assumes "honest_signer env root" "honest_signer env dev"
    and "signBlob root ctxDelegation enc_d d = Some bd" "dec_delegation env (enc_d d) = Some d"
    and "signBlob dev ctxPolicy enc_p p = Some bp" "dec_policy env (enc_p p) = Some p"
    and "parse_key env rootLine = Some (sg_pub root)" "fp env (sg_pub root) = rootFP" "rootFP \<noteq> []"
    and "parse_key env devLine = Some (sg_pub dev)" "parse_key env (dl_DeviceKey d) = Some (sg_pub dev)"
    and "dl_Expires d = 0 \<or> unixOf now < dl_Expires d" "dl_Account d = p_Account p"
    and "st_Version st \<le> p_Version p" "0 < p_KRLExpires p" "unixOf now < p_KRLExpires p"
    and "list_all (\<lambda>k. parse_key env k \<noteq> None) (p_CAKeys p)"
    and "st_RevocationsVersion st \<le> 0" "st_Format st \<noteq> formatAccount"
  shows "verifyPolicyAny env \<lparr>sp_RootKey = rootLine, sp_Chain = [bd], sp_Revocations = None, sp_Policy = bp, sp_Signer = devLine,
      sp_AccountPolicy = None, sp_Freshness = None, sp_FreshnessSigner = [], sp_FreshnessChain = []\<rparr> rootFP machine st now = Inr p"
proof -
  note od = open_signBlob [where dec = "dec_delegation env", OF assms(1,3,4)]
    and op = open_signBlob [where dec = "dec_policy env", OF assms(2,5,6)]
  have "trusted_signer env \<lparr>sp_RootKey = rootLine, sp_Chain = [bd], sp_Revocations = None, sp_Policy = bp, sp_Signer = devLine,
      sp_AccountPolicy = None, sp_Freshness = None, sp_FreshnessSigner = [], sp_FreshnessChain = []\<rparr> rootFP st now
      (sg_pub root) [] (sg_pub dev) (p_Account p)"
    using assms(7-13,18) by (simp add: trusted_signer_def revocations_in_force_def opens_def delegates_def od)
  with assms(14-17,19) op show ?thesis
    by (simp add: verifyPolicyAny_def account_blob_def verifySignedPolicy_Inr list_all_iff) (rule exI conjI, assumption?)+
qed

definition sample_signer :: "string \<Rightarrow> string signer" where
  "sample_signer k = \<lparr>sg_pub = k, sg_sign = (\<lambda>m. Some (bytes_of k @ m))\<rparr>"

lemma honest_policy_accepted_instance:
  "verifyPolicyAny sample_env \<lparr>sp_RootKey = ''R'', sp_Chain = [sample_blob ''R'' ctxDelegation], sp_Revocations = None,
      sp_Policy = sample_blob ''D'' ctxPolicy, sp_Signer = ''D'',
      sp_AccountPolicy = None, sp_Freshness = None, sp_FreshnessSigner = [], sp_FreshnessChain = []\<rparr> ''SHA256:R'' ''m1'' fresh_state sample_now
    = Inr sample_policy"
  by (rule honest_policy_accepted [of _ "sample_signer ''R''" "sample_signer ''D''" "\<lambda>_. [1]" sample_delegation _ "\<lambda>_. [1]"])
    (simp_all add: honest_signer_def sample_signer_def signBlob_def sample_blob_def sample_parts sample_now_unix fresh_state_def
      formatAccount_def del: b64_encode.simps,
     simp_all add: sample_env_def sample_delegation_def sample_policy_def)

end
