(* ===== verification/Paths.thy ===== *)
theory Paths
  imports GoStrings
begin

text \<open>
  The part of \<open>path/filepath\<close> the program uses, on a system whose separator is a slash: a path is
  a list of components and whether it starts at the root. Shown: \<open>Join\<close> of a directory and plain
  names is the directory's components followed by the names, so that paths built from different
  names differ and none leaves its directory.
\<close>

section \<open>Clean, Join and Dir\<close>

abbreviation slash :: char where "slash \<equiv> CHR ''/''"

definition clean_step :: "bool \<Rightarrow> string list \<Rightarrow> string \<Rightarrow> string list" where
  "clean_step rooted cs c =
     (if c = [] \<or> c = ''.'' then cs
      else if c = ''..'' then
        (if cs \<noteq> [] \<and> last cs \<noteq> ''..'' then butlast cs else if rooted then cs else cs @ [c])
      else cs @ [c])"

definition rooted :: "string \<Rightarrow> bool" where
  "rooted p \<longleftrightarrow> p \<noteq> [] \<and> hd p = slash"

definition components :: "string \<Rightarrow> string list" where
  "components p = foldl (clean_step (rooted p)) [] (split_on slash p)"

definition render_path :: "bool \<Rightarrow> string list \<Rightarrow> string" where
  "render_path r cs =
     (let s = (if r then [slash] else []) @ join_with [slash] cs in if s = [] then ''.'' else s)"

definition clean_path :: "string \<Rightarrow> string" where
  "clean_path p = render_path (rooted p) (components p)"

definition path_join :: "string list \<Rightarrow> string" where
  "path_join es =
     (case dropWhile (\<lambda>e. e = []) es of [] \<Rightarrow> [] | e # es' \<Rightarrow> clean_path (join_with [slash] (e # es')))"

definition path_dir :: "string \<Rightarrow> string" where
  "path_dir p = clean_path (rev (dropWhile (\<lambda>c. c \<noteq> slash) (rev p)))"

section \<open>Names\<close>

text \<open>A plain name: not empty, not \<open>.\<close> or \<open>..\<close>, without a slash.\<close>

definition plain_name :: "string \<Rightarrow> bool" where
  "plain_name n \<longleftrightarrow> n \<noteq> [] \<and> n \<noteq> ''.'' \<and> n \<noteq> ''..'' \<and> slash \<notin> set n"

lemma clean_step_plain: "plain_name n \<Longrightarrow> clean_step r cs n = cs @ [n]"
  by (simp add: clean_step_def plain_name_def)

lemma foldl_plain: "list_all plain_name ns \<Longrightarrow> foldl (clean_step r) cs ns = cs @ ns"
  by (induction ns arbitrary: cs) (simp_all add: clean_step_plain)

lemma split_on_snoc: "split_on d (p @ d # q) = split_on d p @ split_on d q"
  by (induction p) (auto split: list.splits)

lemma split_no_sep: "w \<in> set (split_on d s) \<Longrightarrow> d \<notin> set w"
proof (induction s arbitrary: w)
  case (Cons c s)
  obtain v vs where v: "split_on d s = v # vs" by (cases "split_on d s") auto
  with Cons.IH have "d \<notin> set v" "\<And>u. u \<in> set vs \<Longrightarrow> d \<notin> set u" by auto
  with Cons.prems v show ?case by (auto split: if_splits)
qed simp

lemma clean_step_slash_free:
  "(\<forall>w \<in> set cs. slash \<notin> set w \<and> w \<noteq> []) \<Longrightarrow> slash \<notin> set c \<Longrightarrow> \<forall>w \<in> set (clean_step r cs c). slash \<notin> set w \<and> w \<noteq> []"
  by (auto simp: clean_step_def dest: in_set_butlastD)

lemma components_slash_free: "w \<in> set (components p) \<Longrightarrow> slash \<notin> set w \<and> w \<noteq> []"
proof -
  have "\<forall>w \<in> set (foldl (clean_step r) cs ws). slash \<notin> set w \<and> w \<noteq> []"
    if "\<forall>w \<in> set cs. slash \<notin> set w \<and> w \<noteq> []" "\<forall>w \<in> set ws. slash \<notin> set w" for r cs ws
    using that
  proof (induction ws arbitrary: cs)
    case (Cons w ws)
    from Cons.prems(2) have "slash \<notin> set w" by simp
    from Cons.IH [OF clean_step_slash_free [OF Cons.prems(1) this]] Cons.prems(2) show ?case by simp
  qed simp
  then show "w \<in> set (components p) \<Longrightarrow> slash \<notin> set w \<and> w \<noteq> []"
    by (metis components_def empty_iff list.set(1) split_no_sep)
qed

lemma join_with_Cons: "join_with d (w # ws) = (if ws = [] then w else w @ d @ join_with d ws)"
  by (cases ws) simp_all

lemma split_join_plain: "list_all plain_name ns \<Longrightarrow> ns \<noteq> [] \<Longrightarrow> split_on slash (join_with [slash] ns) = ns"
  by (rule split_join) (auto simp: list_all_iff plain_name_def)

lemma path_join_plain:
  assumes "list_all plain_name ns" "ns \<noteq> []"
  shows "path_join (d # ns) = render_path (rooted d) (components d @ ns)"
proof (cases "d = []")
  case True
  from assms obtain n ns' where ns: "ns = n # ns'" "n \<noteq> []" "hd n \<noteq> slash"
    by (cases ns) (auto simp: plain_name_def, metis hd_in_set)
  have "hd (join_with [slash] ns) = hd n" using ns by (simp add: join_with_Cons)
  with True ns have "rooted (join_with [slash] ns) = False" "components d = []" "rooted d = False"
    by (simp_all add: rooted_def components_def clean_step_def)
  moreover from this(1) have "components (join_with [slash] ns) = ns"
    using foldl_plain [OF assms(1)] split_join_plain [OF assms] by (simp add: components_def)
  ultimately show ?thesis
    using True ns by (simp add: path_join_def clean_path_def)
next
  case False
  have r: "rooted (d @ slash # join_with [slash] ns) = rooted d" using False by (simp add: rooted_def)
  have "components (d @ slash # join_with [slash] ns) = components d @ ns"
    using foldl_plain [OF assms(1)] split_join_plain [OF assms] by (simp add: components_def r split_on_snoc)
  with False assms(2) r show ?thesis
    by (cases ns) (simp_all add: path_join_def clean_path_def)
qed

text \<open>The components of a path can be read back from it.\<close>

lemma render_path_inject:
  assumes "render_path r cs = render_path r ds" "cs \<noteq> []" "ds \<noteq> []"
    and "\<And>w. w \<in> set cs \<Longrightarrow> slash \<notin> set w \<and> w \<noteq> []" "\<And>w. w \<in> set ds \<Longrightarrow> slash \<notin> set w \<and> w \<noteq> []"
  shows "cs = ds"
proof -
  have ne: "join_with [slash] ws \<noteq> []" if "ws \<noteq> []" "\<And>w. w \<in> set ws \<Longrightarrow> slash \<notin> set w \<and> w \<noteq> []" for ws
    using that by (cases ws) (auto simp: join_with_Cons)
  have "join_with [slash] cs = join_with [slash] ds"
    using assms(1) ne [OF assms(2,4)] ne [OF assms(3,5)] by (auto simp: render_path_def Let_def split: if_splits)
  then show ?thesis
    using split_join [OF assms(2)] split_join [OF assms(3)] assms(4,5) by metis
qed

lemma path_join_inject:
  assumes "path_join (d # ms) = path_join (d # ns)"
    and "list_all plain_name ms" "ms \<noteq> []" "list_all plain_name ns" "ns \<noteq> []"
  shows "ms = ns"
proof -
  have "components d @ ms = components d @ ns"
    by (rule render_path_inject [of "rooted d"])
      (use assms components_slash_free in \<open>auto simp: path_join_plain list_all_iff plain_name_def\<close>)
  then show ?thesis by simp
qed

lemma path_join_eq_iff [simp]:
  "list_all plain_name ms \<Longrightarrow> ms \<noteq> [] \<Longrightarrow> list_all plain_name ns \<Longrightarrow> ns \<noteq> [] \<Longrightarrow>
     path_join (d # ms) = path_join (d # ns) \<longleftrightarrow> ms = ns"
  using path_join_inject by blast

lemma join_with_snoc: "join_with d (ws @ [w @ x]) = join_with d (ws @ [w]) @ x"
  by (induction ws) (auto simp: join_with_Cons)

text \<open>Appending a suffix such as \<open>.tmp\<close> to a path changes its last name.\<close>

lemma path_join_suffix:
  assumes "list_all plain_name (ns @ [n])" "plain_name (n @ x)"
  shows "path_join (d # ns @ [n]) @ x = path_join (d # ns @ [n @ x])"
proof -
  have n: "n \<noteq> []" using assms by (simp add: plain_name_def)
  have "render_path r (cs @ [n]) @ x = render_path r (cs @ [n @ x])" for r cs
  proof -
    have "join_with [slash] (cs @ [n]) \<noteq> []" using n by (cases cs) (simp_all add: join_with_Cons)
    then show ?thesis by (simp add: render_path_def Let_def join_with_snoc)
  qed
  from this [of "rooted d" "components d @ ns"] show ?thesis
    using assms path_join_plain [of "ns @ [n]" d] path_join_plain [of "ns @ [n @ x]" d] by simp
qed

text \<open>
  Cleaned components are in normal form: names, after some \<open>..\<close> when the path is not rooted. Reading them back
  gives the same components, so joining in two steps is joining in one.
\<close>

definition normal_components :: "bool \<Rightarrow> string list \<Rightarrow> bool" where
  "normal_components r cs \<longleftrightarrow> (\<exists>n ns. cs = replicate n ''..'' @ ns \<and> list_all plain_name ns \<and> (r \<longrightarrow> n = 0))"

lemma normal_snoc: "normal_components r cs \<Longrightarrow> plain_name c \<Longrightarrow> normal_components r (cs @ [c])"
proof -
  assume "normal_components r cs" "plain_name c"
  then obtain n ns where "cs @ [c] = replicate n ''..'' @ (ns @ [c])" "list_all plain_name (ns @ [c])" "r \<longrightarrow> n = 0"
    by (auto simp: normal_components_def)
  then show ?thesis unfolding normal_components_def by blast
qed

lemma replicate_last: "0 < n \<Longrightarrow> last (replicate n x) = x"
  by (cases n) (simp_all add: replicate_append_same [symmetric])

lemma normal_step:
  assumes "normal_components r cs" "slash \<notin> set c"
  shows "normal_components r (clean_step r cs c)"
proof -
  from assms(1) obtain n ns where cs: "cs = replicate n ''..'' @ ns" "list_all plain_name ns" "r \<longrightarrow> n = 0"
    by (auto simp: normal_components_def)
  show ?thesis
  proof (cases "c = ''..''")
    case dots: True
    show ?thesis
    proof (cases "ns = []")
      case True
      have "replicate n ''..'' @ [''..''] = replicate (Suc n) ''..'' @ []" by (simp add: replicate_append_same)
      moreover have "normal_components r (replicate (Suc n) ''..'' @ [])" if "\<not> r"
        using that unfolding normal_components_def by (intro exI [of _ "Suc n"] exI [of _ "[]"]) simp
      ultimately show ?thesis
        using True dots cs assms(1) replicate_last [of n "''..''"] by (cases "n = 0") (auto simp: clean_step_def)
    next
      case False
      then have "plain_name (last ns)" using cs(2) by (auto simp: list_all_iff)
      then have "last cs \<noteq> ''..''" using False cs(1) by (auto simp: plain_name_def)
      moreover have "list_all plain_name (butlast ns)" using cs(2) by (auto simp: list_all_iff dest: in_set_butlastD)
      ultimately show ?thesis
        using dots False cs unfolding normal_components_def
        by (intro exI [of _ n] exI [of _ "butlast ns"]) (simp add: clean_step_def butlast_append)
    qed
  next
    case False
    then show ?thesis
      using normal_snoc [OF assms(1), of c] assms by (auto simp: clean_step_def plain_name_def)
  qed
qed

lemma components_normal: "normal_components (rooted p) (components p)"
proof -
  have "normal_components r (foldl (clean_step r) cs ws)"
    if "normal_components r cs" "\<forall>w \<in> set ws. slash \<notin> set w" for r cs ws
    using that
  proof (induction ws arbitrary: cs)
    case (Cons w ws)
    then have "normal_components r (clean_step r cs w)" by (simp add: normal_step)
    with Cons show ?case by simp
  qed simp
  moreover have "normal_components (rooted p) []"
    unfolding normal_components_def by (intro exI [of _ 0] exI [of _ "[]"]) simp
  ultimately show ?thesis
    by (metis components_def split_no_sep)
qed

lemma foldl_dots: "foldl (clean_step False) (replicate m ''..'') (replicate n ''..'') = replicate (m + n) ''..''"
proof (induction n arbitrary: m)
  case (Suc n)
  have "clean_step False (replicate m ''..'') ''..'' = replicate (Suc m) ''..''"
    using replicate_last [of m "''..''"] by (cases m) (auto simp: clean_step_def replicate_append_same)
  with Suc [of "Suc m"] show ?case by simp
qed simp

lemma foldl_normal: "normal_components r cs \<Longrightarrow> foldl (clean_step r) [] cs = cs"
proof -
  assume "normal_components r cs"
  then obtain n ns where cs: "cs = replicate n ''..'' @ ns" "list_all plain_name ns" "r \<longrightarrow> n = 0"
    by (auto simp: normal_components_def)
  show ?thesis
    using cs foldl_dots [of 0 n] foldl_plain [OF cs(2)] by (cases r) (simp_all)
qed

lemma render_rooted [simp]:
  "(\<And>w. w \<in> set cs \<Longrightarrow> slash \<notin> set w \<and> w \<noteq> []) \<Longrightarrow> rooted (render_path r cs) = r"
proof (cases cs)
  case (Cons c cs')
  assume h: "\<And>w. w \<in> set cs \<Longrightarrow> slash \<notin> set w \<and> w \<noteq> []"
  from h [of c] Cons have c: "slash \<notin> set c" "c \<noteq> []" by auto
  then have "hd c \<noteq> slash" by (metis hd_in_set)
  with c Cons show ?thesis
    by (cases r) (simp_all add: rooted_def render_path_def Let_def join_with_Cons)
qed (simp add: rooted_def render_path_def)

lemma components_render:
  assumes "normal_components r cs" "\<And>w. w \<in> set cs \<Longrightarrow> slash \<notin> set w \<and> w \<noteq> []"
  shows "components (render_path r cs) = cs"
proof (cases "cs = []")
  case True
  then show ?thesis by (cases r) (simp_all add: components_def render_path_def clean_step_def)
next
  case False
  have s: "split_on slash (join_with [slash] cs) = cs"
    by (rule split_join [OF False]) (use assms(2) in auto)
  have "split_on slash (slash # join_with [slash] cs) = [] # cs" by (simp add: s)
  moreover have "clean_step r [] [] = []" by (simp add: clean_step_def)
  moreover have "join_with [slash] cs \<noteq> []" using False assms(2) by (cases cs) (auto simp: join_with_Cons)
  ultimately have sp: "foldl (clean_step r) [] (split_on slash (render_path r cs)) = foldl (clean_step r) [] cs"
    using s by (cases r) (simp_all add: render_path_def Let_def)
  show ?thesis
    using sp foldl_normal [OF assms(1)] render_rooted [OF assms(2)] by (simp add: components_def)
qed

lemma path_join_join:
  assumes "list_all plain_name ms" "ms \<noteq> []" "list_all plain_name ns" "ns \<noteq> []"
  shows "path_join (path_join (d # ms) # ns) = path_join (d # ms @ ns)"
proof -
  have sf: "\<And>w. w \<in> set (components d @ ms) \<Longrightarrow> slash \<notin> set w \<and> w \<noteq> []"
    using assms(1) components_slash_free by (auto simp: list_all_iff plain_name_def)
  have "normal_components (rooted d) (components d @ ms)"
  proof -
    obtain n ks where "components d = replicate n ''..'' @ ks" "list_all plain_name ks" "rooted d \<longrightarrow> n = 0"
      using components_normal [of d] by (auto simp: normal_components_def)
    with assms(1) show ?thesis
      unfolding normal_components_def by (intro exI [of _ n] exI [of _ "ks @ ms"]) simp
  qed
  moreover have "rooted (render_path (rooted d) (components d @ ms)) = rooted d"
    by (rule render_rooted) (rule sf)
  moreover note components_render [OF calculation(1) sf]
  ultimately show ?thesis
    using assms path_join_plain [of ms d] path_join_plain [of "ms @ ns" d]
      path_join_plain [of ns "path_join (d # ms)"] by simp
qed

end
