(* ===== verification/World.thy ===== *)
theory World
  imports Cards Wrap Policy Paths
begin

text \<open>
  What a command of the program acts on: files, standard input and output, randomness and the
  server; and what it takes from outside, as a record of parameters. Operations of \<open>os\<close>, \<open>crypto/rand\<close>
  and \<open>net/http\<close> are functions on this state; the signed requests of \<open>main.go\<close> and \<open>cli.go\<close> are built on them.
  Messages printed for the user are left out; \<open>w_out\<close> holds what a command prints as its result.
\<close>

section \<open>Errors\<close>

text \<open>
  \<open>Msg\<close> is an error made from a text (its head, without the formatted values), \<open>Ctx\<close> one that wraps
  another. The remaining constructors are the errors of the system, the server and the components.
\<close>

datatype err = Msg string | Ctx string err | NotExist | Exists | IoError | Transport | BadJSON | Server string
  | BadResults | BadEncoding | EWrap wrap_error | ECard card_error | EShamir shamir_error | EPolicy policy_error
  | EBlob blob_error

section \<open>The state\<close>

text \<open>Modes are numbers; \<open>0o600\<close> is 384, \<open>0o644\<close> 420.\<close>

abbreviation mode600 :: nat where "mode600 \<equiv> 384"
abbreviation mode644 :: nat where "mode644 \<equiv> 420"

record inode =
  fl_data :: string
  fl_mode :: nat

text \<open>
  A file operation takes the next fault of \<open>w_faults\<close> and fails when it is one, a write after writing
  \<open>n\<close> bytes for \<open>Partial n\<close>; when the list is empty nothing fails. Theorems that say what holds when
  the disk is full or unreadable, or the program is stopped between two steps, quantify over this list.
\<close>

datatype fault = NoFault | Fails | Partial nat

record 'n world =
  w_files :: "string \<Rightarrow> inode option"
  w_faults :: "fault list"
  w_stdin :: "string list"
  w_out :: string
  w_rand :: "nat \<Rightarrow> byte"
  w_pos :: nat
  w_cache :: "string \<Rightarrow> bytes option"
  w_now :: int
  w_net :: 'n

type_synonym ('n, 'a) io = "('n world, err, 'a) act"

type_synonym flags = "string \<Rightarrow> string option"
type_synonym form = "string \<Rightarrow> string list option"

text \<open>\<open>f["name"]\<close>\<close>

definition flag :: "flags \<Rightarrow> string \<Rightarrow> string" where
  "flag f n = (case f n of None \<Rightarrow> [] | Some v \<Rightarrow> v)"

text \<open>
  The parameters: the environment, Ed25519 (a private key is the 32-byte seed followed by the 32-byte
  public key, as \<open>crypto/ed25519\<close> has it), the server, which sees each request and answers with a status and
  a body or not at all, and the decoding of its answer to the error text and the raw results.
\<close>

record ('k, 's, 'n) host =
  h_env :: "string \<Rightarrow> string option"
  h_config_dir :: "string option"
  h_home :: string
  h_sign :: "bytes \<Rightarrow> bytes \<Rightarrow> bytes"
  h_public :: "bytes \<Rightarrow> bytes"
  h_http :: "'n \<Rightarrow> string \<Rightarrow> form \<Rightarrow> (int \<times> string) option \<times> 'n"
  h_response :: "string \<Rightarrow> (string \<times> string) option"
  h_wrap :: wrap_crypto
  h_card :: card_crypto
  h_policy :: "('k, 's) policy_env"

definition getenv :: "('k, 's, 'n, 'x) host_scheme \<Rightarrow> string \<Rightarrow> string" where
  "getenv h v = (case h_env h v of None \<Rightarrow> [] | Some x \<Rightarrow> x)"

section \<open>Files\<close>

definition with_fault :: "(fault \<Rightarrow> ('n, 'a) io) \<Rightarrow> ('n, 'a) io" where
  "with_fault g s = (case w_faults s of [] \<Rightarrow> g NoFault s | f # fs \<Rightarrow> g f (s\<lparr>w_faults := fs\<rparr>))"

definition readFile :: "string \<Rightarrow> ('n, string) io" where
  "readFile p = with_fault (\<lambda>f s.
     if f \<noteq> NoFault then (Inl IoError, s)
     else case w_files s p of None \<Rightarrow> (Inl NotExist, s) | Some x \<Rightarrow> (Inr (fl_data x), s))"

text \<open>\<open>os.WriteFile\<close> truncates and writes; the mode is used only when it creates the file.\<close>

definition put_file :: "string \<Rightarrow> string \<Rightarrow> nat \<Rightarrow> 'n world \<Rightarrow> 'n world" where
  "put_file p d m s = s\<lparr>w_files := (w_files s)(p \<mapsto>
     \<lparr>fl_data = d, fl_mode = (case w_files s p of None \<Rightarrow> m | Some x \<Rightarrow> fl_mode x)\<rparr>)\<rparr>"

definition writeFile :: "string \<Rightarrow> string \<Rightarrow> nat \<Rightarrow> ('n, unit) io" where
  "writeFile p d m = with_fault (\<lambda>f s. case f of
       NoFault \<Rightarrow> (Inr (), put_file p d m s)
     | Fails \<Rightarrow> (Inl IoError, s)
     | Partial n \<Rightarrow> (Inl IoError, put_file p (take n d) m s))"

definition rename :: "string \<Rightarrow> string \<Rightarrow> ('n, unit) io" where
  "rename p q = with_fault (\<lambda>f s.
     if f \<noteq> NoFault then (Inl IoError, s)
     else case w_files s p of
         None \<Rightarrow> (Inl NotExist, s)
       | Some x \<Rightarrow> (Inr (), s\<lparr>w_files := ((w_files s)(p := None))(q \<mapsto> x)\<rparr>))"

definition mkdirAll :: "string \<Rightarrow> ('n, unit) io" where
  "mkdirAll p = with_fault (\<lambda>f s. if f \<noteq> NoFault then (Inl IoError, s) else (Inr (), s))"

definition remove_file :: "string \<Rightarrow> ('n, unit) io" where
  "remove_file p = with_fault (\<lambda>f s.
     if f \<noteq> NoFault then (Inl IoError, s)
     else case w_files s p of None \<Rightarrow> (Inl NotExist, s) | Some _ \<Rightarrow> (Inr (), s\<lparr>w_files := (w_files s)(p := None)\<rparr>))"

text \<open>\<open>os.Stat\<close>: succeeds when there is a file.\<close>

definition stat_file :: "string \<Rightarrow> ('n, unit) io" where
  "stat_file p = with_fault (\<lambda>f s.
     if f \<noteq> NoFault then (Inl IoError, s)
     else case w_files s p of None \<Rightarrow> (Inl NotExist, s) | Some _ \<Rightarrow> (Inr (), s))"

text \<open>A hard link, which never replaces a file.\<close>

definition link_file :: "string \<Rightarrow> string \<Rightarrow> ('n, unit) io" where
  "link_file p q = with_fault (\<lambda>f s.
     if f \<noteq> NoFault then (Inl IoError, s)
     else case (w_files s p, w_files s q) of
         (None, _) \<Rightarrow> (Inl NotExist, s)
       | (Some x, Some _) \<Rightarrow> (Inl Exists, s)
       | (Some x, None) \<Rightarrow> (Inr (), s\<lparr>w_files := (w_files s)(q \<mapsto> x)\<rparr>))"

text \<open>The error of a call the code ignores: \<open>_ = op\<close>.\<close>

definition ignoreS :: "('n, unit) io \<Rightarrow> ('n, unit) io" where
  "ignoreS m s = (Inr (), snd (m s))"

text \<open>\<open>x, err := op\<close> where the code goes on with either.\<close>

definition tryS :: "('n, 'a) io \<Rightarrow> ('n, err + 'a) io" where
  "tryS m s = (case m s of (r, t) \<Rightarrow> (Inr r, t))"

section \<open>Input, output, randomness, clock\<close>

text \<open>
  Standard input is a list of segments, each read to its end: at a terminal Ctrl-D ends one and the next read goes on
  with the next, a pipe is one segment. A read of a line takes what is there up to and including the next newline; the
  value is the line with its newline, without one at the end of the segment.
\<close>

definition read_line :: "('n, string) io" where
  "read_line s =
     (case w_stdin s of
        [] \<Rightarrow> (Inr [], s)
      | seg # segs \<Rightarrow>
          (let line = takeWhile (\<lambda>c. c \<noteq> nl) seg; rest = drop (length line) seg
           in if rest = [] then (Inr line, s\<lparr>w_stdin := segs\<rparr>)
              else (Inr (line @ [nl]), s\<lparr>w_stdin := tl rest # segs\<rparr>)))"

definition read_all :: "('n, string) io" where
  "read_all s =
     (case w_stdin s of [] \<Rightarrow> (Inr [], s) | seg # segs \<Rightarrow> (Inr seg, s\<lparr>w_stdin := segs\<rparr>))"

definition print_text :: "string \<Rightarrow> ('n, unit) io" where
  "print_text x s = (Inr (), s\<lparr>w_out := w_out s @ x\<rparr>)"

definition println :: "string \<Rightarrow> ('n, unit) io" where
  "println l = print_text (l @ [nl])"

definition mustRandom :: "nat \<Rightarrow> ('n, bytes) io" where
  "mustRandom n s = (Inr (map (\<lambda>i. w_rand s (w_pos s + i)) [0..<n]), s\<lparr>w_pos := w_pos s + n\<rparr>)"

definition get_now :: "('n, int) io" where
  "get_now s = (Inr (w_now s), s)"

section \<open>Signed requests\<close>

definition public_of :: "bytes \<Rightarrow> bytes" where
  "public_of key = drop 32 key"

definition post_once :: "('k, 's, 'n, 'x) host_scheme \<Rightarrow> string \<Rightarrow> form \<Rightarrow> ('n, int \<times> string) io" where
  "post_once h apiBase form s =
     (case h_http h (w_net s) apiBase form of
        (None, n) \<Rightarrow> (Inl Transport, s\<lparr>w_net := n\<rparr>)
      | (Some r, n) \<Rightarrow> (Inr r, s\<lparr>w_net := n\<rparr>))"

text \<open>
  The retry of a gateway error, then the decoding: \<open>dec\<close> decodes the raw results, \<open>zero\<close> is the value the
  caller's variable has when there are none.
\<close>

definition postForm ::
  "('k, 's, 'n, 'x) host_scheme \<Rightarrow> (string \<Rightarrow> 'v option) \<Rightarrow> 'v \<Rightarrow> string \<Rightarrow> form \<Rightarrow> ('n, 'v) io" where
  "postForm h dec zero apiBase form =
     bindS (post_once h apiBase form) (\<lambda>first.
     bindS (if fst first = 502 \<or> fst first = 503 \<or> fst first = 504 then post_once h apiBase form else retS first) (\<lambda>(status, body).
     bindS (liftS (optE BadJSON (h_response h body))) (\<lambda>(e, results).
     if e \<noteq> [] then failS (Server e)
     else if results = [] then retS zero
     else liftS (optE BadResults (dec results)))))"

definition auth_message :: "string \<Rightarrow> int \<Rightarrow> string" where
  "auth_message who now = who @ ''|'' @ format_int (unixOf now)"

definition pullInto ::
  "('k, 's, 'n, 'x) host_scheme \<Rightarrow> (string \<Rightarrow> 'v option) \<Rightarrow> 'v \<Rightarrow> string \<Rightarrow> string \<Rightarrow> string \<Rightarrow> bytes \<Rightarrow> form \<Rightarrow> ('n, 'v) io" where
  "pullInto h dec zero apiBase action machine key extra =
     bindS get_now (\<lambda>now.
     let ts = format_int (unixOf now);
         sig = b64_encode (h_sign h key (bytes_of (auth_message machine now)));
         form = extra(''action'' \<mapsto> [action], ''machine_id'' \<mapsto> [machine], ''ts'' \<mapsto> [ts], ''signature'' \<mapsto> [sig])
     in postForm h dec zero apiBase form)"

definition userRequestKey ::
  "('k, 's, 'n, 'x) host_scheme \<Rightarrow> (string \<Rightarrow> 'v option) \<Rightarrow> 'v \<Rightarrow> string \<Rightarrow> string \<Rightarrow> bytes \<Rightarrow> form \<Rightarrow> ('n, 'v) io" where
  "userRequestKey h dec zero apiBase action key extra =
     bindS get_now (\<lambda>now.
     let pub = b64_encode (public_of key);
         ts = format_int (unixOf now);
         sig = b64_encode (h_sign h key (bytes_of (auth_message pub now)));
         form = extra(''action'' \<mapsto> [action], ''pubkey'' \<mapsto> [pub], ''ts'' \<mapsto> [ts], ''signature'' \<mapsto> [sig])
     in postForm h dec zero apiBase form)"

section \<open>What the operations change\<close>

text \<open>Every file operation changes at most the files it is given.\<close>

lemma with_fault_preserves:
  assumes "\<And>s fs. I s \<Longrightarrow> I (s\<lparr>w_faults := fs\<rparr>)" "\<And>f. preserves I (g f)"
  shows "preserves I (with_fault g)"
  using assms by (auto simp: preserves_def with_fault_def split: list.splits)

definition files_inv :: "((string \<Rightarrow> inode option) \<Rightarrow> bool) \<Rightarrow> 'n world \<Rightarrow> bool" where
  "files_inv P s \<longleftrightarrow> P (w_files s)"

lemma files_inv_update [simp]:
  "files_inv P (s\<lparr>w_faults := a\<rparr>) = files_inv P s" "files_inv P (s\<lparr>w_net := b\<rparr>) = files_inv P s"
  "files_inv P (s\<lparr>w_stdin := c\<rparr>) = files_inv P s" "files_inv P (s\<lparr>w_out := d\<rparr>) = files_inv P s"
  "files_inv P (s\<lparr>w_pos := e\<rparr>) = files_inv P s" "files_inv P (s\<lparr>w_cache := g\<rparr>) = files_inv P s"
  "files_inv P (s\<lparr>w_files := fs\<rparr>) = P fs"
  by (simp_all add: files_inv_def)

lemma preserves_ignore [preserves_intros]: "preserves I m \<Longrightarrow> preserves I (ignoreS m)"
  by (simp add: preserves_def ignoreS_def)

lemma preserves_try [preserves_intros]: "preserves I m \<Longrightarrow> preserves I (tryS m)"
  by (auto simp: preserves_def tryS_def split: prod.split)

lemma preserves_quiet [preserves_intros]:
  "preserves (files_inv P) (readFile p)" "preserves (files_inv P) (mkdirAll p)" "preserves (files_inv P) (stat_file p)"
  "preserves (files_inv P) read_line" "preserves (files_inv P) read_all" "preserves (files_inv P) (println l)" "preserves (files_inv P) (print_text l)"
  "preserves (files_inv P) (mustRandom n)" "preserves (files_inv P) get_now" "preserves (files_inv P) (post_once h a fm)"
  unfolding readFile_def mkdirAll_def stat_file_def
  by ((rule with_fault_preserves)?; auto
      simp: preserves_def read_line_def read_all_def println_def print_text_def mustRandom_def get_now_def post_once_def Let_def
      split: option.splits prod.splits list.splits)+

lemma preserves_postForm [preserves_intros]: "preserves (files_inv P) (postForm h dec zero a fm)"
  unfolding postForm_def by (auto intro!: preserves_intros split: prod.split)

lemma preserves_pullInto [preserves_intros]: "preserves (files_inv P) (pullInto h dec zero a act mach k ex)"
  unfolding pullInto_def Let_def by (intro preserves_intros)

lemma preserves_userRequestKey [preserves_intros]: "preserves (files_inv P) (userRequestKey h dec zero a act k ex)"
  unfolding userRequestKey_def Let_def by (intro preserves_intros)

text \<open>A request changes nothing but the server.\<close>

definition only_net :: "'n world \<Rightarrow> 'n world \<Rightarrow> bool" where
  "only_net s t \<longleftrightarrow> t\<lparr>w_net := w_net s\<rparr> = s"

lemma only_net_refl [simp]: "only_net s s"
  by (simp add: only_net_def)

lemma only_netD:
  assumes "only_net s t"
  shows "w_files t = w_files s" "w_faults t = w_faults s" "w_stdin t = w_stdin s" "w_out t = w_out s" "w_rand t = w_rand s"
    "w_pos t = w_pos s" "w_cache t = w_cache s" "w_now t = w_now s"
  using arg_cong [OF assms [unfolded only_net_def], of w_files] arg_cong [OF assms [unfolded only_net_def], of w_faults]
    arg_cong [OF assms [unfolded only_net_def], of w_stdin] arg_cong [OF assms [unfolded only_net_def], of w_out]
    arg_cong [OF assms [unfolded only_net_def], of w_rand] arg_cong [OF assms [unfolded only_net_def], of w_pos]
    arg_cong [OF assms [unfolded only_net_def], of w_cache] arg_cong [OF assms [unfolded only_net_def], of w_now] by simp_all

lemma only_net_requests [preserves_intros]:
  "preserves (only_net s) (post_once h a fm)" "preserves (only_net s) get_now"
  by (auto simp: preserves_def only_net_def post_once_def get_now_def split: prod.split option.split)

lemma only_net_calls:
  "preserves (only_net s) (postForm h dec zero a fm)" "preserves (only_net s) (pullInto h dec zero a act mach k ex)"
  "preserves (only_net s) (userRequestKey h dec zero a act k ex)"
  unfolding pullInto_def userRequestKey_def postForm_def Let_def by (intro preserves_intros)+

lemma request_frame:
  "postForm h dec zero a fm s = (r, t) \<Longrightarrow> only_net s t"
  "pullInto h dec zero a act mach k ex s = (r, t) \<Longrightarrow> only_net s t"
  "userRequestKey h dec zero a act k ex s = (r, t) \<Longrightarrow> only_net s t"
  by (erule preservesD [OF only_net_calls(1) only_net_refl] preservesD [OF only_net_calls(2) only_net_refl]
    preservesD [OF only_net_calls(3) only_net_refl])+

lemma preserves_writeFile:
  "(\<And>fs d' m'. P fs \<Longrightarrow> P (fs(p \<mapsto> \<lparr>fl_data = d', fl_mode = m'\<rparr>))) \<Longrightarrow> preserves (files_inv P) (writeFile p d m)"
  unfolding writeFile_def
  by (rule with_fault_preserves) (auto simp: preserves_def put_file_def files_inv_def split: fault.split)

lemma preserves_rename:
  "(\<And>fs x. P fs \<Longrightarrow> fs p = Some x \<Longrightarrow> P ((fs(p := None))(q \<mapsto> x))) \<Longrightarrow> preserves (files_inv P) (rename p q)"
  unfolding rename_def
  by (rule with_fault_preserves) (auto simp: preserves_def files_inv_def split: option.split)

lemma preserves_remove:
  "(\<And>fs. P fs \<Longrightarrow> P (fs(p := None))) \<Longrightarrow> preserves (files_inv P) (remove_file p)"
  unfolding remove_file_def
  by (rule with_fault_preserves) (auto simp: preserves_def files_inv_def split: option.split)

lemma preserves_link:
  "(\<And>fs x. P fs \<Longrightarrow> fs p = Some x \<Longrightarrow> fs q = None \<Longrightarrow> P (fs(q \<mapsto> x))) \<Longrightarrow> preserves (files_inv P) (link_file p q)"
  unfolding link_file_def
  by (rule with_fault_preserves) (auto simp: preserves_def files_inv_def split: option.split)

lemma hoare_try:
  assumes "hoare I m J K"
  shows "hoare I (tryS m) (\<lambda>r. case r of Inl e \<Rightarrow> K e | Inr x \<Rightarrow> J x) E"
proof (rule hoareI)
  fix s r t assume h: "I s" "tryS m s = (r, t)"
  obtain q u where q: "m s = (q, u)" by (cases "m s")
  show "case r of Inr x \<Rightarrow> (case x of Inl e \<Rightarrow> K e | Inr x \<Rightarrow> J x) t | Inl e \<Rightarrow> E e t"
    using hoareD [OF assms h(1) q] h(2) by (cases q) (auto simp: tryS_def q)
qed

lemma hoare_ignore:
  assumes "hoare I m (\<lambda>_. J) (\<lambda>_. J)"
  shows "hoare I (ignoreS m) (\<lambda>_. J) E"
proof (rule hoareI)
  fix s r t assume h: "I s" "ignoreS m s = (r, t)"
  obtain q u where q: "m s = (q, u)" by (cases "m s")
  show "case r of Inr _ \<Rightarrow> J t | Inl e \<Rightarrow> E e t"
    using hoareD [OF assms h(1) q] h(2) by (cases q) (auto simp: ignoreS_def q)
qed

text \<open>
  Bounded faults: the file \<open>p\<close> holds \<open>x\<close> and fewer than \<open>k\<close> operations can still fail.
\<close>

definition faults_left :: "'n world \<Rightarrow> nat" where
  "faults_left s = length (filter (\<lambda>f. f \<noteq> NoFault) (w_faults s))"

definition held :: "string \<Rightarrow> inode \<Rightarrow> nat \<Rightarrow> 'n world \<Rightarrow> bool" where
  "held p x k s \<longleftrightarrow> w_files s p = Some x \<and> faults_left s < k"

lemma with_fault_held:
  fixes g :: "fault \<Rightarrow> ('n, 'a) io"
  assumes "\<And>f s. w_files s p = Some x \<Longrightarrow> faults_left s < k \<Longrightarrow> held p x k (snd (g f s))"
  shows "preserves (held p x k) (with_fault g)"
  unfolding preserves_def
proof (intro allI impI)
  fix s :: "'n world" assume h: "held p x k s"
  show "held p x k (snd (with_fault g s))"
  proof (cases "w_faults s")
    case Nil
    then show ?thesis using h assms [of s NoFault] by (simp add: with_fault_def held_def)
  next
    case (Cons f fs)
    with h have "w_files (s\<lparr>w_faults := fs\<rparr>) p = Some x" "faults_left (s\<lparr>w_faults := fs\<rparr>) < k"
      by (auto simp: held_def faults_left_def split: if_splits)
    from assms [OF this, of f] Cons show ?thesis by (simp add: with_fault_def)
  qed
qed

lemma faults_left_simps [simp]:
  "faults_left (s\<lparr>w_files := a\<rparr>) = faults_left s" "faults_left (put_file q d m s) = faults_left s"
  "faults_left (s\<lparr>w_pos := b\<rparr>) = faults_left s" "faults_left (s\<lparr>w_stdin := c\<rparr>) = faults_left s"
  by (simp_all add: faults_left_def put_file_def)

lemma held_quiet:
  "preserves (held p x k) (readFile q)" "preserves (held p x k) (mkdirAll q)" "preserves (held p x k) (stat_file q)"
  "preserves (held p x k) (mustRandom n)"
  unfolding readFile_def mkdirAll_def stat_file_def
  by ((rule with_fault_held)?; auto simp: preserves_def held_def mustRandom_def split: option.split)+

lemma held_writes:
  assumes "q \<noteq> p"
  shows "preserves (held p x k) (writeFile q d m)" "preserves (held p x k) (remove_file q)"
    "preserves (held p x k) (link_file q p)"
  unfolding writeFile_def remove_file_def link_file_def
  by (insert assms) (rule with_fault_held; auto simp: held_def put_file_def faults_left_def split: option.split fault.split)+

text \<open>Where the file is there, \<open>os.Stat\<close> can only fail by using up a fault.\<close>

lemma held_stat: "hoare (held p x (Suc k)) (stat_file p) (\<lambda>_. held p x (Suc k)) (\<lambda>_. held p x k)"
  by (rule hoareI)
    (auto simp: stat_file_def with_fault_def held_def faults_left_def split: list.splits if_splits option.splits)

section \<open>Operations that meet no fault\<close>

lemma with_fault_ok: "w_faults s = [] \<Longrightarrow> with_fault g s = g NoFault s"
  by (simp add: with_fault_def)

lemma read_ok: "w_faults s = [] \<Longrightarrow> w_files s p = Some x \<Longrightarrow> readFile p s = (Inr (fl_data x), s)"
  by (simp add: readFile_def with_fault_def)

lemma write_ok: "w_faults s = [] \<Longrightarrow> writeFile p d m s = (Inr (), put_file p d m s)"
  by (simp add: writeFile_def with_fault_def)

lemma mkdir_ok: "w_faults s = [] \<Longrightarrow> mkdirAll p s = (Inr (), s)"
  by (simp add: mkdirAll_def with_fault_def)

lemma put_file_simps [simp]:
  "w_faults (put_file p d m s) = w_faults s" "w_stdin (put_file p d m s) = w_stdin s" "w_out (put_file p d m s) = w_out s"
  "w_net (put_file p d m s) = w_net s" "w_now (put_file p d m s) = w_now s" "w_rand (put_file p d m s) = w_rand s"
  "w_pos (put_file p d m s) = w_pos s" "w_cache (put_file p d m s) = w_cache s"
  "w_files (put_file p d m s) = (w_files s)(p \<mapsto> \<lparr>fl_data = d, fl_mode = (case w_files s p of None \<Rightarrow> m | Some x \<Rightarrow> fl_mode x)\<rparr>)"
  by (simp_all add: put_file_def)

section \<open>What a successful operation did\<close>

lemma writeFile_Inr:
  "writeFile p d m s = (Inr (), t) \<Longrightarrow> (\<exists>x. w_files t p = Some x \<and> fl_data x = d) \<and> (\<forall>q. q \<noteq> p \<longrightarrow> w_files t q = w_files s q)"
  by (auto simp: writeFile_def with_fault_def put_file_def split: list.splits fault.splits)

lemma readFile_Inr: "readFile p s = (Inr d, t) \<Longrightarrow> \<exists>x. w_files s p = Some x \<and> fl_data x = d \<and> w_files t = w_files s"
  by (auto simp: readFile_def with_fault_def split: list.splits if_splits option.splits)

lemma rename_Inr:
  "rename p q s = (Inr (), t) \<Longrightarrow> p \<noteq> q \<Longrightarrow> w_files t q = w_files s p \<and> (\<forall>r. r \<noteq> p \<longrightarrow> r \<noteq> q \<longrightarrow> w_files t r = w_files s r)"
  by (auto simp: rename_def with_fault_def split: list.splits if_splits option.splits)

lemma preserves_hoare: "hoare I m (\<lambda>_. I) (\<lambda>_. I) \<Longrightarrow> preserves I m"
proof (unfold preserves_def, intro allI impI)
  fix s assume h: "hoare I m (\<lambda>_. I) (\<lambda>_. I)" "I s"
  obtain r t where "m s = (r, t)" by (cases "m s")
  with hoareD [OF h this] show "I (snd (m s))" by (cases r) simp_all
qed

section \<open>The message a request signs\<close>

lemma auth_message_inject: "auth_message a t = auth_message b u \<longleftrightarrow> a = b \<and> unixOf t = unixOf u"
proof
  assume h: "auth_message a t = auth_message b u"
  have "CHR ''|'' \<notin> set (format_int z)" for z
    by (rule format_int_excludes) (simp_all add: digit_val_def)
  with last_field [of a "CHR ''|''" "format_int (unixOf t)" b "format_int (unixOf u)"] h
  show "a = b \<and> unixOf t = unixOf u"
    by (simp add: auth_message_def format_int_inject)
qed (simp add: auth_message_def)

end
