(* ===== verification/Settings.thy ===== *)
theory Settings
  imports World
begin

text \<open>
  Where a command takes its values from (\<open>cli.go\<close>, \<open>main.go\<close>, \<open>backup.go\<close>): the command line, the environment,
  the configuration file with its profiles and identities, and the answers typed at the terminal. Shown: which
  setting wins, what \<open>parseFlags\<close> reads back, and that \<open>shellQuote\<close> is one word to a shell.
\<close>

section \<open>Configuration\<close>

record profile =
  pr_URL :: string
  pr_Machine :: string
  pr_Key :: string
  pr_Out :: string

record identity =
  id_URL :: string
  id_Key :: string

record config =
  c_DefaultProfile :: string
  c_Profiles :: "string \<Rightarrow> profile option"
  c_DefaultIdentity :: string
  c_Identities :: "string \<Rightarrow> identity option"

definition empty_config :: config where
  "empty_config = \<lparr>c_DefaultProfile = [], c_Profiles = Map.empty, c_DefaultIdentity = [], c_Identities = Map.empty\<rparr>"

text \<open>
  The JSON of the configuration: \<open>dec_config\<close> gives whether \<open>json.Unmarshal\<close> into a configuration without
  entries succeeds and what it then holds, \<open>enc_config\<close> is \<open>json.MarshalIndent\<close>.
\<close>

record ('k, 's, 'n) cli_host = "('k, 's, 'n) host" +
  dec_config :: "string \<Rightarrow> bool \<times> config"
  enc_config :: "config \<Rightarrow> string"

definition defaultAPI :: string where "defaultAPI = ''https://p3sig.com/p3sig/api/index.php''"
definition defaultOut :: string where "defaultOut = ''/etc/p3sig/ssh''"

text \<open>A missing entry of a map is the zero value.\<close>

definition profile_of :: "config \<Rightarrow> string \<Rightarrow> profile" where
  "profile_of c n = (case c_Profiles c n of None \<Rightarrow> \<lparr>pr_URL = [], pr_Machine = [], pr_Key = [], pr_Out = []\<rparr> | Some p \<Rightarrow> p)"

definition identity_of :: "config \<Rightarrow> string \<Rightarrow> identity" where
  "identity_of c n = (case c_Identities c n of None \<Rightarrow> \<lparr>id_URL = [], id_Key = []\<rparr> | Some i \<Rightarrow> i)"

definition configReadPaths :: "('k, 's, 'n, 'x) cli_host_scheme \<Rightarrow> string list" where
  "configReadPaths h =
     (let c = getenv h ''P3SIG_CONFIG''
      in (if c \<noteq> [] then [c] else []) @
         (case h_config_dir h of
            None \<Rightarrow> []
          | Some base \<Rightarrow> if base \<noteq> [] then [path_join [base, ''p3sig'', ''config.json'']] else []) @
         [''/etc/p3sig/config.json''])"

text \<open>The configuration read and whether there was no error.\<close>

definition loadConfigFrom :: "('k, 's, 'n, 'x) cli_host_scheme \<Rightarrow> string \<Rightarrow> ('n, config \<times> bool) io" where
  "loadConfigFrom h path =
     bindS (tryS (readFile path)) (\<lambda>r. case r of
       Inl _ \<Rightarrow> retS (empty_config, False)
     | Inr data \<Rightarrow> (case dec_config h data of (ok, c) \<Rightarrow> retS (c, ok)))"

fun first_config :: "('k, 's, 'n, 'x) cli_host_scheme \<Rightarrow> string list \<Rightarrow> ('n, config \<times> string) io" where
  "first_config h [] = retS (empty_config, [])"
| "first_config h (p # ps) =
     bindS (loadConfigFrom h p) (\<lambda>(c, ok). if ok then retS (c, p) else first_config h ps)"

definition loadConfig :: "('k, 's, 'n, 'x) cli_host_scheme \<Rightarrow> ('n, config \<times> string) io" where
  "loadConfig h = first_config h (configReadPaths h)"

definition saveConfigTo :: "('k, 's, 'n, 'x) cli_host_scheme \<Rightarrow> string \<Rightarrow> config \<Rightarrow> ('n, unit) io" where
  "saveConfigTo h path c =
     bindS (mkdirAll (path_dir path)) (\<lambda>_. writeFile path (enc_config h c @ [nl]) mode600)"

definition userConfigPath :: "('k, 's, 'n, 'x) cli_host_scheme \<Rightarrow> string" where
  "userConfigPath h =
     (let base = (case h_config_dir h of None \<Rightarrow> [] | Some b \<Rightarrow> b);
          base = (if base = [] then path_join [h_home h, ''.config''] else base)
      in path_join [base, ''p3sig'', ''config.json''])"

text \<open>The configuration and key path \<open>init\<close> writes.\<close>

definition initPaths :: "('k, 's, 'n, 'x) cli_host_scheme \<Rightarrow> bool \<Rightarrow> string \<times> string" where
  "initPaths h system =
     (if system then (''/etc/p3sig/config.json'', ''/etc/p3sig/machine.key'')
      else let base = (case h_config_dir h of None \<Rightarrow> [] | Some b \<Rightarrow> b);
               base = (if base = [] then path_join [h_home h, ''.config''] else base);
               dir = path_join [base, ''p3sig'']
        in (path_join [dir, ''config.json''], path_join [dir, ''machine.key'']))"

section \<open>Which value is used\<close>

definition pickProfile :: "('k, 's, 'n, 'x) cli_host_scheme \<Rightarrow> flags \<Rightarrow> config \<Rightarrow> profile" where
  "pickProfile h f c =
     profile_of c (firstNonEmpty [flag f ''profile'', getenv h ''P3SIG_PROFILE'', c_DefaultProfile c, ''default''])"

definition resolveRaw :: "('k, 's, 'n, 'x) cli_host_scheme \<Rightarrow> flags \<Rightarrow> ('n, string \<times> string \<times> string \<times> string) io" where
  "resolveRaw h f =
     bindS (loadConfig h) (\<lambda>(c, _).
     let p = pickProfile h f c
     in retS (firstNonEmpty [flag f ''url'', getenv h ''P3SIG_URL'', pr_URL p, defaultAPI],
              firstNonEmpty [flag f ''machine'', getenv h ''P3SIG_MACHINE'', pr_Machine p],
              firstNonEmpty [flag f ''key'', getenv h ''P3SIG_KEY'', pr_Key p],
              firstNonEmpty [flag f ''out'', getenv h ''P3SIG_OUT'', pr_Out p, defaultOut]))"

definition resolveIdentity :: "('k, 's, 'n, 'x) cli_host_scheme \<Rightarrow> flags \<Rightarrow> ('n, string \<times> string) io" where
  "resolveIdentity h f =
     bindS (loadConfig h) (\<lambda>(c, _).
     let name = firstNonEmpty [flag f ''identity'', getenv h ''P3SIG_IDENTITY'', c_DefaultIdentity c, ''default''];
         i = identity_of c name;
         apiBase = firstNonEmpty [flag f ''url'', getenv h ''P3SIG_URL'', id_URL i, defaultAPI];
         keyPath = firstNonEmpty [flag f ''key'', getenv h ''P3SIG_VAULT_KEY'', id_Key i]
     in if keyPath = [] then failS (Msg ''no vault key'') else retS (apiBase, keyPath))"

definition resolveAnyKeyPath :: "('k, 's, 'n, 'x) cli_host_scheme \<Rightarrow> flags \<Rightarrow> ('n, string) io" where
  "resolveAnyKeyPath h f =
     bindS (loadConfig h) (\<lambda>(c, _).
     let idName = firstNonEmpty [flag f ''identity'', getenv h ''P3SIG_IDENTITY'', c_DefaultIdentity c, ''default''];
         profName = firstNonEmpty [flag f ''profile'', getenv h ''P3SIG_PROFILE'', c_DefaultProfile c, ''default''];
         p = firstNonEmpty [flag f ''key'', getenv h ''P3SIG_VAULT_KEY'', id_Key (identity_of c idName),
               getenv h ''P3SIG_KEY'', pr_Key (profile_of c profName)]
     in if p = [] then failS (Msg ''no key to back up'') else retS p)"

text \<open>\<open>--root\<close> and \<open>--require-signed\<close> with their environment variables\<close>

definition signedFlags :: "('k, 's, 'n, 'x) cli_host_scheme \<Rightarrow> flags \<Rightarrow> string \<times> bool" where
  "signedFlags h f =
     (firstNonEmpty [flag f ''root'', getenv h ''P3SIG_ROOT''],
      flag f ''require-signed'' = ''true'' \<or> getenv h ''P3SIG_REQUIRE_SIGNED'' = ''1'')"

section \<open>The command line\<close>

fun parse_loop :: "flags \<Rightarrow> string list \<Rightarrow> flags" where
  "parse_loop fl [] = fl"
| "parse_loop fl [a] = (if prefix ''--'' a then fl(trim_prefix a ''--'' \<mapsto> ''true'') else fl)"
| "parse_loop fl (a # b # as) =
     (if prefix ''--'' a then
        (if \<not> prefix ''--'' b then parse_loop (fl(trim_prefix a ''--'' \<mapsto> b)) as
         else parse_loop (fl(trim_prefix a ''--'' \<mapsto> ''true'')) (b # as))
      else parse_loop fl (b # as))"

definition parseFlags :: "string list \<Rightarrow> flags" where
  "parseFlags args = parse_loop Map.empty args"

fun firstPositional :: "string list \<Rightarrow> string" where
  "firstPositional [] = []"
| "firstPositional [a] = (if prefix ''--'' a then [] else a)"
| "firstPositional (a # b # as) =
     (if prefix ''--'' a then (if \<not> prefix ''--'' b then firstPositional as else firstPositional (b # as))
      else a)"

definition shellQuote :: "string \<Rightarrow> string" where
  "shellQuote s =
     [CHR 0x27] @ concat (map (\<lambda>c. if c = CHR 0x27 then [CHR 0x27, CHR 0x5C, CHR 0x27, CHR 0x27] else [c]) s) @ [CHR 0x27]"

section \<open>The terminal\<close>

text \<open>
  \<open>strings.ToLower\<close> is compared with ASCII words that no other character lowers to; the prompts are
  left out.
\<close>

definition ask :: "string \<Rightarrow> ('n, string) io" where
  "ask def = bindS read_line (\<lambda>line. let line = trim_space line in retS (if line \<noteq> [] then line else def))"

definition confirm :: "('n, bool) io" where
  "confirm = bindS read_line (\<lambda>line.
     let line = map lower_char (trim_space line) in retS (line = ''y'' \<or> line = ''yes''))"

definition readLineRaw :: "('n, string) io" where
  "readLineRaw = bindS read_line (\<lambda>line. retS (trim_right (takeWhile (\<lambda>c. c \<noteq> nl) line) [cr]))"

definition readPassphrase :: "('k, 's, 'n, 'x) host_scheme \<Rightarrow> ('n, string) io" where
  "readPassphrase h =
     (case h_env h ''P3SIG_PASSPHRASE'' of Some p \<Rightarrow> retS p | None \<Rightarrow> readLineRaw)"

definition readPassphraseConfirmed :: "('k, 's, 'n, 'x) host_scheme \<Rightarrow> ('n, string) io" where
  "readPassphraseConfirmed h =
     bindS (readPassphrase h) (\<lambda>a.
     if a = [] then retS []
     else bindS (readPassphrase h) (\<lambda>b.
       if a \<noteq> b then failS (Msg ''passphrases did not match'') else retS a))"

text \<open>\<open>--out\<close> text helpers\<close>

definition indent :: "string \<Rightarrow> string" where
  "indent s = join_with [nl] (map (\<lambda>l. ''    '' @ l) (split_on nl (trim_right s [nl])))"

text \<open>\<open>strings.LastIndex(api, "api/index.php")\<close>: the length of the longest prefix that the text follows.\<close>

definition last_index :: "string \<Rightarrow> string \<Rightarrow> nat option" where
  "last_index s t = find (\<lambda>i. prefix t (drop i s)) (rev [0..<Suc (length s)])"

definition deriveAppURL :: "string \<Rightarrow> string" where
  "deriveAppURL api =
     (case last_index api ''api/index.php'' of
        Some i \<Rightarrow> take i api @ ''app/''
      | None \<Rightarrow> trim_right api ''/'' @ ''/app/'')"

definition bundleSuffix :: "string \<Rightarrow> string" where
  "bundleSuffix b = (if b = [] then [] else '' in bundle '' @ b)"

definition short :: "string \<Rightarrow> string" where
  "short s = (if length s \<le> 14 then s else take 14 s @ [CHR 0xE2, CHR 0x80, CHR 0xA6])"

section \<open>Flags are read back\<close>

lemma parse_loop_pairs:
  assumes "list_all (\<lambda>(k, v). \<not> prefix ''--'' v) kvs"
  shows "parse_loop fl (concat (map (\<lambda>(k, v). [''--'' @ k, v]) kvs)) = fl ++ map_of (rev kvs)"
  using assms
proof (induction kvs arbitrary: fl)
  case (Cons kv kvs)
  obtain k v where kv: "kv = (k, v)" by (cases kv)
  have k: "trim_prefix (''--'' @ k) ''--'' = k" by (simp add: trim_prefix_def)
  from Cons show ?case by (simp add: kv k [simplified] map_add_def split: option.split) (rule ext, simp split: option.split)
qed simp

section \<open>A quoted value is one word to the shell\<close>

text \<open>
  How a POSIX shell reads one word: text in single quotes stands for itself, a backslash outside quotes
  takes the next character as it is, and an unquoted space, newline or operator ends the word.
\<close>

definition sh_ends :: "char \<Rightarrow> bool" where
  "sh_ends c \<longleftrightarrow> c \<in> set [CHR '' '', nl, CHR 0x09, CHR '';'', CHR ''&'', CHR ''|'', CHR ''<'', CHR ''>'', CHR ''('', CHR '')'']"

definition sh_special :: "char \<Rightarrow> bool" where
  "sh_special c \<longleftrightarrow> c \<in> set [CHR ''$'', CHR 0x60, CHR 0x22, CHR ''*'', CHR ''?'', CHR ''['', CHR ''~'', CHR ''#'', CHR ''!'']"

text \<open>The word and the rest; \<open>None\<close> where the text is not that simple (an open quote, an expansion).\<close>

fun sh_word :: "bool \<Rightarrow> string \<Rightarrow> (string \<times> string) option" where
  "sh_word True [] = None"
| "sh_word False [] = Some ([], [])"
| "sh_word True (c # cs) =
     (if c = CHR 0x27 then sh_word False cs else map_option (apfst (\<lambda>w. c # w)) (sh_word True cs))"
| "sh_word False (c # cs) =
     (if c = CHR 0x27 then sh_word True cs
      else if c = CHR 0x5C then (case cs of [] \<Rightarrow> None | d # ds \<Rightarrow> map_option (apfst (\<lambda>w. d # w)) (sh_word False ds))
      else if sh_ends c then Some ([], c # cs)
      else if sh_special c then None
      else map_option (apfst (\<lambda>w. c # w)) (sh_word False cs))"

lemma sh_word_quoted:
  "sh_word True (concat (map (\<lambda>c. if c = CHR 0x27 then [CHR 0x27, CHR 0x5C, CHR 0x27, CHR 0x27] else [c]) s) @ CHR 0x27 # rest)
   = map_option (apfst (\<lambda>w. s @ w)) (sh_word False rest)"
proof (induction s)
  case Nil
  then show ?case by (cases "sh_word False rest") (simp_all add: apfst_def map_prod_def split: prod.split)
next
  case (Cons c s)
  then show ?case by (cases "sh_word False rest") (auto simp: apfst_def map_prod_def split: prod.splits)
qed

lemma sh_word_shellQuote: "sh_ends e \<Longrightarrow> sh_word False (shellQuote s @ e # rest) = Some (s, e # rest)"
  using sh_word_quoted [of s "e # rest"] by (auto simp: shellQuote_def sh_ends_def)

section \<open>What the settings lookups change\<close>

lemma preserves_loadConfig [preserves_intros]: "preserves (files_inv P) (loadConfig h)"
proof -
  have "preserves (files_inv P) (first_config h ps)" for ps
    unfolding loadConfigFrom_def by (induction ps) (simp_all only: first_config.simps loadConfigFrom_def, (intro preserves_intros | assumption)+)
  then show ?thesis by (simp add: loadConfig_def)
qed

lemma preserves_resolve [preserves_intros]:
  "preserves (files_inv P) (resolveRaw h f)" "preserves (files_inv P) (resolveIdentity h f)" "preserves (files_inv P) (resolveAnyKeyPath h f)"
  unfolding resolveRaw_def resolveIdentity_def resolveAnyKeyPath_def Let_def
  by (intro preserves_intros)+

lemma preserves_terminal [preserves_intros]:
  "preserves (files_inv P) (ask d)" "preserves (files_inv P) confirm" "preserves (files_inv P) readLineRaw"
  "preserves (files_inv P) (readPassphrase h)" "preserves (files_inv P) (readPassphraseConfirmed h)"
  unfolding ask_def confirm_def readLineRaw_def readPassphrase_def readPassphraseConfirmed_def Let_def
  by (intro preserves_intros)+

end
