(* ===== verification/UsbVault.thy ===== *)
theory UsbVault
  imports Settings
begin

text \<open>
  Vault sticks (\<open>usbvault.go\<close>, \<open>usbdetect_other.go\<close>): recognising a stick, writing the wrapped key so that an existing
  one is never replaced, reading it back, and the \<open>usb:\<close> key source; the account step (\<open>usbRegister\<close>, \<open>addVaultKey\<close>) is
  in a later theory. Shown: after a successful \<open>storeOnUSB\<close> the stick holds the key under the passphrase, whatever
  failed on the way; a key already on the stick is still there, byte for byte, after any attempt to write another.
\<close>

section \<open>Text functions\<close>

text \<open>\<open>strings.Fields\<close> and \<open>strings.ReplaceAll\<close>\<close>

fun until_space :: "string \<Rightarrow> string \<times> string" where
  "until_space [] = ([], [])"
| "until_space (c # cs) =
     (if list_ex (\<lambda>w. prefix w (c # cs)) go_spaces then ([], c # cs)
      else case until_space cs of (a, b) \<Rightarrow> (c # a, b))"

fun split_fields_fuel :: "nat \<Rightarrow> string \<Rightarrow> string list" where
  "split_fields_fuel 0 s = []"
| "split_fields_fuel (Suc n) s =
     (let t = strip_seqs (length s) go_spaces s
      in if t = [] then [] else case until_space t of (w, rest) \<Rightarrow> w # split_fields_fuel n rest)"

definition split_fields :: "string \<Rightarrow> string list" where
  "split_fields s = split_fields_fuel (Suc (length s)) s"

fun replace_all :: "string \<Rightarrow> string \<Rightarrow> string \<Rightarrow> string" where
  "replace_all p r [] = []"
| "replace_all p r (c # cs) =
     (if p \<noteq> [] \<and> prefix p (c # cs) then r @ replace_all p r (drop (length p - 1) cs) else c # replace_all p r cs)"

section \<open>Drives\<close>

text \<open>
  \<open>h_goos\<close> is \<open>runtime.GOOS\<close>, \<open>h_read_dir\<close> is \<open>os.ReadDir\<close> (the names), \<open>h_symlink\<close> \<open>filepath.EvalSymlinks\<close> (empty on an error), \<open>h_key_line\<close> and
  \<open>h_key_fp\<close> the OpenSSH line and fingerprint of an Ed25519 public key, \<open>h_raw_key\<close> \<open>ssh.ParseRawPrivateKey\<close>: \<open>None\<close> an error,
  \<open>Some None\<close> a key of another kind.
\<close>

record ('k, 's, 'n) usb_host = "('k, 's, 'n) cli_host" +
  h_goos :: string
  h_read_dir :: "string \<Rightarrow> string list option"
  h_symlink :: "string \<Rightarrow> string"
  h_key_line :: "bytes \<Rightarrow> string"
  h_key_fp :: "bytes \<Rightarrow> string"
  h_raw_key :: "string \<Rightarrow> bytes option option"

definition usbDir :: string where "usbDir = ''P3SIG''"
definition usbKeyFile :: string where "usbKeyFile = ''vault.p3w''"
definition usbPubFile :: string where "usbPubFile = ''PUBLIC-KEY.txt''"

definition usbKeyPath :: "string \<Rightarrow> string" where
  "usbKeyPath drive = path_join [drive, usbDir, usbKeyFile]"

definition usbIgnorable :: "string list" where
  "usbIgnorable = [''System Volume Information'', ''.Trashes'', ''.Spotlight-V100'', ''.fseventsd'', ''.DS_Store'',
     ''._.Trashes'', ''lost+found'', ''.metadata_never_index'']"

text \<open>macOS: the volumes, without the boot volume, which is a link to the root.\<close>

definition darwin_mounts :: "('k, 's, 'n, 'x) usb_host_scheme \<Rightarrow> string list" where
  "darwin_mounts h =
     filter (\<lambda>p. h_symlink h p \<noteq> ''/'')
       (map (\<lambda>e. path_join [''/Volumes'', e]) (case h_read_dir h ''/Volumes'' of None \<Rightarrow> [] | Some ents \<Rightarrow> ents))"

text \<open>Linux: a line of \<open>/proc/mounts\<close> for a SCSI disk that is removable or on USB.\<close>

definition mount_of :: "('k, 's, 'n, 'x) usb_host_scheme \<Rightarrow> string \<Rightarrow> ('n, string list) io" where
  "mount_of h line =
     (let f = split_fields line
      in if length f < 2 \<or> \<not> prefix ''/dev/sd'' (hd f) then retS []
         else let disk = trim_right (trim_prefix (f ! 0) ''/dev/'') ''0123456789''
           in bindS (tryS (readFile (''/sys/block/'' @ disk @ ''/removable''))) (\<lambda>r.
              let rem = (case r of Inl _ \<Rightarrow> [] | Inr d \<Rightarrow> d);
                  link = h_symlink h (''/sys/block/'' @ disk)
              in retS (if trim_space rem = ''1'' \<or> sublist ''/usb'' link
                       then [replace_all [CHR 0x5C, CHR ''0'', CHR ''4'', CHR ''0''] '' '' (f ! 1)] else [])))"

definition removableMounts :: "('k, 's, 'n, 'x) usb_host_scheme \<Rightarrow> ('n, string list) io" where
  "removableMounts h =
     (if h_goos h = ''darwin'' then retS (darwin_mounts h)
      else bindS (tryS (readFile ''/proc/mounts'')) (\<lambda>r. case r of
        Inl _ \<Rightarrow> retS []
      | Inr data \<Rightarrow> bindS (mapS (mount_of h) (split_on nl data)) (\<lambda>ms. retS (concat ms))))"

definition usbState :: "('k, 's, 'n, 'x) usb_host_scheme \<Rightarrow> string \<Rightarrow> ('n, string) io" where
  "usbState h drive =
     bindS (tryS (stat_file (usbKeyPath drive))) (\<lambda>st. case st of
       Inr _ \<Rightarrow> retS ''p3sig''
     | Inl _ \<Rightarrow> (case h_read_dir h drive of
           None \<Rightarrow> failS IoError
         | Some ents \<Rightarrow>
             if list_all (\<lambda>e. e \<in> set usbIgnorable \<or> e = usbDir) ents then retS ''blank'' else failS (Msg ''is not empty'')))"

section \<open>Writing and reading the key\<close>

text \<open>\<open>os.OpenFile\<close> with \<open>O_EXCL\<close>, a write through the handle, and \<open>Sync\<close> or \<open>Close\<close>\<close>

definition create_excl :: "string \<Rightarrow> nat \<Rightarrow> ('n, unit) io" where
  "create_excl p m = with_fault (\<lambda>f s.
     if f \<noteq> NoFault then (Inl IoError, s)
     else case w_files s p of Some _ \<Rightarrow> (Inl Exists, s) | None \<Rightarrow> (Inr (), put_file p [] m s))"

definition write_handle :: "string \<Rightarrow> string \<Rightarrow> ('n, unit) io" where
  "write_handle p d = writeFile p d mode600"

definition sync_handle :: "('n, unit) io" where
  "sync_handle = with_fault (\<lambda>f s. if f \<noteq> NoFault then (Inl IoError, s) else (Inr (), s))"

text \<open>The temporary file, written and closed: the first error of write, sync and close.\<close>

definition write_partial :: "string \<Rightarrow> bytes \<Rightarrow> ('n, err + unit) io" where
  "write_partial tmp blob =
     bindS (tryS (bindS (write_handle tmp (string_of blob)) (\<lambda>_. sync_handle))) (\<lambda>w.
     bindS (tryS sync_handle) (\<lambda>c. retS (case w of Inl e \<Rightarrow> Inl e | Inr _ \<Rightarrow> c)))"

text \<open>The final name: a hard link, or a rename where there are none.\<close>

definition install_key :: "string \<Rightarrow> string \<Rightarrow> ('n, err + unit) io" where
  "install_key tmp final =
     bindS (tryS (link_file tmp final)) (\<lambda>l. case l of
       Inr _ \<Rightarrow> retS (Inr ())
     | Inl e \<Rightarrow> if e = Exists then retS (Inl e)
         else bindS (tryS (stat_file final)) (\<lambda>st. case st of
             Inr _ \<Rightarrow> retS (Inl Exists)
           | Inl _ \<Rightarrow> tryS (rename tmp final)))"

definition writeUSBKey :: "('k, 's, 'n, 'x) usb_host_scheme \<Rightarrow> string \<Rightarrow> bytes \<Rightarrow> bytes \<Rightarrow> ('n, unit) io" where
  "writeUSBKey h drive blob pub =
     (let dir = path_join [drive, usbDir]; final = usbKeyPath drive; tmp = final @ ''.partial''
      in bindS (mkdirAll dir) (\<lambda>_.
         bindS (tryS (stat_file final)) (\<lambda>st. case st of
           Inr _ \<Rightarrow> failS (Msg ''already holds a key'')
         | Inl _ \<Rightarrow>
             bindS (ignoreS (remove_file tmp)) (\<lambda>_.
             bindS (create_excl tmp mode600) (\<lambda>_.
             bindS (write_partial tmp blob) (\<lambda>w.
             bindS (case w of Inl e \<Rightarrow> retS (Inl e) | Inr _ \<Rightarrow> install_key tmp final) (\<lambda>res.
             bindS (ignoreS (remove_file tmp)) (\<lambda>_.
             case res of
               Inl e \<Rightarrow> failS (Ctx ''writing'' e)
             | Inr _ \<Rightarrow> ignoreS (writeFile (path_join [dir, usbPubFile])
                   (h_key_line h pub @ '' p3sig-vault'' @ [nl] @ h_key_fp h pub @ [nl]) mode644)))))))))"

definition readUSBKey :: "('k, 's, 'n, 'x) usb_host_scheme \<Rightarrow> string \<Rightarrow> string \<Rightarrow> ('n, bytes) io" where
  "readUSBKey h drive passphrase =
     bindS (readFile (usbKeyPath drive)) (\<lambda>blob.
     case UnwrapPassphrase (h_wrap h) (bytes_of blob) (bytes_of passphrase) of
       Inl _ \<Rightarrow> failS (Msg ''wrong passphrase'')
     | Inr raw \<Rightarrow> if length raw \<noteq> privateKeySize then failS (EWrap ErrBadFormat) else retS raw)"

definition storeOnUSB :: "('k, 's, 'n, 'x) usb_host_scheme \<Rightarrow> string \<Rightarrow> bytes \<Rightarrow> string \<Rightarrow> argon2Params \<Rightarrow> ('n, unit) io" where
  "storeOnUSB h drive key passphrase p =
     bindS (usbState h drive) (\<lambda>st.
     bindS (if st = ''blank'' then
              bindS (mustRandom saltLen) (\<lambda>salt.
              bindS (mustRandom nonceLen) (\<lambda>nonce.
              writeUSBKey h drive (WrapPassphrase (h_wrap h) salt nonce key (bytes_of passphrase) p) (public_of key)))
            else retS ()) (\<lambda>_.
     bindS (wrapS (Ctx drive) (readUSBKey h drive passphrase)) (\<lambda>got.
     if got \<noteq> key then failS (Msg ''holds a DIFFERENT key'') else retS ())))"

section \<open>Choosing a drive and a passphrase\<close>

text \<open>\<open>fmt.Sscanf(line, "%d", &n)\<close>: a sign and the digits that follow; what comes after them is not read.\<close>

definition scan_int :: "string \<Rightarrow> int option" where
  "scan_int s =
     (let sign = takeWhile (\<lambda>c. c = CHR ''-'' \<or> c = CHR ''+'') (take 1 s);
          ds = takeWhile (\<lambda>c. digit_val c \<noteq> None) (drop (length sign) s)
      in parse_int64 (sign @ ds))"

definition candidate :: "bool \<Rightarrow> string \<Rightarrow> ('n, string list) io" where
  "candidate wantKey m =
     bindS (tryS (stat_file (usbKeyPath m))) (\<lambda>st.
       let has = (case st of Inl _ \<Rightarrow> False | Inr _ \<Rightarrow> True)
       in retS (if has = wantKey \<or> \<not> wantKey then [m] else []))"

definition pickUSB :: "('k, 's, 'n, 'x) usb_host_scheme \<Rightarrow> flags \<Rightarrow> bool \<Rightarrow> ('n, string) io" where
  "pickUSB h f wantKey =
     (let d = flag f ''drive''
      in if d \<noteq> [] \<and> d \<noteq> ''true'' then retS d
         else bindS (removableMounts h) (\<lambda>mounts.
              bindS (mapS (candidate wantKey) mounts) (\<lambda>cs.
              let cands = concat cs
              in if cands = [] then failS (Msg ''no drive found'')
                 else bindS (if length cands > 1 then
                               bindS read_line (\<lambda>line. case scan_int (trim_space line) of
                                 None \<Rightarrow> failS (Msg ''no drive picked'')
                               | Some n \<Rightarrow> if n < 1 \<or> n > int (length cands) then failS (Msg ''no drive picked'')
                                   else retS (cands ! (nat n - 1)))
                             else retS (hd cands)) (\<lambda>pick.
                      bindS confirm (\<lambda>ok. if ok then retS pick else failS (Msg ''stopped''))))))"

definition newUSBPassphrase :: "('k, 's, 'n, 'x) usb_host_scheme \<Rightarrow> ('n, string) io" where
  "newUSBPassphrase h =
     (case h_env h ''P3SIG_PASSPHRASE'' of
        Some p \<Rightarrow> retS p
      | None \<Rightarrow>
          bindS (readPassphrase h) (\<lambda>a.
          if length a < 8 then failS (Msg ''use a passphrase of at least 8 characters'')
          else bindS (readPassphrase h) (\<lambda>b.
            if a \<noteq> b then failS (Msg ''passphrases did not match'') else retS a)))"

section \<open>The \<open>usb:\<close> key source\<close>

definition isUSBSpec :: "string \<Rightarrow> bool" where
  "isUSBSpec spec \<longleftrightarrow> spec = ''usb'' \<or> prefix ''usb:'' spec"

definition usbKey :: "('k, 's, 'n, 'x) usb_host_scheme \<Rightarrow> string \<Rightarrow> ('n, bytes) io" where
  "usbKey h spec s =
     (case w_cache s spec of
        Some k \<Rightarrow> (Inr k, s)
      | None \<Rightarrow>
          bindS (pickUSB h [''drive'' \<mapsto> trim_prefix (trim_prefix spec ''usb'') '':''] True) (\<lambda>drive.
          bindS (readPassphrase h) (\<lambda>p.
          bindS (readUSBKey h drive p) (\<lambda>key t.
          (Inr key, t\<lparr>w_cache := (w_cache t)(spec \<mapsto> key)\<rparr>)))) s)"

definition loadKeyFile :: "('k, 's, 'n, 'x) usb_host_scheme \<Rightarrow> string \<Rightarrow> ('n, bytes) io" where
  "loadKeyFile h path =
     bindS (readFile path) (\<lambda>data.
     let raw = b64_decode (trim_space data)
     in if (case raw of None \<Rightarrow> False | Some r \<Rightarrow> length r = privateKeySize) then retS (the raw)
        else case h_raw_key h data of
            None \<Rightarrow> failS (Msg ''ssh: no key found'')
          | Some None \<Rightarrow> failS (Msg ''is not an Ed25519 key'')
          | Some (Some k) \<Rightarrow> retS k)"

section \<open>\<open>p3sig usb init\<close> and \<open>clone\<close>\<close>

definition cloneTo :: "('k, 's, 'n, 'x) usb_host_scheme \<Rightarrow> flags \<Rightarrow> bytes \<Rightarrow> ('n, unit) io" where
  "cloneTo h f key =
     bindS (pickUSB h f False) (\<lambda>drive.
     bindS (newUSBPassphrase h) (\<lambda>pass.
     storeOnUSB h drive key pass DefaultArgon2))"

text \<open>\<open>ed25519.GenerateKey\<close>: 32 random bytes and the public key they make.\<close>

definition generateKey :: "('k, 's, 'n, 'x) host_scheme \<Rightarrow> ('n, bytes) io" where
  "generateKey h = bindS (mustRandom 32) (\<lambda>seed. retS (seed @ h_public h seed))"

text \<open>The key and passphrase of the DAILY stick: resumed from it, migrated from a file, or new.\<close>

definition daily_key :: "('k, 's, 'n, 'x) usb_host_scheme \<Rightarrow> flags \<Rightarrow> string \<Rightarrow> string \<Rightarrow> ('n, bytes \<times> string) io" where
  "daily_key h f drive st =
     (if st = ''p3sig'' then
        bindS (readPassphrase h) (\<lambda>p.
        bindS (readUSBKey h drive p) (\<lambda>key. retS (key, p)))
      else
        bindS (if flag f ''from'' \<noteq> [] \<and> flag f ''from'' \<noteq> ''true''
               then wrapS (Ctx ''--from'') (loadKeyFile h (flag f ''from'')) else generateKey h) (\<lambda>key.
        bindS (newUSBPassphrase h) (\<lambda>pass. retS (key, pass))))"

definition usbInit :: "('k, 's, 'n, 'x) usb_host_scheme \<Rightarrow> (bytes \<Rightarrow> ('n, unit) io) \<Rightarrow> flags \<Rightarrow> ('n, unit) io" where
  "usbInit h register f =
     bindS (pickUSB h f False) (\<lambda>drive.
     bindS (usbState h drive) (\<lambda>st.
     bindS (daily_key h f drive st) (\<lambda>(key, pass).
     bindS (storeOnUSB h drive key pass DefaultArgon2) (\<lambda>_.
     bindS read_line (\<lambda>line.
     if \<not> suffix [nl] line then retS ()
     else bindS (cloneTo h f key) (\<lambda>_. register key))))))"

definition usbClone :: "('k, 's, 'n, 'x) usb_host_scheme \<Rightarrow> flags \<Rightarrow> ('n, unit) io" where
  "usbClone h f =
     bindS (pickUSB h [''drive'' \<mapsto> flag f ''drive''] True) (\<lambda>src.
     bindS (readPassphrase h) (\<lambda>p.
     bindS (readUSBKey h src p) (\<lambda>key.
     bindS read_line (\<lambda>_. cloneTo h [''drive'' \<mapsto> flag f ''to''] key))))"

section \<open>A key on a stick is never replaced\<close>

text \<open>The final name is only ever written by \<open>install_key\<close>, and only when it is free.\<close>

definition keeps :: "string \<Rightarrow> inode \<Rightarrow> 'n world \<Rightarrow> bool" where
  "keeps p x s \<longleftrightarrow> w_files s p = Some x"

lemma held_keeps: "held p x k s \<Longrightarrow> keeps p x s"
  by (simp add: held_def keeps_def)

lemma held_0 [simp]: "\<not> held p x 0 s"
  by (simp add: held_def)

lemma keep_pres: "preserves (held p x k) m \<Longrightarrow> hoare (held p x k) m (\<lambda>_. held p x k) (\<lambda>_. keeps p x)"
  by (auto simp: hoare_def dest: preservesD held_keeps split: sum.split)

lemma stat_try: "hoare (held p x (Suc k)) (tryS (stat_file p)) (\<lambda>r. case r of Inl e \<Rightarrow> held p x k | Inr u \<Rightarrow> held p x (Suc k)) E"
  by (rule hoare_try [OF held_stat])

lemma held_sync: "preserves (held p x k) sync_handle"
  unfolding sync_handle_def by (rule with_fault_held) (auto simp: held_def)

lemma held_handles:
  assumes "q \<noteq> p"
  shows "preserves (held p x k) (create_excl q m)" "preserves (held p x k) (write_partial q b)"
proof -
  show "preserves (held p x k) (create_excl q m)"
    unfolding create_excl_def using assms
    by - (rule with_fault_held; auto simp: held_def put_file_def faults_left_def split: option.split)
  show "preserves (held p x k) (write_partial q b)"
    unfolding write_partial_def write_handle_def
    by (intro preserves_intros held_writes assms held_sync)
qed

lemma install_keeps:
  assumes "tmp \<noteq> final"
  shows "hoare (held final x (Suc 0)) (install_key tmp final) (\<lambda>_. keeps final x) (\<lambda>_. keeps final x)"
  unfolding install_key_def
proof (rule hoare_bind [where M = "\<lambda>_. held final x (Suc 0)"])
  show "hoare (held final x (Suc 0)) (tryS (link_file tmp final)) (\<lambda>_. held final x (Suc 0)) (\<lambda>_. keeps final x)"
    by (intro keep_pres preserves_intros held_writes assms)
next
  fix l :: "err + unit"
  have "hoare (held final x (Suc 0)) (tryS (stat_file final))
      (\<lambda>r. case r of Inl e \<Rightarrow> held final x 0 | Inr u \<Rightarrow> held final x (Suc 0)) (\<lambda>_. keeps final x)"
    by (rule stat_try)
  then have "hoare (held final x (Suc 0))
     (bindS (tryS (stat_file final)) (\<lambda>st. case st of Inl e \<Rightarrow> tryS (rename tmp final) | Inr v \<Rightarrow> retS (Inl Exists)))
     (\<lambda>_. keeps final x) (\<lambda>_. keeps final x)"
    by (rule hoare_bind) (auto simp: hoare_def dest: held_keeps split: sum.splits)
  then show "hoare (held final x (Suc 0))
     (case l of Inl e \<Rightarrow> if e = Exists then retS (Inl e)
         else bindS (tryS (stat_file final)) (\<lambda>st. case st of Inl e \<Rightarrow> tryS (rename tmp final) | Inr v \<Rightarrow> retS (Inl Exists))
      | Inr v \<Rightarrow> retS (Inr ()))
     (\<lambda>_. keeps final x) (\<lambda>_. keeps final x)"
    by (auto intro!: hoare_sum hoare_ret dest: held_keeps split: if_split)
qed

lemma plain_usb [simp]: "plain_name usbDir" "plain_name usbKeyFile" "plain_name usbPubFile" "plain_name (usbKeyFile @ ''.partial'')"
  by (simp_all add: plain_name_def usbDir_def usbKeyFile_def usbPubFile_def)

lemma usb_paths:
  "usbKeyPath d @ ''.partial'' \<noteq> usbKeyPath d"
  "path_join [path_join [d, usbDir], usbPubFile] \<noteq> usbKeyPath d"
  using path_join_join [of "[usbDir]" "[usbPubFile]" d]
  by (simp_all add: usbKeyPath_def usbKeyFile_def usbPubFile_def plain_usb [unfolded usbKeyFile_def usbPubFile_def])

lemma keeps_files: "keeps p x = files_inv (\<lambda>fs. fs p = Some x)"
  by (simp add: keeps_def files_inv_def fun_eq_iff)

lemma keeps_other:
  assumes "q \<noteq> p"
  shows "preserves (keeps p x) (writeFile q d m)" "preserves (keeps p x) (remove_file q)"
  unfolding keeps_files using assms by - (intro preserves_writeFile preserves_remove; simp)+

lemma write_keeps:
  "hoare (held (usbKeyPath d) x (Suc (Suc 0))) (writeUSBKey h d blob pub) (\<lambda>_. keeps (usbKeyPath d) x) (\<lambda>_. keeps (usbKeyPath d) x)"
proof -
  let ?f = "usbKeyPath d" and ?t = "usbKeyPath d @ ''.partial''"
  note ne = usb_paths [of d]
  have st: "hoare (held ?f x (Suc (Suc 0))) (tryS (stat_file ?f)) (\<lambda>r. case r of Inl e \<Rightarrow> held ?f x (Suc 0) | Inr u \<Rightarrow> held ?f x (Suc (Suc 0))) (\<lambda>_. keeps ?f x)"
    by (rule stat_try)
  have last: "hoare (keeps ?f x) (bindS (ignoreS (remove_file ?t)) (\<lambda>_. case res of
        Inl e \<Rightarrow> failS (Ctx ''writing'' e)
      | Inr _ \<Rightarrow> ignoreS (writeFile (path_join [path_join [d, usbDir], usbPubFile]) tx mode644)))
      (\<lambda>_. keeps ?f x) (\<lambda>_. keeps ?f x)" for res :: "err + unit" and tx
    by (rule hoare_preserves) (intro preserves_intros keeps_other ne; assumption?)
  have inst: "hoare (held ?f x (Suc 0)) (case w of Inl e \<Rightarrow> retS (Inl e) | Inr _ \<Rightarrow> install_key ?t ?f)
      (\<lambda>_. keeps ?f x) (\<lambda>_. keeps ?f x)" for w :: "err + unit"
    by (auto intro!: hoare_sum hoare_ret install_keeps simp: ne dest: held_keeps)
  show ?thesis
    unfolding writeUSBKey_def Let_def
  proof (rule hoare_bind [OF keep_pres], rule held_quiet, rule hoare_bind [OF st], rule hoare_sum, goal_cases)
    case (1 _ r e)
    then show ?case
      by (simp, intro hoare_bind [OF keep_pres] hoare_bind [OF inst] last preserves_intros held_writes held_handles ne)
  next
    case (2 _ r v)
    then show ?case by (auto intro!: hoare_fail dest: held_keeps)
  qed
qed

lemma store_keeps:
  "hoare (held (usbKeyPath d) x (Suc (Suc (Suc 0)))) (storeOnUSB h d key pass p) (\<lambda>_. keeps (usbKeyPath d) x) (\<lambda>_. keeps (usbKeyPath d) x)"
proof -
  let ?f = "usbKeyPath d"
  have st: "hoare (held ?f x (Suc (Suc (Suc 0)))) (tryS (stat_file ?f)) (\<lambda>r. case r of Inl e \<Rightarrow> held ?f x (Suc (Suc 0)) | Inr u \<Rightarrow> held ?f x (Suc (Suc (Suc 0)))) (\<lambda>_. keeps ?f x)"
    by (rule stat_try)
  have state: "hoare (held ?f x (Suc (Suc (Suc 0)))) (usbState h d)
      (\<lambda>r. if r = ''blank'' then held ?f x (Suc (Suc 0)) else keeps ?f x) (\<lambda>_. keeps ?f x)"
    unfolding usbState_def
    by (rule hoare_bind [OF st]) (auto intro!: hoare_sum hoare_ret hoare_fail dest: held_keeps split: option.split)
  have check: "hoare (keeps ?f x) (bindS (wrapS (Ctx d) (readUSBKey h d pass)) (\<lambda>got.
      if got \<noteq> key then failS (Msg ''holds a DIFFERENT key'') else retS ())) (\<lambda>_. keeps ?f x) (\<lambda>_. keeps ?f x)"
    unfolding keeps_files readUSBKey_def by (intro hoare_preserves preserves_intros)
  show ?thesis
    unfolding storeOnUSB_def
  proof (rule hoare_bind [OF state], rule hoare_bind [where M = "\<lambda>_. keeps ?f x"], goal_cases)
    case (1 st)
    show ?case
    proof (cases "st = ''blank''")
      case True
      then show ?thesis
        by (simp only: if_True refl) (intro hoare_bind [OF keep_pres] held_quiet write_keeps)
    next
      case False
      then show ?thesis by (auto intro: hoare_ret)
    qed
  next
    case (2 st u)
    then show ?case by (rule check)
  qed
qed

section \<open>What a successful copy holds\<close>

lemma readUSBKey_Inr:
  assumes "readUSBKey h d pass s = (Inr key, t)"
  shows "\<exists>x. w_files s (usbKeyPath d) = Some x \<and> w_files t = w_files s \<and> length key = privateKeySize \<and>
    UnwrapPassphrase (h_wrap h) (bytes_of (fl_data x)) (bytes_of pass) = Inr key"
proof -
  from assms obtain d' u where f: "readFile (usbKeyPath d) s = (Inr d', u)"
    "(case UnwrapPassphrase (h_wrap h) (bytes_of d') (bytes_of pass) of
       Inl _ \<Rightarrow> failS (Msg ''wrong passphrase'')
     | Inr raw \<Rightarrow> if length raw \<noteq> privateKeySize then failS (EWrap ErrBadFormat) else retS raw) u = (Inr key, t)"
    unfolding readUSBKey_def bindS_Inr by blast
  from f(2) have "u = t" "length key = privateKeySize" "UnwrapPassphrase (h_wrap h) (bytes_of d') (bytes_of pass) = Inr key"
    by (auto split: sum.splits if_splits)
  with readFile_Inr [OF f(1)] show ?thesis by auto
qed

lemma readUSBKey_ok:
  assumes "w_faults s = []" "w_files s (usbKeyPath d) = Some x" "length key = privateKeySize"
    and "UnwrapPassphrase (h_wrap h) (bytes_of (fl_data x)) (bytes_of pass) = Inr key"
  shows "readUSBKey h d pass s = (Inr key, s)"
  using assms by (simp add: readUSBKey_def bindS_def read_ok)

lemma store_Inr:
  assumes "storeOnUSB h d key pass p s = (Inr (), t)"
  shows "\<exists>x. w_files t (usbKeyPath d) = Some x \<and> length key = privateKeySize \<and>
    UnwrapPassphrase (h_wrap h) (bytes_of (fl_data x)) (bytes_of pass) = Inr key"
  using assms by (auto simp: storeOnUSB_def bindS_Inr split: if_splits dest!: readUSBKey_Inr)

lemma store_blank:
  assumes "w_faults s = []" "w_files s (usbKeyPath d) = None" "h_read_dir h d = Some ents"
    and "list_all (\<lambda>e. e \<in> set usbIgnorable \<or> e = usbDir) ents"
    and "gcm_correct (h_wrap h)" "length key = privateKeySize"
    and "p = \<lparr>MemKiB = 0, Time = 0, Par = 0\<rparr> \<or> argon_bounds (MemKiB p) (Time p) (Par p)"
  shows "\<exists>t x. storeOnUSB h d key pass p s = (Inr (), t) \<and> w_files t (usbKeyPath d) = Some x \<and> fl_mode x = mode600"
proof -
  let ?f = "usbKeyPath d" and ?t = "usbKeyPath d @ ''.partial''"
  define salt where "salt = map (\<lambda>i. w_rand s (w_pos s + i)) [0..<saltLen]"
  define nonce where "nonce = map (\<lambda>i. w_rand s (w_pos s + saltLen + i)) [0..<nonceLen]"
  define blob where "blob = WrapPassphrase (h_wrap h) salt nonce key (bytes_of pass) p"
  have u: "UnwrapPassphrase (h_wrap h) blob (bytes_of pass) = Inr key"
    using unwrap_wrap_passphrase [OF assms(5), of salt nonce key "bytes_of pass" p] assms(7)
    by (simp add: blob_def salt_def nonce_def saltLen_def nonceLen_def)
  note ne = usb_paths [of d]
  define s' where "s' = s\<lparr>w_pos := w_pos s + saltLen + nonceLen\<rparr>"
  have "\<exists>t. writeUSBKey h d blob (public_of key) s' = (Inr (), t) \<and> w_faults t = [] \<and>
      w_files t ?f = Some \<lparr>fl_data = string_of blob, fl_mode = mode600\<rparr>"
    using assms(1,2) ne
    by (cases "w_files s ?t")
      (simp_all add: s'_def writeUSBKey_def Let_def bindS_def tryS_def ignoreS_def mkdirAll_def stat_file_def remove_file_def create_excl_def
        write_partial_def write_handle_def sync_handle_def install_key_def link_file_def writeFile_def with_fault_ok put_file_def)
  then obtain t where t: "writeUSBKey h d blob (public_of key) s' = (Inr (), t)" "w_faults t = []"
    "w_files t ?f = Some \<lparr>fl_data = string_of blob, fl_mode = mode600\<rparr>" by blast
  have st: "usbState h d s = (Inr ''blank'', s)"
    using assms(1-4) by (simp add: usbState_def bindS_def tryS_def stat_file_def with_fault_ok)
  have r: "readUSBKey h d pass t = (Inr key, t)"
    by (rule readUSBKey_ok [OF t(2,3) assms(6)]) (simp add: u)
  have "storeOnUSB h d key pass p s = (Inr (), t)"
    using t(1) r by (simp add: storeOnUSB_def bindS_def st mustRandom_def wrapS_def blob_def salt_def nonce_def s'_def add.assoc)
  with t(3) show ?thesis by auto
qed

section \<open>Properties\<close>

text \<open>C37. A key copied to a stick is proved there: whatever failed on the way, when \<open>storeOnUSB\<close> reports success,
  unwrapping what the stick now holds with the passphrase gives exactly the key.\<close>

theorem usb_copy_proved:
  assumes "storeOnUSB h d key pass p s = (Inr (), t)"
  shows "readUSBKey h d pass (t\<lparr>w_faults := []\<rparr>) = (Inr key, t\<lparr>w_faults := []\<rparr>)"
proof -
  from store_Inr [OF assms] obtain x where "w_files t (usbKeyPath d) = Some x" "length key = privateKeySize"
    "UnwrapPassphrase (h_wrap h) (bytes_of (fl_data x)) (bytes_of pass) = Inr key" by blast
  then show ?thesis by (intro readUSBKey_ok [where x = x]) simp_all
qed

text \<open>A key that is on a stick stays there byte for byte through every attempt to store another one, unless at least
  three operations fail: only the checks that the name is taken can be made to err, and there are three of them.\<close>

lemma usb_key_never_replaced:
  assumes "w_files s (usbKeyPath d) = Some x" "faults_left s < 3"
    and "storeOnUSB h d key pass p s = (r, t)"
  shows "w_files t (usbKeyPath d) = Some x"
proof -
  have "held (usbKeyPath d) x (Suc (Suc (Suc 0))) s" using assms(1,2) by (simp add: held_def eval_nat_numeral)
  from hoareD [OF store_keeps this assms(3)] show ?thesis by (cases r) (auto simp: keeps_def)
qed

text \<open>On a blank stick with nothing failing, the copy succeeds, for every drive path, key, passphrase and supported
  parameters, and the key file is private to its owner.\<close>

lemma usb_blank_stick_accepts:
  assumes "w_faults s = []" "w_files s (usbKeyPath d) = None" "h_read_dir h d = Some ents"
    and "list_all (\<lambda>e. e \<in> set usbIgnorable \<or> e = usbDir) ents"
    and "gcm_correct (h_wrap h)" "length key = privateKeySize"
    and "p = \<lparr>MemKiB = 0, Time = 0, Par = 0\<rparr> \<or> argon_bounds (MemKiB p) (Time p) (Par p)"
  shows "\<exists>t x. storeOnUSB h d key pass p s = (Inr (), t) \<and> w_files t (usbKeyPath d) = Some x \<and> fl_mode x = mode600"
  using assms by (rule store_blank)

section \<open>An example\<close>

definition example_card :: card_crypto where
  "example_card = \<lparr>sha = (\<lambda>b. take 32 (b @ replicate 32 0)), kdf = (\<lambda>p s. take 32 (bytes_of p @ s @ replicate 32 0)),
     box_seal = (\<lambda>k n m. m @ replicate 16 5), box_open = (\<lambda>k n c. if 16 \<le> length c then Some (take (length c - 16) c) else None)\<rparr>"

definition example_host :: "(string, bytes, unit) usb_host" where
  "example_host = \<lparr>h_env = Map.empty, h_config_dir = Some ''/c'', h_home = ''/h'', h_sign = (\<lambda>k m. take 32 k @ m), h_public = (\<lambda>s. s),
     h_http = (\<lambda>n u f. (None, n)), h_response = (\<lambda>_. None), h_wrap = example_crypto, h_card = example_card, h_policy = sample_env,
     dec_config = (\<lambda>_. (False, empty_config)), enc_config = (\<lambda>_. []), h_goos = ''linux'', h_read_dir = (\<lambda>_. Some []), h_symlink = (\<lambda>_. []),
     h_key_line = (\<lambda>b. ''k''), h_key_fp = (\<lambda>b. ''SHA256:k''), h_raw_key = (\<lambda>_. None)\<rparr>"

definition example_world :: "unit world" where
  "example_world = \<lparr>w_files = Map.empty, w_faults = [], w_stdin = [], w_out = [], w_rand = (\<lambda>_. 7), w_pos = 0, w_cache = Map.empty,
     w_now = timeUnix 1000, w_net = ()\<rparr>"

definition example_key :: bytes where
  "example_key = replicate 32 1 @ replicate 32 2"

lemma example_key_length [simp]: "length example_key = privateKeySize"
  by (simp add: example_key_def privateKeySize_def)

lemma usb_blank_stick_accepts_instance:
  "\<exists>t x. storeOnUSB example_host ''/m'' example_key ''secret12'' DefaultArgon2 example_world = (Inr (), t) \<and>
     w_files t (usbKeyPath ''/m'') = Some x \<and> fl_mode x = mode600"
  by (rule usb_blank_stick_accepts [where ents = "[]"])
    (simp_all add: example_world_def example_host_def example_crypto_laws default_bounds)

theorem usb_copy_proved_witness:
  "\<exists>t. readUSBKey example_host ''/m'' ''secret12'' (t\<lparr>w_faults := []\<rparr>) = (Inr example_key, t\<lparr>w_faults := []\<rparr>)"
proof -
  obtain t where "storeOnUSB example_host ''/m'' example_key ''secret12'' DefaultArgon2 example_world = (Inr (), t)"
    using store_blank [of example_world "''/m''" example_host "[]" example_key DefaultArgon2 "''secret12''"]
    by (auto simp: example_world_def example_host_def example_crypto_laws default_bounds)
  from usb_copy_proved [OF this] show ?thesis by blast
qed

lemma usb_key_never_replaced_instance:
  "w_files (snd (storeOnUSB example_host ''/m'' example_key ''x'' DefaultArgon2
     (example_world\<lparr>w_files := [usbKeyPath ''/m'' \<mapsto> \<lparr>fl_data = ''old'', fl_mode = 384\<rparr>], w_faults := [Fails, NoFault, Fails]\<rparr>))) (usbKeyPath ''/m'')
   = Some \<lparr>fl_data = ''old'', fl_mode = 384\<rparr>"
  by (rule usb_key_never_replaced [OF _ _ surjective_pairing]) (simp_all add: faults_left_def)

end
