(* ===== verification/Keys.thy ===== *)
theory Keys
  imports UsbVault
begin

text \<open>
  Key files and enrolment (\<open>main.go\<close>, \<open>cli.go\<close>): reading a key from a file or a stick, generating one, \<open>p3sig init\<close> and
  \<open>p3sig login\<close>, and \<open>resolve\<close>, which every machine command starts with. Shown: a generated key file is read back as the
  key whose public half was printed, and after \<open>init\<close> the commands need no flag.
\<close>

section \<open>The code\<close>

text \<open>What the decoders make of \<open>whoami\<close> and of the answer \<open>init\<close> verifies with is only printed: here, whether they decode.\<close>

record ('k, 's, 'n) key_host = "('k, 's, 'n) usb_host" +
  dec_whoami :: "string \<Rightarrow> unit option"
  dec_ca_count :: "string \<Rightarrow> unit option"

definition loadKey :: "('k, 's, 'n, 'x) usb_host_scheme \<Rightarrow> string \<Rightarrow> ('n, bytes) io" where
  "loadKey h path =
     (if path = [] then failS (Msg ''--key is required'')
      else if isUSBSpec path then usbKey h path
      else bindS (readFile path) (\<lambda>data.
           bindS (liftS (optE (Ctx ''is not valid base64'' BadEncoding) (b64_decode (trim_space data)))) (\<lambda>raw.
           if length raw \<noteq> privateKeySize then failS (Msg ''key has the wrong size'') else retS raw)))"

text \<open>The line a key file holds.\<close>

definition key_text :: "bytes \<Rightarrow> string" where
  "key_text key = b64_encode key @ [nl]"

definition cmdKeygen :: "('k, 's, 'n, 'x) host_scheme \<Rightarrow> flags \<Rightarrow> ('n, unit) io" where
  "cmdKeygen h f =
     bindS (generateKey h) (\<lambda>key.
     let out = (if flag f ''out'' = [] then ''p3sig-machine.key'' else flag f ''out'')
     in bindS (writeFile out (key_text key) mode600) (\<lambda>_. println (b64_encode (public_of key))))"

definition generateKeyFile :: "('k, 's, 'n, 'x) host_scheme \<Rightarrow> string \<Rightarrow> ('n, string) io" where
  "generateKeyFile h path =
     bindS (generateKey h) (\<lambda>key.
     bindS (mkdirAll (path_dir path)) (\<lambda>_.
     bindS (writeFile path (key_text key) mode600) (\<lambda>_. retS (b64_encode (public_of key)))))"

definition pubFromKeyFile :: "('k, 's, 'n, 'x) usb_host_scheme \<Rightarrow> string \<Rightarrow> ('n, string) io" where
  "pubFromKeyFile h path = bindS (loadKey h path) (\<lambda>k. retS (b64_encode (public_of k)))"

definition resolve :: "('k, 's, 'n, 'x) usb_host_scheme \<Rightarrow> flags \<Rightarrow> ('n, string \<times> string \<times> bytes \<times> string) io" where
  "resolve h f =
     bindS (resolveRaw h f) (\<lambda>(apiBase, machine, keyPath, outDir).
     if machine = [] then failS (Msg ''no machine configured'')
     else bindS (loadKey h keyPath) (\<lambda>key. retS (apiBase, machine, key, outDir)))"

definition userRequest ::
  "('k, 's, 'n, 'x) usb_host_scheme \<Rightarrow> (string \<Rightarrow> 'v option) \<Rightarrow> 'v \<Rightarrow> string \<Rightarrow> string \<Rightarrow> string \<Rightarrow> form \<Rightarrow> ('n, 'v) io" where
  "userRequest h dec zero apiBase action keyPath extra =
     bindS (loadKey h keyPath) (\<lambda>key. userRequestKey h dec zero apiBase action key extra)"

text \<open>The key \<open>init\<close> uses: the one at the path, or a new one written there.\<close>

definition init_key :: "('k, 's, 'n, 'x) usb_host_scheme \<Rightarrow> string \<Rightarrow> ('n, string) io" where
  "init_key h keyPath =
     bindS (tryS (stat_file keyPath)) (\<lambda>st. case st of
       Inr _ \<Rightarrow> wrapS (Ctx ''existing key'') (pubFromKeyFile h keyPath)
     | Inl _ \<Rightarrow> wrapS (Ctx ''generate key'') (generateKeyFile h keyPath))"

text \<open>The profile saved: added to what the file held, default when there was none.\<close>

definition save_profile ::
  "('k, 's, 'n, 'x) cli_host_scheme \<Rightarrow> string \<Rightarrow> string \<Rightarrow> profile \<Rightarrow> ('n, unit) io" where
  "save_profile h cfgPath name p =
     bindS (loadConfigFrom h cfgPath) (\<lambda>(cfg, _).
     let cfg = cfg\<lparr>c_Profiles := (c_Profiles cfg)(name \<mapsto> p)\<rparr>;
         cfg = (if c_DefaultProfile cfg = [] then cfg\<lparr>c_DefaultProfile := name\<rparr> else cfg)
     in wrapS (Ctx ''save config'') (saveConfigTo h cfgPath cfg))"

definition cmdInit :: "('k, 's, 'n, 'x) key_host_scheme \<Rightarrow> flags \<Rightarrow> ('n, unit) io" where
  "cmdInit h f =
     (let (cfgPath, keyDefault) = initPaths h (flag f ''system'' = ''true'')
      in bindS (ask (firstNonEmpty [flag f ''url'', getenv h ''P3SIG_URL'', defaultAPI])) (\<lambda>apiBase.
         let keyPath = firstNonEmpty [flag f ''key'', keyDefault]
         in bindS (init_key h keyPath) (\<lambda>pub.
            bindS (println pub) (\<lambda>_.
            bindS (ask (flag f ''machine'')) (\<lambda>machine.
            if machine = [] then failS (Msg ''a machine id is required to finish'')
            else bindS (ask ''default'') (\<lambda>profile.
                 bindS (save_profile h cfgPath profile
                    \<lparr>pr_URL = apiBase, pr_Machine = machine, pr_Key = keyPath, pr_Out = defaultOut\<rparr>) (\<lambda>_.
                 bindS (loadKey h keyPath) (\<lambda>key.
                 bindS (tryS (pullInto h (dec_ca_count h) () apiBase ''getTrustedCA'' machine key Map.empty)) (\<lambda>_. retS ())))))))))"

definition cmdLogin :: "('k, 's, 'n, 'x) key_host_scheme \<Rightarrow> flags \<Rightarrow> ('n, unit) io" where
  "cmdLogin h f =
     (let apiBase = firstNonEmpty [flag f ''url'', getenv h ''P3SIG_URL'', defaultAPI];
          keyPath = firstNonEmpty [flag f ''key'', getenv h ''P3SIG_VAULT_KEY'']
      in if keyPath = [] then failS (Msg ''usage: p3sig login'')
         else bindS (wrapS (Ctx ''is this key registered?'') (userRequest h (dec_whoami h) () apiBase ''whoami'' keyPath Map.empty)) (\<lambda>_.
              bindS (ask (firstNonEmpty [flag f ''identity'', ''default''])) (\<lambda>name.
              let cfgPath = firstNonEmpty [getenv h ''P3SIG_CONFIG'', userConfigPath h]
              in bindS (loadConfigFrom h cfgPath) (\<lambda>(cfg, _).
                 let cfg = cfg\<lparr>c_Identities := (c_Identities cfg)(name \<mapsto> \<lparr>id_URL = apiBase, id_Key = keyPath\<rparr>)\<rparr>;
                     cfg = (if c_DefaultIdentity cfg = [] then cfg\<lparr>c_DefaultIdentity := name\<rparr> else cfg)
                 in saveConfigTo h cfgPath cfg))))"

section \<open>Key files\<close>

text \<open>The lengths of Ed25519 keys: the public key of a 32-byte seed has 32 bytes.\<close>

definition ed25519_sizes :: "('k, 's, 'n, 'x) host_scheme \<Rightarrow> bool" where
  "ed25519_sizes h \<longleftrightarrow> (\<forall>seed. length (h_public h seed) = 32)"

lemma alphabet_not_space: "b64_alphabet c \<Longrightarrow> \<not> space_edge c"
proof -
  assume "b64_alphabet c"
  then have "cardB64Char c" by (rule alphabet_cardB64Char)
  then have "33 \<le> (of_char c :: nat) \<and> of_char c < (128 :: nat)"
    by (auto simp: cardB64Char_def less_eq_char_def)
  then show ?thesis
    by (auto simp: space_edge_def go_spaces_def)
qed

lemma trim_key_text: "key \<noteq> [] \<Longrightarrow> trim_space (key_text key) = b64_encode key"
  unfolding key_text_def
  by (rule trim_space_newline) (auto intro!: alphabet_not_space b64_encode_chars [of _ key])

lemma loadKey_ok:
  assumes "w_faults s = []" "w_files s path = Some x" "fl_data x = key_text key" "length key = privateKeySize"
    and "path \<noteq> []" "\<not> isUSBSpec path"
  shows "loadKey h path s = (Inr key, s)"
proof -
  have "key \<noteq> []" using assms(4) by (auto simp: privateKeySize_def)
  with assms show ?thesis by (simp add: loadKey_def bindS_def read_ok trim_key_text del: b64_encode.simps)
qed

lemma loadKey_Inr:
  assumes "loadKey h path s = (Inr key, t)" "w_faults s = []" "\<not> isUSBSpec path"
  shows "t = s \<and> path \<noteq> [] \<and> length key = privateKeySize \<and>
    (\<exists>x. w_files s path = Some x \<and> b64_decode (trim_space (fl_data x)) = Some key)"
proof -
  from assms obtain d u where d: "path \<noteq> []" "readFile path s = (Inr d, u)" "b64_decode (trim_space d) = Some key"
    "length key = privateKeySize" "u = t"
    by (auto simp: loadKey_def bindS_Inr split: if_splits)
  from d(2) have "u = s" "\<exists>x. w_files s path = Some x \<and> fl_data x = d"
    using assms(2) by (auto simp: readFile_def with_fault_ok split: option.splits)
  with d show ?thesis by auto
qed

lemma loadKey_again:
  assumes "loadKey h path s = (Inr key, t)" "w_faults s = []" "\<not> isUSBSpec path" "w_faults u = []" "w_files u path = w_files s path"
  shows "loadKey h path u = (Inr key, u)"
  using loadKey_Inr [OF assms(1-3)] assms(3-5) by (auto simp: loadKey_def bindS_def read_ok)

lemma generated_key_length: "ed25519_sizes h \<Longrightarrow> generateKey h s = (Inr key, t) \<Longrightarrow> length key = privateKeySize"
  by (auto simp: generateKey_def bindS_Inr mustRandom_def ed25519_sizes_def privateKeySize_def)

lemma generateKey_step: "\<exists>key t. generateKey h s = (Inr key, t) \<and> w_files t = w_files s \<and> w_faults t = w_faults s"
  by (simp add: generateKey_def bindS_def mustRandom_def)

section \<open>Enrolment\<close>

lemma readLine_files: "read_line s = (r, t) \<Longrightarrow> w_files t = w_files s \<and> w_faults t = w_faults s"
  by (auto simp: read_line_def Let_def split: list.splits if_splits)

lemma ask_Inr: "ask d s = (Inr v, t) \<Longrightarrow> w_files t = w_files s \<and> w_faults t = w_faults s \<and> (d \<noteq> [] \<longrightarrow> v \<noteq> [])"
  by (auto simp: ask_def bindS_Inr Let_def split: if_splits dest!: readLine_files)

text \<open>The configuration with one profile, which \<open>init\<close> writes first.\<close>

definition single_profile :: "string \<Rightarrow> profile \<Rightarrow> config" where
  "single_profile name p = empty_config\<lparr>c_Profiles := [name \<mapsto> p], c_DefaultProfile := name\<rparr>"

text \<open>The state a step with no faults keeps: everything but the files it is known to write.\<close>

lemma save_profile_Inr:
  assumes "save_profile h cfg name p s = (Inr (), t)" "w_faults s = []" "w_files s cfg = None"
  shows "w_files t = (w_files s)(cfg \<mapsto> \<lparr>fl_data = enc_config h
      (single_profile name p) @ [nl], fl_mode = mode600\<rparr>) \<and> w_faults t = []"
  using assms
  by (simp add: save_profile_def loadConfigFrom_def bindS_def tryS_def readFile_def with_fault_ok Let_def empty_config_def single_profile_def
      saveConfigTo_def wrapS_def mkdirAll_def writeFile_def put_file_def split: if_splits)
    (auto simp: wrapE_def)

lemma init_key_Inr:
  assumes "init_key h path s = (Inr pub, t)" "w_faults s = []" "\<not> isUSBSpec path"
  shows "(\<forall>p. p \<noteq> path \<longrightarrow> w_files t p = w_files s p) \<and> w_faults t = []"
proof (cases "w_files s path")
  case None
  then show ?thesis
    using assms
    by (auto simp: init_key_def bindS_def tryS_def stat_file_def with_fault_ok wrapS_def wrapE_def generateKeyFile_def generateKey_def
        mustRandom_def mkdirAll_def writeFile_def put_file_def split: prod.splits sum.splits)
next
  case (Some x)
  then have "\<exists>k. loadKey h path s = (Inr k, t)"
    using assms
    by (auto simp: init_key_def bindS_def tryS_def stat_file_def with_fault_ok wrapS_def wrapE_def pubFromKeyFile_def
        split: prod.splits sum.splits)
  with loadKey_Inr [OF _ assms(2,3)] assms(2) show ?thesis by auto
qed

text \<open>What \<open>resolve\<close> finds with no flags and no environment, in a world with this configuration.\<close>

lemma resolve_saved:
  assumes "h_env h = Map.empty" "h_config_dir h = Some base" "base \<noteq> []"
    and "w_faults u = []" "w_files u (path_join [base, ''p3sig'', ''config.json'']) = Some \<lparr>fl_data = enc_config h c @ [nl], fl_mode = m\<rparr>"
    and "dec_config h (enc_config h c @ [nl]) = (True, c)"
    and "c = single_profile name \<lparr>pr_URL = api, pr_Machine = machine, pr_Key = key, pr_Out = defaultOut\<rparr>"
    and "name \<noteq> []" "api \<noteq> []" "machine \<noteq> []" "loadKey h key u = (Inr k, u)"
  shows "resolve h Map.empty u = (Inr (api, machine, k, defaultOut), u)"
proof -
  have key: "key \<noteq> []" using assms(11) by (auto simp: loadKey_def)
  have "loadConfig h u = (Inr (c, path_join [base, ''p3sig'', ''config.json'']), u)"
    using assms(1-6) by (simp add: loadConfig_def configReadPaths_def getenv_def Let_def loadConfigFrom_def bindS_def tryS_def read_ok)
  moreover have "pickProfile h Map.empty c = \<lparr>pr_URL = api, pr_Machine = machine, pr_Key = key, pr_Out = defaultOut\<rparr>"
    using assms(1,7,8) by (simp add: pickProfile_def flag_def getenv_def profile_of_def single_profile_def)
  ultimately show ?thesis
    using assms(1,9-11) key
    by (simp add: resolve_def resolveRaw_def bindS_def Let_def flag_def getenv_def defaultOut_def)
qed

section \<open>Properties\<close>

text \<open>After \<open>p3sig init\<close> on a machine without a configuration, the commands run with no flags: with nothing in the
  environment \<open>resolve\<close> gives the server, the machine and the key that were enrolled.\<close>

lemma init_then_no_flags:
  assumes "cmdInit h f s = (Inr (), t)" "w_faults s = []" "h_env h = Map.empty" "h_config_dir h = Some base" "base \<noteq> []"
    and "flag f ''system'' \<noteq> ''true''" "keyPath = firstNonEmpty [flag f ''key'', snd (initPaths h False)]"
    and "\<not> isUSBSpec keyPath" "keyPath \<noteq> path_join [base, ''p3sig'', ''config.json'']"
    and "w_files s (path_join [base, ''p3sig'', ''config.json'']) = None"
    and "\<And>n p. dec_config h (enc_config h (single_profile n p) @ [nl]) = (True, single_profile n p)"
  shows "\<exists>api machine key. resolve h Map.empty t = (Inr (api, machine, key, defaultOut), t) \<and>
    loadKey h keyPath t = (Inr key, t) \<and> machine \<noteq> [] \<and> (flag f ''url'' = [] \<or> api \<noteq> [])"
proof -
  let ?cfg = "path_join [base, ''p3sig'', ''config.json'']"
  have paths: "path_join [path_join [base, ''p3sig''], ''config.json''] = ?cfg"
    using path_join_join [of "[''p3sig'']" "[''config.json'']" base] by (simp add: plain_name_def)
  obtain kd where init: "initPaths h False = (?cfg, kd)" and kp: "firstNonEmpty [flag f ''key'', kd] = keyPath"
    using assms(4,5,7) paths by (simp add: initPaths_def Let_def)
  have env: "getenv h v = []" for v using assms(3) by (simp add: getenv_def)
  let ?api = "firstNonEmpty [flag f ''url'', [], defaultAPI]"
  have api: "?api \<noteq> []" by (simp add: defaultAPI_def)
  from assms(1,6)
  obtain api s1 pub s2 machine s3 s4 name s5 s6 key s7 r where
    a: "ask ?api s = (Inr api, s1)" "init_key h keyPath s1 = (Inr pub, s2)" "println pub s2 = (Inr (), s3)"
    "ask (flag f ''machine'') s3 = (Inr machine, s4)" "machine \<noteq> []" "ask ''default'' s4 = (Inr name, s5)"
    "save_profile h ?cfg name \<lparr>pr_URL = api, pr_Machine = machine, pr_Key = keyPath, pr_Out = defaultOut\<rparr> s5 = (Inr (), s6)"
    "loadKey h keyPath s6 = (Inr key, s7)"
    "tryS (pullInto h (dec_ca_count h) () api ''getTrustedCA'' machine key Map.empty) s7 = (Inr r, t)"
    unfolding cmdInit_def by (auto simp: bindS_Inr Let_def env init kp split: if_splits simp del: firstNonEmpty.simps)
  have s1: "w_files s1 = w_files s" "w_faults s1 = []" "api \<noteq> []" using ask_Inr [OF a(1)] assms(2) api by auto
  from init_key_Inr [OF a(2) s1(2) assms(8)] have s2: "w_files s2 ?cfg = None" "w_faults s2 = []"
    using assms(9,10) s1 by auto
  have s3: "w_files s3 = w_files s2" "w_faults s3 = []" using a(3) s2 by (auto simp: println_def print_text_def)
  have s5: "w_files s5 ?cfg = None" "w_faults s5 = []" "name \<noteq> []"
    using ask_Inr [OF a(4)] ask_Inr [OF a(6)] s2 s3 by auto
  note s6 = save_profile_Inr [OF a(7) s5(2,1)]
  then have s7: "s7 = s6" using loadKey_Inr [OF a(8) _ assms(8)] by auto
  obtain r' where "pullInto h (dec_ca_count h) () api ''getTrustedCA'' machine key Map.empty s6 = (r', t)"
    using a(9) by (auto simp: tryS_def s7 split: prod.splits)
  from only_netD [OF request_frame(2) [OF this]] s6 have t: "w_files t = w_files s6" "w_faults t = []" by simp_all
  have k: "loadKey h keyPath t = (Inr key, t)"
    using loadKey_again [OF a(8) _ assms(8) t(2)] s6 t(1) by simp
  have "resolve h Map.empty t = (Inr (api, machine, key, defaultOut), t)"
    by (rule resolve_saved [OF assms(3-5) t(2) _ assms(11) refl s5(3) s1(3) a(5) k])
      (simp add: t(1) s6)
  with k a(5) s1(3) show ?thesis by blast
qed

text \<open>A key that was generated loads: with nothing failing, the file \<open>generateKeyFile\<close> wrote holds the key whose public
  half it returned, for every path that is not a stick.\<close>

lemma generated_key_loads:
  assumes "generateKeyFile h path s = (Inr pub, t)" "w_faults s = []" "ed25519_sizes h" "path \<noteq> []" "\<not> isUSBSpec path"
  shows "\<exists>key. loadKey h path t = (Inr key, t) \<and> pub = b64_encode (public_of key)"
proof -
  from assms(1) obtain key u v where g: "generateKey h s = (Inr key, u)" "mkdirAll (path_dir path) u = (Inr (), v)"
    "writeFile path (key_text key) mode600 v = (Inr (), t)" "pub = b64_encode (public_of key)"
    by (auto simp: generateKeyFile_def bindS_Inr)
  have u: "w_faults u = []" using g(1) assms(2) by (auto simp: generateKey_def bindS_Inr mustRandom_def)
  with g(2) have v: "w_faults v = []" by (simp add: mkdirAll_def with_fault_ok)
  with g(3) have "w_faults t = []" "\<exists>x. w_files t path = Some x \<and> fl_data x = key_text key" by (auto simp: write_ok)
  then show ?thesis
    using loadKey_ok [OF _ _ _ generated_key_length [OF assms(3) g(1)] assms(4,5)] g(4) by blast
qed

text \<open>\<open>p3sig keygen\<close> on a file that exists keeps the file's permissions: the private key ends in a file with the old
  mode, though the command reports mode 600.\<close>

lemma keygen_keeps_mode:
  assumes "w_faults s = []" "flag f ''out'' = path" "path \<noteq> []" "w_files s path = Some x"
  shows "\<exists>key t. cmdKeygen h f s = (Inr (), t) \<and> w_files t path = Some \<lparr>fl_data = key_text key, fl_mode = fl_mode x\<rparr>"
  using assms
  by (simp add: cmdKeygen_def generateKey_def mustRandom_def bindS_def Let_def write_ok println_def print_text_def)
    blast

section \<open>An example\<close>

definition example_cli :: "(string, bytes, unit) key_host" where
  "example_cli = \<lparr>h_env = Map.empty, h_config_dir = Some ''/c'', h_home = ''/h'', h_sign = (\<lambda>k m. take 32 k @ m), h_public = (\<lambda>s. replicate 32 3),
     h_http = (\<lambda>n u f. (None, n)), h_response = (\<lambda>_. None), h_wrap = example_crypto, h_card = example_card, h_policy = sample_env,
     dec_config = (\<lambda>_. (False, empty_config)), enc_config = (\<lambda>_. []), h_goos = ''linux'', h_read_dir = (\<lambda>_. Some []), h_symlink = (\<lambda>_. []),
     h_key_line = (\<lambda>b. ''k''), h_key_fp = (\<lambda>b. ''SHA256:k''), h_raw_key = (\<lambda>_. None), dec_whoami = (\<lambda>_. Some ()), dec_ca_count = (\<lambda>_. Some ())\<rparr>"

lemma generated_key_loads_instance:
  "\<exists>t key. loadKey example_cli ''/k'' t = (Inr key, t) \<and> b64_encode (replicate 32 3) = b64_encode (public_of key)"
proof -
  obtain t where "generateKeyFile example_cli ''/k'' example_world = (Inr (b64_encode (replicate 32 3)), t)"
    by (simp add: generateKeyFile_def generateKey_def mustRandom_def bindS_def mkdir_ok write_ok example_world_def public_of_def
        example_cli_def del: b64_encode.simps)
  from generated_key_loads [OF this] show ?thesis
    by (fastforce simp: example_world_def ed25519_sizes_def example_cli_def isUSBSpec_def simp del: b64_encode.simps)
qed

lemma keygen_keeps_mode_instance:
  "\<exists>key t. cmdKeygen example_cli [''out'' \<mapsto> ''/k''] (example_world\<lparr>w_files := [''/k'' \<mapsto> \<lparr>fl_data = [], fl_mode = 420\<rparr>]\<rparr>) = (Inr (), t) \<and>
     w_files t ''/k'' = Some \<lparr>fl_data = key_text key, fl_mode = 420\<rparr>"
  using keygen_keeps_mode [of "example_world\<lparr>w_files := [''/k'' \<mapsto> \<lparr>fl_data = [], fl_mode = 420\<rparr>]\<rparr>" "[''out'' \<mapsto> ''/k'']" "''/k''"
      "\<lparr>fl_data = [], fl_mode = 420\<rparr>" example_cli]
  by (simp add: example_world_def flag_def)

text \<open>A codec for configurations with one profile: each character is marked, and each field ends in its own mark.\<close>

definition mark :: "string \<Rightarrow> string" where
  "mark s = concat (map (\<lambda>c. [CHR ''c'', c]) s) @ ''e''"

fun unmark :: "string \<Rightarrow> string \<times> string" where
  "unmark (d # c # r) = (if d = CHR ''c'' then apfst (\<lambda>s. c # s) (unmark r) else ([], c # r))"
| "unmark r = ([], drop 1 r)"

lemma unmark_mark: "r \<noteq> [] \<Longrightarrow> unmark (mark s @ r) = (s, r)"
proof (induction s)
  case Nil
  then show ?case by (cases r) (simp_all add: mark_def)
next
  case (Cons c s)
  then show ?case by (simp add: mark_def)
qed

definition one_enc :: "config \<Rightarrow> string" where
  "one_enc c = (let n = c_DefaultProfile c; p = profile_of c n
     in mark n @ mark (pr_URL p) @ mark (pr_Machine p) @ mark (pr_Key p) @ mark (pr_Out p))"

definition one_dec :: "string \<Rightarrow> bool \<times> config" where
  "one_dec s0 =
     (let (n, s1) = unmark s0; (u, s2) = unmark s1; (m, s3) = unmark s2; (k, s4) = unmark s3; (out, s5) = unmark s4
      in (True, single_profile n \<lparr>pr_URL = u, pr_Machine = m, pr_Key = k, pr_Out = out\<rparr>))"

lemma one_codec: "one_dec (one_enc (single_profile n p) @ [nl]) = (True, single_profile n p)"
  by (cases p) (simp add: one_dec_def one_enc_def Let_def profile_of_def single_profile_def unmark_mark)

abbreviation example_init :: "(string, bytes, unit) key_host" where
  "example_init \<equiv> example_cli\<lparr>dec_config := one_dec, enc_config := one_enc\<rparr>"

definition example_typed :: "unit world" where
  "example_typed = example_world\<lparr>w_stdin := [[nl] @ ''m1'' @ [nl, nl]]\<rparr>"

lemma ask_step:
  assumes "w_stdin s = (line @ nl # rest) # segs" "nl \<notin> set line"
  shows "ask d s = (Inr (if trim_space (line @ [nl]) \<noteq> [] then trim_space (line @ [nl]) else d), s\<lparr>w_stdin := rest # segs\<rparr>)"
proof -
  have "takeWhile (\<lambda>c. c \<noteq> nl) (line @ nl # rest) = line" using assms(2) by (induction line) auto
  with assms(1) show ?thesis by (simp add: ask_def bindS_def read_line_def Let_def)
qed

lemma example_init_runs: "\<exists>t. cmdInit example_init Map.empty example_typed = (Inr (), t)"
proof -
  let ?k = "''/c/p3sig/machine.key''" and ?c = "''/c/p3sig/config.json''"
  have paths: "initPaths example_init False = (?c, ?k)"
    by (simp add: initPaths_def example_cli_def path_join_def clean_path_def rooted_def components_def clean_step_def render_path_def Let_def)
  have env: "getenv example_init v = []" for v by (simp add: getenv_def example_cli_def)
  have blank: "trim_space [nl] = []" "trim_space ''m1\<newline>'' = ''m1''"
    by (simp_all add: trim_space_def go_spaces_def)
  define key where "key = replicate 32 (7 :: byte) @ replicate 32 3"
  have s1: "ask d example_typed = (Inr d, example_world\<lparr>w_stdin := [''m1'' @ [nl, nl]]\<rparr>)" for d
    using ask_step [of example_typed "[]" "''m1'' @ [nl, nl]"] by (simp add: example_typed_def blank)
  let ?f = "[?k \<mapsto> \<lparr>fl_data = key_text key, fl_mode = mode600\<rparr>]"
  have s2: "init_key example_init ?k (example_world\<lparr>w_stdin := st\<rparr>) =
      (Inr (b64_encode (public_of key)), example_world\<lparr>w_stdin := st, w_pos := 32, w_files := ?f\<rparr>)" for st
    by (simp add: init_key_def bindS_def tryS_def stat_file_def with_fault_ok example_world_def wrapS_def generateKeyFile_def
        generateKey_def mustRandom_def mkdirAll_def writeFile_def put_file_def key_def map_replicate_const example_cli_def del: b64_encode.simps)
  define S1 where "S1 = example_world\<lparr>w_stdin := [''m1'' @ [nl, nl]]\<rparr>"
  define S2 where "S2 = example_world\<lparr>w_stdin := [''m1'' @ [nl, nl]], w_pos := 32, w_files := ?f\<rparr>"
  define S3 where "S3 = snd (println (b64_encode (public_of key)) S2)"
  define S5 where "S5 = S3\<lparr>w_stdin := [[]]\<rparr>"
  have S3: "w_stdin S3 = [''m1'' @ [nl, nl]]" "w_faults S3 = []" "w_files S3 = ?f"
    by (simp_all add: S3_def S2_def println_def print_text_def example_world_def)
  have d: "ask [] S3 = (Inr ''m1'', S3\<lparr>w_stdin := [[nl]]\<rparr>)"
    using ask_step [of S3 "''m1''" "[nl]" "[]"] blank(2) by (simp add: S3)
  have e: "ask ''default'' (S3\<lparr>w_stdin := [[nl]]\<rparr>) = (Inr ''default'', S5)"
    using ask_step [of "S3\<lparr>w_stdin := [[nl]]\<rparr>" "[]" "[]" "[]"] by (simp add: blank S5_def)
  define P where "P = \<lparr>pr_URL = defaultAPI, pr_Machine = ''m1'', pr_Key = ?k, pr_Out = defaultOut\<rparr>"
  define S6 where "S6 = put_file ?c (enc_config example_init (single_profile ''default'' P) @ [nl]) mode600 S5"
  have f: "save_profile example_init ?c ''default'' P S5 = (Inr (), S6)"
    by (simp add: save_profile_def loadConfigFrom_def bindS_def tryS_def readFile_def with_fault_ok Let_def empty_config_def
        single_profile_def saveConfigTo_def wrapS_def mkdirAll_def write_ok S6_def S5_def S3)
  have g: "loadKey example_init ?k S6 = (Inr key, S6)"
    by (rule loadKey_ok [where x = "\<lparr>fl_data = key_text key, fl_mode = mode600\<rparr>"])
      (simp_all add: S6_def S5_def S3 key_def privateKeySize_def isUSBSpec_def)
  obtain r t where h: "tryS (pullInto example_init (dec_ca_count example_cli) () defaultAPI ''getTrustedCA'' ''m1'' key Map.empty) S6 = (Inr r, t)"
    by (cases "pullInto example_init (dec_ca_count example_cli) () defaultAPI ''getTrustedCA'' ''m1'' key Map.empty S6") (simp add: tryS_def)
  have api: "firstNonEmpty [flag Map.empty ''url'', [], defaultAPI] = defaultAPI" "firstNonEmpty [flag Map.empty ''key'', ?k] = ?k"
    by (simp_all add: flag_def defaultAPI_def)
  note a = s1 [folded S1_def] and b = s2 [of "[''m1'' @ [nl, nl]]", folded S1_def S2_def]
  have c: "println (b64_encode (public_of key)) S2 = (Inr (), S3)" by (simp add: S3_def println_def print_text_def)
  have m: "flag Map.empty ''machine'' = []" "flag Map.empty ''system'' = []" by (simp_all add: flag_def)
  have "cmdInit example_init Map.empty example_typed = (Inr (), t)"
    unfolding cmdInit_def m
    by (simp add: paths env api m a b c d e f [unfolded P_def] g h bindS_def Let_def del: firstNonEmpty.simps)
  then show ?thesis by blast
qed

lemma init_then_no_flags_instance:
  "\<exists>t api machine key. resolve example_init Map.empty t = (Inr (api, machine, key, defaultOut), t) \<and> machine \<noteq> []"
proof -
  obtain t where t: "cmdInit example_init Map.empty example_typed = (Inr (), t)" using example_init_runs by blast
  have k: "firstNonEmpty [flag Map.empty ''key'', snd (initPaths example_init False)] = ''/c/p3sig/machine.key''"
    "path_join [''/c'', ''p3sig'', ''config.json''] = ''/c/p3sig/config.json''"
    by (simp_all add: initPaths_def example_cli_def path_join_def clean_path_def rooted_def components_def clean_step_def render_path_def
        Let_def flag_def)
  have "\<exists>api machine key. resolve example_init Map.empty t = (Inr (api, machine, key, defaultOut), t) \<and>
      loadKey example_init ''/c/p3sig/machine.key'' t = (Inr key, t) \<and> machine \<noteq> [] \<and> (flag Map.empty ''url'' = [] \<or> api \<noteq> [])"
    by (rule init_then_no_flags [OF t, where base = "''/c''"])
      (simp_all only: k, simp_all add: example_typed_def example_world_def isUSBSpec_def flag_def one_codec, simp_all add: example_cli_def)
  then show ?thesis by blast
qed

end
