(* ===== verification/Backup.thy ===== *)
theory Backup
  imports Keys
begin

text \<open>
  \<open>p3sig backup\<close> and \<open>p3sig restore\<close> (\<open>backup.go\<close>): a key becomes a printed card, with or without a passphrase, or
  share cards of which any quorum restores it. Shown, on the commands themselves: what \<open>backup\<close> wrote, \<open>restore\<close> turns
  back into the same key file, from a card and from any quorum of share cards in any order.
\<close>

section \<open>The interface to secret sharing\<close>

text \<open>
  What \<open>backup\<close> and \<open>restore\<close> rely on: splitting gives numbered shares that carry the quorum, and any quorum of them, with
  distinct numbers, combines to the secret.
\<close>

locale sharing =
  fixes split :: "'r \<Rightarrow> bytes \<Rightarrow> int \<Rightarrow> int \<Rightarrow> 'e + shareT list"
    and combine :: "shareT list \<Rightarrow> 'e + bytes"
  assumes numbered: "split rnd secret m n = Inr shares \<Longrightarrow> distinct (map sh_x shares) \<and> length shares = nat n"
    and quorum_carried: "split rnd secret m n = Inr shares \<Longrightarrow> s \<in> set shares \<Longrightarrow> int (unat (sh_m s)) = m"
    and quorum_positive: "split rnd secret m n = Inr shares \<Longrightarrow> 2 \<le> m \<and> m \<le> n"
    and combines: "split rnd secret m n = Inr shares \<Longrightarrow> set sel \<subseteq> set shares \<Longrightarrow> distinct (map sh_x sel) \<Longrightarrow>
      m \<le> int (length sel) \<Longrightarrow> combine sel = Inr secret"
begin

text \<open>The first shares up to the quorum their own header names are enough.\<close>

lemma take_quorum:
  assumes "split rnd secret m n = Inr shares" "set sel \<subseteq> set shares" "distinct (map sh_x sel)" "m \<le> int (length sel)"
  shows "sel \<noteq> [] \<and> unat (sh_m (hd sel)) \<le> length sel \<and> combine (take (unat (sh_m (hd sel))) sel) = Inr secret"
proof -
  have m: "2 \<le> m" using quorum_positive [OF assms(1)] by simp
  with assms(4) have ne: "sel \<noteq> []" by auto
  then have h: "int (unat (sh_m (hd sel))) = m"
    using quorum_carried [OF assms(1)] assms(2) hd_in_set by blast
  then have "combine (take (unat (sh_m (hd sel))) sel) = Inr secret"
    by (intro combines [OF assms(1)])
      (use assms in \<open>auto simp: min_def take_map [symmetric] dest: in_set_takeD intro: distinct_take\<close>)
  moreover have "unat (sh_m (hd sel)) \<le> length sel" using h assms(4) by linarith
  ultimately show ?thesis using ne by simp
qed

end

lemma split_params:
  assumes "shamirSplit rnd secret m n = Inr shares"
  shows "2 \<le> m" "m \<le> n" "n \<le> 255" "length shares = nat n" "s \<in> set shares \<Longrightarrow> int (unat (sh_m s)) = m"
proof -
  from assms show b: "2 \<le> m" "m \<le> n" "n \<le> 255" "length shares = nat n" by (auto simp: shamirSplit_Inr)
  show "s \<in> set shares \<Longrightarrow> int (unat (sh_m s)) = m"
    using share_of_split(3) [OF assms] b by (simp add: unsigned_of_int take_bit_int_eq_self)
qed

interpretation gf_sharing: sharing shamirSplit shamirCombine
proof (unfold_locales, goal_cases)
  case (1 rnd secret m n shares)
  then show ?case using split_distinct split_params(4) by blast
next
  case (2 rnd secret m n shares s)
  then show ?case by (rule split_params(5))
next
  case (3 rnd secret m n shares)
  then show ?case using split_params(1,2) by blast
next
  case (4 rnd secret m n shares sel)
  then show ?case by (rule combine_any_quorum)
qed

section \<open>The code\<close>

definition keyFingerprint :: "('k, 's, 'n, 'x) host_scheme \<Rightarrow> bytes \<Rightarrow> string" where
  "keyFingerprint h key = ''SHA256:'' @ b64_encode (sha (h_card h) (public_of key))"

text \<open>Splitting draws \<open>m - 1\<close> random bytes for each byte of the key, after the parameters were checked.\<close>

definition shamirSplitS :: "bytes \<Rightarrow> int \<Rightarrow> int \<Rightarrow> ('n, shareT list) io" where
  "shamirSplitS key m n s =
     (let k = nat m - 1; rnd = (\<lambda>i. map (\<lambda>j. w_rand s (w_pos s + i * k + j)) [0..<k])
      in case shamirSplit rnd key m n of
           Inl e \<Rightarrow> (Inl (EShamir e), s)
         | Inr shares \<Rightarrow> (Inr shares, s\<lparr>w_pos := w_pos s + length key * k\<rparr>))"

definition share_path :: "string \<Rightarrow> int \<Rightarrow> int \<Rightarrow> string" where
  "share_path out i n = out @ ''.share-'' @ format_int i @ ''of'' @ format_int n @ ''.card''"

definition write_share :: "('k, 's, 'n, 'x) host_scheme \<Rightarrow> flags \<Rightarrow> string \<Rightarrow> int \<Rightarrow> int \<Rightarrow> int \<times> shareT \<Rightarrow> ('n, unit) io" where
  "write_share h f fpr n m ish =
     (case ish of (i, sh) \<Rightarrow>
        let card = renderShare fpr i n m (sharePayload (h_card h) sh)
        in if flag f ''out'' \<noteq> [] then writeFile (share_path (flag f ''out'') i n) card mode600
           else bindS (print_text card) (\<lambda>_. println []))"

definition backup_split :: "('k, 's, 'n, 'x) host_scheme \<Rightarrow> flags \<Rightarrow> bytes \<Rightarrow> ('n, unit) io" where
  "backup_split h f key =
     bindS (liftS (optE (Msg ''split must look like M-of-N'') (parseSplit (flag f ''split'')))) (\<lambda>(m, n).
     bindS (shamirSplitS key m n) (\<lambda>shares.
     bindS (mapS (write_share h f (keyFingerprint h key) n m) (zip (map (\<lambda>i. int i + 1) [0..<length shares]) shares)) (\<lambda>_.
     retS ())))"

definition card_payload :: "('k, 's, 'n, 'x) host_scheme \<Rightarrow> string \<Rightarrow> bytes \<Rightarrow> ('n, bytes) io" where
  "card_payload h pass key =
     (if pass = [] then retS (buildBlob (h_card h) cardMagic ([cardModePlain] @ key))
      else bindS (mustRandom 16) (\<lambda>salt.
           bindS (mustRandom 24) (\<lambda>nonce.
           retS (buildBlob (h_card h) cardMagic (passBody (h_card h) pass salt nonce key)))))"

definition cmdBackup :: "('k, 's, 'n, 'x) usb_host_scheme \<Rightarrow> flags \<Rightarrow> ('n, unit) io" where
  "cmdBackup h f =
     bindS (resolveAnyKeyPath h f) (\<lambda>keyPath.
     bindS (loadKey h keyPath) (\<lambda>key.
     if flag f ''split'' \<noteq> [] then backup_split h f key
     else bindS (readPassphraseConfirmed h) (\<lambda>pass.
          bindS (card_payload h pass key) (\<lambda>payload.
          let protection = (if pass \<noteq> [] then protection_pass else protection_none);
              card = renderCard (keyFingerprint h key) protection payload
          in if flag f ''out'' \<noteq> [] then writeFile (flag f ''out'') card mode600 else print_text card))))"

text \<open>
  \<open>openSingleCard\<close> asks for the passphrase only for a well-formed card that needs one: that is when opening the card
  without a passphrase stops at the passphrase.
\<close>

definition open_card :: "('k, 's, 'n, 'x) host_scheme \<Rightarrow> bytes \<Rightarrow> ('n, bytes) io" where
  "open_card h payload =
     (case openSingleCard (h_card h) (Inl PassphraseError) payload of
        Inl PassphraseError \<Rightarrow>
          bindS (readPassphrase h) (\<lambda>p. liftS (wrapE ECard (openSingleCard (h_card h) (Inr p) payload)))
      | r \<Rightarrow> liftS (wrapE ECard r))"

definition restoreKey :: "('k, 's, 'n, 'x) host_scheme \<Rightarrow> string \<Rightarrow> ('n, bytes) io" where
  "restoreKey h raw =
     bindS (liftS (wrapE ECard (extractBlocks (h_card h) raw))) (\<lambda>(cards, shares).
     if cards \<noteq> [] then open_card h (hd cards)
     else if shares \<noteq> [] then
       (let need = unat (sh_m (hd shares))
        in if length shares < need then failS (Msg ''add the missing card(s)'')
           else bindS (liftS (wrapE EShamir (shamirCombine (take need shares)))) (\<lambda>secret.
                if length secret \<noteq> privateKeySize then failS (Msg ''recombined key has the wrong size'') else retS secret))
     else failS (Msg ''no recovery card or shares found in the input''))"

definition restore_path :: "flags \<Rightarrow> string" where
  "restore_path f = (if flag f ''out'' = [] then ''p3sig-recovered.key'' else flag f ''out'')"

definition cmdRestore :: "('k, 's, 'n, 'x) host_scheme \<Rightarrow> flags \<Rightarrow> ('n, unit) io" where
  "cmdRestore h f =
     bindS (if flag f ''in'' \<noteq> [] then readFile (flag f ''in'') else read_all) (\<lambda>raw.
     bindS (restoreKey h raw) (\<lambda>key.
     bindS (writeFile (restore_path f) (key_text key) mode600) (\<lambda>_.
     println (b64_encode (public_of key)))))"

section \<open>What is restored\<close>

lemma fingerprint_text: "fp_text (keyFingerprint h key)"
  by (auto simp: fp_text_def keyFingerprint_def)

lemma restore_plain:
  assumes "sha256_length (h_card h)" "length key = privateKeySize" "fp_text fpr"
  shows "restoreKey h (renderCard fpr protection_none (buildBlob (h_card h) cardMagic ([cardModePlain] @ key))) s = (Inr key, s)"
  using extract_printed_card [OF assms(1,3), of protection_none "[cardModePlain] @ key"] open_plain_card [OF assms(1), of key] assms(2)
  by (simp add: restoreKey_def open_card_def privateKeySize_def)

lemma restore_pass:
  assumes "sha256_length (h_card h)" "secretbox_opens (h_card h)" "length key = privateKeySize" "fp_text fpr"
    and "length salt = 16" "length nonce = 24" "readPassphrase h s = (Inr pass, t)"
  shows "restoreKey h (renderCard fpr protection_pass (buildBlob (h_card h) cardMagic (passBody (h_card h) pass salt nonce key))) s = (Inr key, t)"
proof -
  let ?c = "buildBlob (h_card h) cardMagic (passBody (h_card h) pass salt nonce key)"
  have k: "length key = 64" using assms(3) by (simp add: privateKeySize_def)
  have "length (box_seal (h_card h) (kdf (h_card h) pass salt) nonce key) = 80"
    using assms(2) k by (simp add: secretbox_opens_def)
  then have "openSingleCard (h_card h) (Inl PassphraseError) ?c = Inl PassphraseError"
    using openBlob_buildBlob [OF assms(1), of cardMagic "passBody (h_card h) pass salt nonce key"] assms(5,6)
    by (simp add: openSingleCard_def cardMagic_def passBody_def cardModePlain_def cardModePass_def Let_def)
  then show ?thesis
    using extract_printed_card [OF assms(1,4), of protection_pass "passBody (h_card h) pass salt nonce key"]
      open_pass_card [OF assms(1,2) k assms(5,6), of pass] assms(7)
    by (simp add: restoreKey_def open_card_def bindS_def)
qed

lemma restore_shares:
  assumes "sha256_length (h_card h)" "length key = privateKeySize" "fp_text fpr"
    and "shamirSplit rnd key m n = Inr shares" "set (map snd sel) \<subseteq> set shares" "distinct (map sh_x (map snd sel))" "m \<le> int (length sel)"
  shows "restoreKey h (concat (map (\<lambda>(i, sh). renderShare fpr i n m (sharePayload (h_card h) sh)) sel)) s = (Inr key, s)"
proof -
  have q: "map snd sel \<noteq> []" "unat (sh_m (hd (map snd sel))) \<le> length (map snd sel)"
    "shamirCombine (take (unat (sh_m (hd (map snd sel)))) (map snd sel)) = Inr key"
    using gf_sharing.take_quorum [OF assms(4-6)] assms(7) by auto
  then have "sel \<noteq> []" by auto
  from extract_printed_shares [OF assms(1,3) this, of n m] q assms(2) show ?thesis
    by (simp add: restoreKey_def Let_def)
qed

section \<open>What the commands write\<close>

lemma share_path_inject [simp]: "share_path out i n = share_path out j n \<longleftrightarrow> i = j"
proof
  assume h: "share_path out i n = share_path out j n"
  have "CHR ''o'' \<notin> set (format_int z)" for z
    by (rule format_int_excludes) (simp_all add: digit_val_def)
  with h first_field [of "format_int i" "CHR ''o''" "CHR ''f'' # format_int n @ ''.card''" "format_int j" "CHR ''f'' # format_int n @ ''.card''"]
  show "i = j" by (simp add: share_path_def format_int_inject)
qed simp

lemma write_shares_Inr:
  assumes "mapS (write_share h f fpr n m) shs s = (Inr us, t)" "flag f ''out'' = out" "out \<noteq> []" "distinct (map fst shs)"
  shows "(\<forall>(i, sh) \<in> set shs. \<exists>x. w_files t (share_path out i n) = Some x \<and>
      fl_data x = renderShare fpr i n m (sharePayload (h_card h) sh)) \<and>
    (\<forall>q. (\<forall>i \<in> fst ` set shs. q \<noteq> share_path out i n) \<longrightarrow> w_files t q = w_files s q)"
  using assms
proof (induction shs arbitrary: s us)
  case (Cons ish shs)
  obtain i sh where ish: "ish = (i, sh)" by (cases ish)
  from Cons.prems(1) obtain s1 vs where w: "write_share h f fpr n m ish s = (Inr (), s1)"
    "mapS (write_share h f fpr n m) shs s1 = (Inr vs, t)" by (auto simp: bindS_Inr)
  from w(1) Cons.prems(2,3) have "writeFile (share_path out i n) (renderShare fpr i n m (sharePayload (h_card h) sh)) mode600 s = (Inr (), s1)"
    by (simp add: write_share_def ish Let_def)
  note s1 = writeFile_Inr [OF this]
  note IH = Cons.IH [OF w(2) Cons.prems(2,3)]
  have d: "distinct (map fst shs)" "i \<notin> fst ` set shs" using Cons.prems(4) by (simp_all add: ish)
  note IH = IH [OF d(1)]
  have head: "w_files t (share_path out i n) = w_files s1 (share_path out i n)"
    using IH d(2) by (metis share_path_inject)
  have rest: "w_files t q = w_files s q" if "\<forall>j \<in> fst ` set (ish # shs). q \<noteq> share_path out j n" for q
    using that IH s1 by (simp add: ish)
  show ?case
  proof (intro conjI)
    show "\<forall>(i, sh) \<in> set (ish # shs). \<exists>x. w_files t (share_path out i n) = Some x \<and>
        fl_data x = renderShare fpr i n m (sharePayload (h_card h) sh)"
      using IH s1 head by (simp add: ish)
  qed (use rest in blast)
qed simp

lemma restore_command:
  assumes "restoreKey h raw u = (Inr key, u')" "flag g ''in'' \<noteq> []" "w_faults u = []" "w_files u (flag g ''in'') = Some x" "fl_data x = raw"
    and "w_faults u' = []"
  shows "\<exists>v. cmdRestore h g u = (Inr (), v) \<and> (\<exists>y. w_files v (restore_path g) = Some y \<and> fl_data y = key_text key)"
proof -
  have "readFile (flag g ''in'') u = (Inr raw, u)" using assms(3-5) by (simp add: read_ok)
  with assms show ?thesis by (simp add: cmdRestore_def bindS_def write_ok println_def print_text_def)
qed

lemma readPassphrase_faults: "readPassphrase h s = (r, t) \<Longrightarrow> w_faults t = w_faults s"
  by (auto simp: readPassphrase_def readLineRaw_def bindS_def split: option.splits prod.splits sum.splits dest!: readLine_files)

section \<open>Properties\<close>

text \<open>C22. A recovery card restores the key: when \<open>p3sig backup --out\<close> succeeded, then in any later world whose card file is
  that one, \<open>p3sig restore --in\<close> with the same passphrase (none, for a plaintext card) writes the same key file.\<close>

theorem backup_card_restores:
  assumes "cmdBackup h f s = (Inr (), t)" "flag f ''split'' = []" "flag f ''out'' \<noteq> []"
    and "resolveAnyKeyPath h f s = (Inr keyPath, s1)" "loadKey h keyPath s1 = (Inr key, s2)" "length key = privateKeySize"
    and "readPassphraseConfirmed h s2 = (Inr pass, s3)"
    and "sha256_length (h_card h)" "secretbox_opens (h_card h)"
    and "flag g ''in'' = flag f ''out''" "w_faults u = []" "w_files u (flag f ''out'') = w_files t (flag f ''out'')"
    and "readPassphrase h u = (Inr pass, u')"
  shows "\<exists>v. cmdRestore h g u = (Inr (), v) \<and> (\<exists>y. w_files v (restore_path g) = Some y \<and> fl_data y = key_text key)"
proof -
  from assms(1-5,7) obtain payload s4 where w: "card_payload h pass key s3 = (Inr payload, s4)"
    "writeFile (flag f ''out'') (renderCard (keyFingerprint h key) (if pass \<noteq> [] then protection_pass else protection_none) payload) mode600 s4
      = (Inr (), t)"
    by (auto simp: cmdBackup_def bindS_Inr)
  then obtain x where x: "w_files t (flag f ''out'') = Some x"
    "fl_data x = renderCard (keyFingerprint h key) (if pass \<noteq> [] then protection_pass else protection_none) payload"
    using writeFile_Inr by blast
  have "\<exists>u''. restoreKey h (fl_data x) u = (Inr key, u'') \<and> w_faults u'' = []"
  proof (cases "pass = []")
    case True
    with w(1) have "payload = buildBlob (h_card h) cardMagic ([cardModePlain] @ key)" by (simp add: card_payload_def)
    with True x(2) restore_plain [OF assms(8,6) fingerprint_text [of h key], of u] assms(11) show ?thesis by auto
  next
    case False
    with w(1) obtain salt nonce where "payload = buildBlob (h_card h) cardMagic (passBody (h_card h) pass salt nonce key)"
      "length salt = 16" "length nonce = 24"
      by (auto simp: card_payload_def bindS_Inr mustRandom_def)
    with False x(2) restore_pass [OF assms(8,9,6) fingerprint_text [of h key] _ _ assms(13)] readPassphrase_faults [OF assms(13)] assms(11)
    show ?thesis by auto
  qed
  with restore_command [of h "fl_data x" u key] x(1) assms(3,10-12) show ?thesis by auto
qed

text \<open>C21. Any quorum of share cards restores the key: after \<open>p3sig backup --split M-of-N --out\<close>, whichever \<open>M\<close> or more of
  the card files are put together, in any order, \<open>p3sig restore\<close> writes the same key file.\<close>

theorem backup_shares_restore:
  assumes "cmdBackup h f s = (Inr (), t)" "flag f ''split'' \<noteq> []" "flag f ''out'' \<noteq> []"
    and "resolveAnyKeyPath h f s = (Inr keyPath, s1)" "loadKey h keyPath s1 = (Inr key, s2)" "length key = privateKeySize"
    and "parseSplit (flag f ''split'') = Some (m, n)" "sha256_length (h_card h)"
    and "distinct idx" "list_all (\<lambda>i. 1 \<le> i \<and> i \<le> n) idx" "m \<le> int (length idx)"
    and "list_all2 (\<lambda>i d. \<exists>x. w_files t (share_path (flag f ''out'') i n) = Some x \<and> fl_data x = d) idx cards"
    and "flag g ''in'' \<noteq> []" "w_faults u = []" "w_files u (flag g ''in'') = Some c" "fl_data c = concat cards"
  shows "\<exists>v. cmdRestore h g u = (Inr (), v) \<and> (\<exists>y. w_files v (restore_path g) = Some y \<and> fl_data y = key_text key)"
proof -
  let ?fpr = "keyFingerprint h key"
  from assms(1,2,4,5) have "backup_split h f key s2 = (Inr (), t)" by (auto simp: cmdBackup_def bindS_Inr)
  then obtain shares s3 us s4 where sp: "shamirSplitS key m n s2 = (Inr shares, s3)"
    "mapS (write_share h f ?fpr n m) (zip (map (\<lambda>i. int i + 1) [0..<length shares]) shares) s3 = (Inr us, t)"
    using assms(7) by (auto simp: backup_split_def bindS_Inr)
  then obtain rnd where split: "shamirSplit rnd key m n = Inr shares"
    by (auto simp: shamirSplitS_def Let_def split: sum.splits)
  note params = split_params [OF split]
  let ?shs = "zip (map (\<lambda>i. int i + 1) [0..<length shares]) shares"
  have "distinct (map fst ?shs)" by (simp add: distinct_map inj_on_def)
  note files = write_shares_Inr [OF sp(2) refl assms(3) this]
  define sel where "sel = map (\<lambda>i. (i, shares ! (nat i - 1))) idx"
  have mem: "(i, shares ! (nat i - 1)) \<in> set ?shs" "shares ! (nat i - 1) \<in> set shares" if "i \<in> set idx" for i
  proof -
    have b: "1 \<le> i" "nat i - 1 < length shares" using that assms(10) params by (auto simp: list_all_iff)
    then show "shares ! (nat i - 1) \<in> set shares" by simp
    show "(i, shares ! (nat i - 1)) \<in> set ?shs"
      using b unfolding set_zip by (intro CollectI exI [of _ "nat i - 1"]) auto
  qed
  have "cards = map (\<lambda>(i, sh). renderShare ?fpr i n m (sharePayload (h_card h) sh)) sel"
    using assms(12) files mem(1) unfolding sel_def
    by (induction rule: list_all2_induct) fastforce+
  then have raw: "fl_data c = concat (map (\<lambda>(i, sh). renderShare ?fpr i n m (sharePayload (h_card h) sh)) sel)" using assms(16) by simp
  have xs: "sh_x (shares ! (nat i - 1)) = word_of_nat (nat i)" if "i \<in> set idx" for i
  proof -
    have b: "1 \<le> i" "i \<le> n" using that assms(10) by (auto simp: list_all_iff)
    then obtain k where k: "nat i = Suc k" by (cases "nat i") auto
    have "k < nat n" using k b by linarith
    with split k show ?thesis by (auto simp: shamirSplit_Inr)
  qed
  have "distinct (map sh_x (map snd sel))"
  proof -
    have "inj_on (\<lambda>i. sh_x (shares ! (nat i - 1))) (set idx)"
    proof (rule inj_onI)
      fix i j assume ij: "i \<in> set idx" "j \<in> set idx" "sh_x (shares ! (nat i - 1)) = sh_x (shares ! (nat j - 1))"
      moreover have "1 \<le> i" "i \<le> 255" "1 \<le> j" "j \<le> 255" using ij(1,2) assms(10) params by (auto simp: list_all_iff)
      moreover from this have "nat i - 1 < 255" "nat j - 1 < 255" "nat i - 1 + 1 = nat i" "nat j - 1 + 1 = nat j" by auto
      note this(3,4) byte_index [OF this(1)] byte_index [OF this(2)]
      ultimately have "nat i = nat j" using xs by metis
      then show "i = j" using \<open>1 \<le> i\<close> \<open>1 \<le> j\<close> by simp
    qed
    with assms(9) show ?thesis by (simp add: sel_def comp_def distinct_map)
  qed
  moreover have "set (map snd sel) \<subseteq> set shares" using mem(2) by (auto simp: sel_def)
  moreover have "m \<le> int (length sel)" using assms(11) by (simp add: sel_def)
  ultimately have "restoreKey h (fl_data c) u = (Inr key, u)"
    unfolding raw by (intro restore_shares [OF assms(8,6) fingerprint_text split])
  then show ?thesis by (rule restore_command [OF _ assms(13-15) refl assms(14)])
qed

section \<open>An example\<close>

lemma example_card_laws: "sha256_length example_card" "secretbox_opens example_card"
  by (auto simp: sha256_length_def secretbox_opens_def example_card_def min_def)

definition keyed_world :: "unit world" where
  "keyed_world = example_world\<lparr>w_files := [''/k'' \<mapsto> \<lparr>fl_data = key_text example_key, fl_mode = 384\<rparr>]\<rparr>"

lemma keyed_steps:
  assumes "flag f ''key'' = ''/k''"
  shows "resolveAnyKeyPath example_cli f keyed_world = (Inr ''/k'', keyed_world)"
    "loadKey example_cli ''/k'' keyed_world = (Inr example_key, keyed_world)"
    "readPassphraseConfirmed example_cli keyed_world = (Inr [], keyed_world)"
proof -
  have "loadConfigFrom example_cli p w = (Inr (fst r, snd r), w) \<Longrightarrow> True" for p w r by simp
  have lc: "\<exists>c. loadConfigFrom example_cli p keyed_world = (Inr (c, False), keyed_world)" for p
    by (auto simp: loadConfigFrom_def bindS_def tryS_def readFile_def with_fault_ok keyed_world_def example_world_def example_cli_def)
  have "\<exists>c. first_config example_cli ps keyed_world = (Inr (c, []), keyed_world)" for ps
  proof (induction ps)
    case (Cons p ps)
    then show ?case using lc [of p] by (auto simp: bindS_def)
  qed simp
  then obtain c where c: "loadConfig example_cli keyed_world = (Inr (c, []), keyed_world)" by (auto simp: loadConfig_def)
  then show "resolveAnyKeyPath example_cli f keyed_world = (Inr ''/k'', keyed_world)"
    using assms by (simp add: resolveAnyKeyPath_def bindS_def Let_def)
  show "loadKey example_cli ''/k'' keyed_world = (Inr example_key, keyed_world)"
    by (rule loadKey_ok [where x = "\<lparr>fl_data = key_text example_key, fl_mode = 384\<rparr>"]) (simp_all add: keyed_world_def example_world_def isUSBSpec_def)
  show "readPassphraseConfirmed example_cli keyed_world = (Inr [], keyed_world)"
    by (simp add: readPassphraseConfirmed_def readPassphrase_def readLineRaw_def read_line_def bindS_def trim_right_def example_cli_def
        keyed_world_def example_world_def)
qed

theorem backup_card_restores_witness:
  "\<exists>u v y. cmdRestore example_cli [''in'' \<mapsto> ''/o'', ''out'' \<mapsto> ''/r''] u = (Inr (), v) \<and> w_files v ''/r'' = Some y \<and>
     fl_data y = key_text example_key"
proof -
  let ?f = "[''key'' \<mapsto> ''/k'', ''out'' \<mapsto> ''/o'']" and ?g = "[''in'' \<mapsto> ''/o'', ''out'' \<mapsto> ''/r'']"
  have f: "flag ?f ''key'' = ''/k''" "flag ?f ''split'' = []" "flag ?f ''out'' = ''/o''" by (simp_all add: flag_def)
  note k = keyed_steps [OF f(1)]
  obtain t where t: "cmdBackup example_cli ?f keyed_world = (Inr (), t)" "w_faults t = []" "w_stdin t = []"
    using k by (simp add: cmdBackup_def bindS_def f card_payload_def write_ok Let_def keyed_world_def example_world_def)
  have rp: "readPassphrase example_cli t = (Inr [], t)"
    using t(3) by (simp add: readPassphrase_def readLineRaw_def read_line_def bindS_def trim_right_def example_cli_def)
  have cards: "h_card example_cli = example_card" by (simp add: example_cli_def)
  have "\<exists>v. cmdRestore example_cli ?g t = (Inr (), v) \<and> (\<exists>y. w_files v (restore_path ?g) = Some y \<and> fl_data y = key_text example_key)"
    by (rule backup_card_restores [OF t(1) f(2) _ k(1,2) example_key_length k(3) _ _ _ t(2) refl rp])
      (simp_all add: f cards example_card_laws flag_def)
  then show ?thesis by (auto simp: restore_path_def flag_def)
qed

lemma write_shares_ok:
  assumes "w_faults s = []" "flag f ''out'' \<noteq> []"
  shows "\<exists>us t. mapS (write_share h f fpr n m) shs s = (Inr us, t)"
  using assms(1)
proof (induction shs arbitrary: s)
  case (Cons ish shs)
  obtain i sh where "ish = (i, sh)" by (cases ish)
  with Cons.prems assms(2) obtain s1 where s1: "write_share h f fpr n m ish s = (Inr (), s1)" "w_faults s1 = []"
    by (simp add: write_share_def Let_def write_ok)
  from Cons.IH [OF s1(2)] s1(1) show ?case by (auto simp: bindS_def)
qed simp

lemma split_2_of_3: "parseSplit ''2-of-3'' = Some (2, 3)"
proof -
  have t: "trim_space ''2-of-3'' = ''2-of-3''" "trim_space ''2'' = ''2''" "trim_space ''3'' = ''3''"
    by (rule trim_space_id; simp add: space_edge_def go_spaces_def)+
  have "map lower_char ''2-of-3'' = ''2-of-3''" by (simp add: lower_char_def less_eq_char_def)
  then show ?thesis
    by (simp add: parseSplit_def t Let_def sublist_code parse_int64_def digit_val_def is_i64_def)
qed

theorem backup_shares_restore_witness:
  "\<exists>u v y. cmdRestore example_cli [''in'' \<mapsto> ''/i'', ''out'' \<mapsto> ''/r''] u = (Inr (), v) \<and> w_files v ''/r'' = Some y \<and>
     fl_data y = key_text example_key"
proof -
  let ?f = "[''key'' \<mapsto> ''/k'', ''out'' \<mapsto> ''/o'', ''split'' \<mapsto> ''2-of-3'']" and ?g = "[''in'' \<mapsto> ''/i'', ''out'' \<mapsto> ''/r'']"
  have f: "flag ?f ''key'' = ''/k''" "flag ?f ''split'' = ''2-of-3''" "flag ?f ''out'' = ''/o''" by (simp_all add: flag_def)
  note k = keyed_steps [OF f(1)]
  obtain shares s3 where sp: "shamirSplitS example_key 2 3 keyed_world = (Inr shares, s3)" "w_faults s3 = []" "length shares = 3"
    by (simp add: shamirSplitS_def shamirSplit_def Let_def keyed_world_def example_world_def)
  let ?shs = "zip (map (\<lambda>i. int i + 1) [0..<length shares]) shares" and ?p = "keyFingerprint example_cli example_key"
  obtain us t where w: "mapS (write_share example_cli ?f ?p 3 2) ?shs s3 = (Inr us, t)"
    using write_shares_ok [OF sp(2), of ?f example_cli ?p 3 2 ?shs] f(3) by auto
  have b: "cmdBackup example_cli ?f keyed_world = (Inr (), t)"
    using k(1,2) sp(1) w f by (simp add: cmdBackup_def backup_split_def bindS_def split_2_of_3)
  have mem: "(3, shares ! 2) \<in> set ?shs" "(1, shares ! 0) \<in> set ?shs"
    using sp(3) unfolding set_zip by (intro CollectI exI [of _ 2] exI [of _ 0]; simp)+
  have "distinct (map fst ?shs)" by (simp add: distinct_map inj_on_def)
  from write_shares_Inr [OF w refl _ this] mem obtain x1 x3 where
    x: "w_files t (share_path ''/o'' 1 3) = Some x1" "w_files t (share_path ''/o'' 3 3) = Some x3"
    using f(3) by fastforce
  define u where "u = example_world\<lparr>w_files := [''/i'' \<mapsto> \<lparr>fl_data = concat [fl_data x3, fl_data x1], fl_mode = 420\<rparr>]\<rparr>"
  have cards: "h_card example_cli = example_card" by (simp add: example_cli_def)
  have "\<exists>v. cmdRestore example_cli ?g u = (Inr (), v) \<and> (\<exists>y. w_files v (restore_path ?g) = Some y \<and> fl_data y = key_text example_key)"
    by (rule backup_shares_restore [OF b _ _ k(1,2) example_key_length, where idx = "[3, 1]" and m = 2 and n = 3 and cards = "[fl_data x3, fl_data x1]"
        and c = "\<lparr>fl_data = concat [fl_data x3, fl_data x1], fl_mode = 420\<rparr>"])
      (simp_all add: f split_2_of_3 cards example_card_laws x, simp_all add: flag_def u_def example_world_def)
  then show ?thesis by (auto simp: restore_path_def flag_def)
qed

end
