(* ===== verification/AgentPull.thy ===== *)
theory AgentPull
  imports Keys "HOL-Library.Countable"
begin

text \<open>
  \<open>p3sig agent pull\<close> (\<open>main.go\<close>, the files of \<open>policy.go\<close>): pulling the policy, verifying it against the pinned root and the
  last accepted state, and writing sshd's trust files; the loop of \<open>p3sig agent run\<close>. Shown: with a root pinned, whatever
  the server answers and whatever file operation fails, each file sshd reads is the old one or what an accepted policy says, in
  full; versions never go back over any number of pulls; a KRL that does not compile changes nothing. And two weaknesses: a
  user who lost every grant keeps the principals file, and an unreadable state file undoes the pinning.
\<close>

section \<open>The code\<close>

text \<open>
  \<open>h_krl\<close> is \<open>ssh-keygen -k\<close>: the compiled list of a specification, or a failure. \<open>h_order\<close> is the order in which Go visits the users.
  The decoders turn raw results into the values the code reads; \<open>dec_state\<close> is what the state variable holds after \<open>json.Unmarshal\<close>,
  whether or not that succeeded. \<open>refusal_text\<close> is the text of a verification error.
\<close>

record ('k, 's, 'n) agent_host = "('k, 's, 'n) key_host" +
  h_krl :: "string \<Rightarrow> string option"
  h_order :: "string list \<Rightarrow> string list"
  dec_state :: "string \<Rightarrow> policyState"
  enc_state :: "policyState \<Rightarrow> string"
  dec_signed :: "string \<Rightarrow> signedPolicy option"
  dec_ca :: "string \<Rightarrow> string option"
  dec_grants :: "string \<Rightarrow> policy_grant list option"
  dec_krl :: "string \<Rightarrow> string option"
  dec_any :: "string \<Rightarrow> unit option"
  refusal_text :: "policy_error \<Rightarrow> string"

definition no_state :: policyState where
  "no_state = \<lparr>st_RootFP = [], st_Version = 0, st_RevocationsVersion = 0, st_KRLExpires = 0, st_Format = []\<rparr>"

definition no_signed :: signedPolicy where
  "no_signed = \<lparr>sp_RootKey = [], sp_Chain = [], sp_Revocations = None, sp_Policy = \<lparr>sb_Payload = [], sb_Sig = []\<rparr>, sp_Signer = [],
     sp_AccountPolicy = None, sp_Freshness = None, sp_FreshnessSigner = [], sp_FreshnessChain = []\<rparr>"

definition safeUser :: "string \<Rightarrow> bool" where
  "safeUser u \<longleftrightarrow> u \<noteq> [] \<and> length u \<le> 64 \<and>
     list_all (\<lambda>c. c = CHR ''_'' \<or> c = CHR ''-'' \<or> (CHR ''a'' \<le> c \<and> c \<le> CHR ''z'') \<or> (CHR ''0'' \<le> c \<and> c \<le> CHR ''9'')) u"

definition policyStateFile :: string where "policyStateFile = ''.p3sig-policy-state.json''"

definition krl_path :: "string \<Rightarrow> string" where "krl_path d = path_join [d, ''revoked_keys'']"
definition ca_path :: "string \<Rightarrow> string" where "ca_path d = path_join [d, ''trusted_user_ca_keys'']"
definition spec_path :: "string \<Rightarrow> string" where "spec_path d = path_join [d, ''.krl.spec'']"
definition state_path :: "string \<Rightarrow> string" where "state_path d = path_join [d, policyStateFile]"
definition principals_path :: "string \<Rightarrow> string \<Rightarrow> string" where "principals_path d u = path_join [d, ''principals'', u]"

definition writeFileAtomic :: "string \<Rightarrow> string \<Rightarrow> nat \<Rightarrow> ('n, unit) io" where
  "writeFileAtomic path data m =
     bindS (writeFile (path @ ''.tmp'') data m) (\<lambda>_. rename (path @ ''.tmp'') path)"

definition loadPolicyState :: "('k, 's, 'n, 'x) agent_host_scheme \<Rightarrow> string \<Rightarrow> ('n, policyState) io" where
  "loadPolicyState h d =
     bindS (tryS (readFile (state_path d))) (\<lambda>r. case r of Inl _ \<Rightarrow> retS no_state | Inr b \<Rightarrow> retS (dec_state h b))"

definition savePolicyState :: "('k, 's, 'n, 'x) agent_host_scheme \<Rightarrow> string \<Rightarrow> policyState \<Rightarrow> ('n, unit) io" where
  "savePolicyState h d st = writeFileAtomic (state_path d) (enc_state h st @ [nl]) mode600"

text \<open>Running \<open>ssh-keygen\<close>: it reads the specification and writes the list, or fails.\<close>

definition compile_krl :: "('k, 's, 'n, 'x) agent_host_scheme \<Rightarrow> string \<Rightarrow> string \<Rightarrow> ('n, unit) io" where
  "compile_krl h out spec = with_fault (\<lambda>f s.
     case w_files s spec of
       None \<Rightarrow> (Inl (Msg ''compile KRL''), s)
     | Some x \<Rightarrow> (case h_krl h (fl_data x) of
           None \<Rightarrow> (Inl (Msg ''compile KRL''), s)
         | Some k \<Rightarrow> (case f of
               NoFault \<Rightarrow> (Inr (), put_file out k mode644 s)
             | Fails \<Rightarrow> (Inl (Msg ''compile KRL''), s)
             | Partial n \<Rightarrow> (Inl (Msg ''compile KRL''), put_file out (take n k) mode644 s))))"

text \<open>The users of the grants, and the sorted principals of one: the maps of \<open>writeSSHFiles\<close>.\<close>

definition login_users :: "policy_grant list \<Rightarrow> string list" where
  "login_users grants = remdups (map g_LoginUser grants)"

definition principals_text :: "policy_grant list \<Rightarrow> string \<Rightarrow> string" where
  "principals_text grants u =
     join_with [nl] (sort (remdups (map g_Principal (filter (\<lambda>g. g_LoginUser g = u) grants)))) @ [nl]"

definition write_user :: "string \<Rightarrow> policy_grant list \<Rightarrow> unit \<Rightarrow> string \<Rightarrow> ('n, unit) io" where
  "write_user d grants _ u =
     (if \<not> safeUser u then retS () else writeFileAtomic (principals_path d u) (principals_text grants u) mode644)"

definition writeSSHFiles ::
  "('k, 's, 'n, 'x) agent_host_scheme \<Rightarrow> string \<Rightarrow> string \<Rightarrow> policy_grant list \<Rightarrow> string \<Rightarrow> ('n, unit) io" where
  "writeSSHFiles h d caKeys grants krlSpec =
     bindS (writeFile (spec_path d) (krlSpec @ [nl]) mode600) (\<lambda>_.
     bindS (compile_krl h (krl_path d @ ''.tmp'') (spec_path d)) (\<lambda>_.
     bindS (foldS (write_user d grants) () (h_order h (login_users grants))) (\<lambda>_.
     bindS (writeFileAtomic (ca_path d) (caKeys @ [nl]) mode644) (\<lambda>_.
     rename (krl_path d @ ''.tmp'') (krl_path d)))))"

definition reportPolicyStatus ::
  "('k, 's, 'n, 'x) agent_host_scheme \<Rightarrow> string \<Rightarrow> string \<Rightarrow> bytes \<Rightarrow> string \<Rightarrow> string \<Rightarrow> policyState \<Rightarrow> ('n, unit) io" where
  "reportPolicyStatus h apiBase machine key status detail st =
     ignoreS (pullInto h (dec_any h) () apiBase ''reportPolicyStatus'' machine key
       [''status'' \<mapsto> [status], ''detail'' \<mapsto> [detail], ''version'' \<mapsto> [format_int (st_Version st)],
        ''format'' \<mapsto> [firstNonEmpty [st_Format st, ''machine'']], ''valid_until'' \<mapsto> [format_int (st_KRLExpires st)]])"

definition apply_signed ::
  "('k, 's, 'n, 'x) agent_host_scheme \<Rightarrow> string \<Rightarrow> string \<Rightarrow> bytes \<Rightarrow> string \<Rightarrow> string \<Rightarrow> policyState \<Rightarrow> signedPolicy \<Rightarrow> ('n, unit) io" where
  "apply_signed h apiBase machine key d rootFP st sp =
     bindS get_now (\<lambda>now.
     case verifyPolicyAny (h_policy h) sp rootFP machine st now of
       Inl e \<Rightarrow>
         bindS (reportPolicyStatus h apiBase machine key ''refused'' (refusal_text h e) st) (\<lambda>_.
         failS (Ctx ''signed policy REJECTED, old config kept'' (EPolicy e)))
     | Inr p \<Rightarrow>
         bindS (writeSSHFiles h d (join_with [nl] (p_CAKeys p)) (p_Grants p) (p_KRLSpec p)) (\<lambda>_.
         bindS (savePolicyState h d (nextState (h_policy h) sp rootFP p st)) (\<lambda>_.
         reportPolicyStatus h apiBase machine key ''applied'' [] (nextState (h_policy h) sp rootFP p st))))"

definition pull_unsigned ::
  "('k, 's, 'n, 'x) agent_host_scheme \<Rightarrow> string \<Rightarrow> string \<Rightarrow> bytes \<Rightarrow> string \<Rightarrow> ('n, unit) io" where
  "pull_unsigned h apiBase machine key d =
     bindS (wrapS (Ctx ''getTrustedCA'') (pullInto h (dec_ca h) [] apiBase ''getTrustedCA'' machine key Map.empty)) (\<lambda>ca.
     bindS (wrapS (Ctx ''getPrincipals'') (pullInto h (dec_grants h) [] apiBase ''getPrincipals'' machine key Map.empty)) (\<lambda>grants.
     bindS (wrapS (Ctx ''getKRL'') (pullInto h (dec_krl h) [] apiBase ''getKRL'' machine key Map.empty)) (\<lambda>spec.
     writeSSHFiles h d ca grants spec)))"

text \<open>The signed policy of the response, when there is one.\<close>

definition has_signed :: "signedPolicy \<Rightarrow> bool" where
  "has_signed sp \<longleftrightarrow> sb_Payload (sp_Policy sp) \<noteq> [] \<or> sp_AccountPolicy sp \<noteq> None"

text \<open>The pull once the state is read.\<close>

definition pull_body ::
  "('k, 's, 'n, 'x) agent_host_scheme \<Rightarrow> string \<Rightarrow> string \<Rightarrow> bytes \<Rightarrow> string \<Rightarrow> string \<Rightarrow> bool \<Rightarrow> policyState \<Rightarrow> ('n, unit) io" where
  "pull_body h apiBase machine key d rootArg requireSigned st =
     (if rootArg \<noteq> [] \<and> st_RootFP st \<noteq> [] \<and> st_RootFP st \<noteq> rootArg then failS (Msg ''differs from the pinned root'')
      else let rootFP = (if rootArg = [] then st_RootFP st else rootArg);
               mandatory = (requireSigned \<or> st_Version st > 0 \<or> rootFP \<noteq> [])
        in if rootFP \<noteq> [] then
             bindS (tryS (pullInto h (dec_signed h) no_signed apiBase ''getSignedPolicy'' machine key Map.empty)) (\<lambda>r.
             case r of
               Inr sp \<Rightarrow>
                 (if has_signed sp then apply_signed h apiBase machine key d rootFP st sp
                  else if mandatory then failS (Ctx ''signed policy required, old config kept'' (Msg ''server returned no signed policy''))
                  else pull_unsigned h apiBase machine key d)
             | Inl e \<Rightarrow>
                 (if mandatory then failS (Ctx ''signed policy required, old config kept'' e)
                  else pull_unsigned h apiBase machine key d))
           else if mandatory then failS (Msg ''signed policy required but no root pinned'')
           else pull_unsigned h apiBase machine key d)"

definition agentPullWith ::
  "('k, 's, 'n, 'x) agent_host_scheme \<Rightarrow> string \<Rightarrow> string \<Rightarrow> bytes \<Rightarrow> string \<Rightarrow> string \<Rightarrow> bool \<Rightarrow> ('n, unit) io" where
  "agentPullWith h apiBase machine key d rootArg requireSigned =
     bindS (mkdirAll (path_join [d, ''principals''])) (\<lambda>_.
     bindS (loadPolicyState h d) (pull_body h apiBase machine key d rootArg requireSigned))"

definition cmdAgentPull :: "('k, 's, 'n, 'x) agent_host_scheme \<Rightarrow> flags \<Rightarrow> ('n, unit) io" where
  "cmdAgentPull h f =
     bindS (resolve h f) (\<lambda>(apiBase, machine, key, d).
     case signedFlags h f of (root, req) \<Rightarrow> agentPullWith h apiBase machine key d root req)"

definition agentPull :: "('k, 's, 'n, 'x) agent_host_scheme \<Rightarrow> string \<Rightarrow> string \<Rightarrow> bytes \<Rightarrow> string \<Rightarrow> ('n, unit) io" where
  "agentPull h apiBase machine key d =
     agentPullWith h apiBase machine key d (getenv h ''P3SIG_ROOT'') (getenv h ''P3SIG_REQUIRE_SIGNED'' = ''1'')"

subsection \<open>\<open>p3sig agent run\<close>\<close>

definition run_interval :: "flags \<Rightarrow> int" where
  "run_interval f =
     (if flag f ''interval'' \<noteq> [] then
        (case parse_int64 (flag f ''interval'') of Some n \<Rightarrow> if n > 0 then n else 300 | None \<Rightarrow> 300)
      else 300)"

text \<open>\<open>time.Sleep\<close>; the product \<open>time.Duration(interval) * time.Second\<close> wraps, and a duration that is not positive does not wait.\<close>

definition sleep_seconds :: "int \<Rightarrow> ('n, unit) io" where
  "sleep_seconds n s = (Inr (), s\<lparr>w_now := w_now s + max 0 (i64 (n * second))\<rparr>)"

text \<open>The loop never ends; its first \<open>n\<close> rounds.\<close>

primrec run_rounds ::
  "nat \<Rightarrow> ('k, 's, 'n, 'x) agent_host_scheme \<Rightarrow> int \<Rightarrow> string \<Rightarrow> string \<Rightarrow> bytes \<Rightarrow> string \<Rightarrow> string \<Rightarrow> bool \<Rightarrow> ('n, unit) io" where
  "run_rounds 0 h iv apiBase machine key d root req = retS ()"
| "run_rounds (Suc n) h iv apiBase machine key d root req =
     bindS (ignoreS (agentPullWith h apiBase machine key d root req)) (\<lambda>_.
     bindS (sleep_seconds iv) (\<lambda>_. run_rounds n h iv apiBase machine key d root req))"

definition cmdAgentRun :: "nat \<Rightarrow> ('k, 's, 'n, 'x) agent_host_scheme \<Rightarrow> flags \<Rightarrow> ('n, unit) io" where
  "cmdAgentRun n h f =
     bindS (resolve h f) (\<lambda>(apiBase, machine, key, d).
     case signedFlags h f of (root, req) \<Rightarrow> run_rounds n h (run_interval f) apiBase machine key d root req)"

section \<open>The files\<close>

text \<open>The files sshd reads, and what they hold for given CA keys, grants and revocation specification.\<close>

definition sshd_path :: "string \<Rightarrow> string \<Rightarrow> bool" where
  "sshd_path d q \<longleftrightarrow> q = ca_path d \<or> q = krl_path d \<or> (\<exists>u. safeUser u \<and> q = principals_path d u)"

text \<open>The principals granted to a login user, each once, in order, one on a line.\<close>

definition granted_lines :: "policy_grant list \<Rightarrow> string \<Rightarrow> string" where
  "granted_lines grants u =
     join_with [nl] (sorted_list_of_set (g_Principal ` {g \<in> set grants. g_LoginUser g = u})) @ [nl]"

lemma granted_lines_text: "granted_lines grants u = principals_text grants u"
  by (simp add: granted_lines_def principals_text_def sorted_list_of_set_sort_remdups [symmetric])

definition installed ::
  "('k, 's, 'n, 'x) agent_host_scheme \<Rightarrow> string \<Rightarrow> string \<Rightarrow> policy_grant list \<Rightarrow> string \<Rightarrow> string \<Rightarrow> string \<Rightarrow> bool" where
  "installed h d ca grants spec q content \<longleftrightarrow>
     q = ca_path d \<and> content = ca @ [nl] \<or>
     q = krl_path d \<and> h_krl h (spec @ [nl]) = Some content \<or>
     (\<exists>u. safeUser u \<and> u \<in> g_LoginUser ` set grants \<and> q = principals_path d u \<and> content = granted_lines grants u)"

lemma safe_char:
  "c = CHR ''_'' \<or> c = CHR ''-'' \<or> (CHR ''a'' \<le> c \<and> c \<le> CHR ''z'') \<or> (CHR ''0'' \<le> c \<and> c \<le> CHR ''9'') \<Longrightarrow>
   c \<noteq> CHR ''.'' \<and> c \<noteq> slash"
  by (auto simp: less_eq_char_def)

lemma safe_plain: "safeUser u \<Longrightarrow> plain_name u \<and> CHR ''.'' \<notin> set u"
proof -
  assume "safeUser u"
  then have c: "list_all (\<lambda>c. c \<noteq> CHR ''.'' \<and> c \<noteq> slash) u" and ne: "u \<noteq> []"
    unfolding safeUser_def list_all_iff using safe_char by blast+
  then have "CHR ''.'' \<notin> set u" "slash \<notin> set u" by (auto simp: list_all_iff)
  with ne show ?thesis by (auto simp: plain_name_def)
qed

lemma agent_names [simp]:
  "plain_name ''principals''" "plain_name ''revoked_keys''" "plain_name ''trusted_user_ca_keys''" "plain_name ''.krl.spec''"
  "plain_name policyStateFile" "plain_name ''revoked_keys.tmp''" "plain_name ''trusted_user_ca_keys.tmp''"
  "plain_name (policyStateFile @ ''.tmp'')" "plain_name ''.p3sig-policy-state.json''" "plain_name ''.p3sig-policy-state.json.tmp''"
  by (simp_all add: plain_name_def policyStateFile_def)

lemma principals_tmp: "safeUser u \<Longrightarrow> principals_path d u @ ''.tmp'' = path_join [d, ''principals'', u @ ''.tmp''] \<and> plain_name (u @ ''.tmp'')"
  using safe_plain [of u] path_join_suffix [of "[''principals'']" u "''.tmp''" d]
  by (auto simp: principals_path_def plain_name_def)

lemma agent_tmps:
  "krl_path d @ ''.tmp'' = path_join [d, ''revoked_keys.tmp'']" "ca_path d @ ''.tmp'' = path_join [d, ''trusted_user_ca_keys.tmp'']"
  "state_path d @ ''.tmp'' = path_join [d, policyStateFile @ ''.tmp'']"
  using path_join_suffix [of "[]" "''revoked_keys''" "''.tmp''" d] path_join_suffix [of "[]" "''trusted_user_ca_keys''" "''.tmp''" d]
    path_join_suffix [of "[]" policyStateFile "''.tmp''" d]
  by (simp_all add: krl_path_def ca_path_def state_path_def)

lemmas agent_paths = krl_path_def ca_path_def spec_path_def state_path_def principals_path_def

text \<open>The paths the agent writes besides sshd's files are none of sshd's files.\<close>

lemma not_sshd:
  "\<not> sshd_path d (spec_path d)" "\<not> sshd_path d (state_path d)" "\<not> sshd_path d (krl_path d @ ''.tmp'')"
  "\<not> sshd_path d (ca_path d @ ''.tmp'')" "\<not> sshd_path d (state_path d @ ''.tmp'')"
  "safeUser u \<Longrightarrow> \<not> sshd_path d (principals_path d u @ ''.tmp'')"
proof -
  show "\<not> sshd_path d (spec_path d)" "\<not> sshd_path d (state_path d)" "\<not> sshd_path d (krl_path d @ ''.tmp'')"
    "\<not> sshd_path d (ca_path d @ ''.tmp'')" "\<not> sshd_path d (state_path d @ ''.tmp'')"
    unfolding sshd_path_def agent_tmps using safe_plain by (auto simp: agent_paths policyStateFile_def)
  show "\<not> sshd_path d (principals_path d u @ ''.tmp'')" if "safeUser u"
  proof
    assume "sshd_path d (principals_path d u @ ''.tmp'')"
    with principals_tmp [OF that, of d] obtain v where "safeUser v" "v = u @ ''.tmp''"
      using safe_plain by (auto simp: sshd_path_def agent_paths)
    with safe_plain [of v] show False by simp
  qed
qed

lemma path_distinct:
  "ca_path d \<noteq> krl_path d" "krl_path d @ ''.tmp'' \<noteq> spec_path d" "krl_path d @ ''.tmp'' \<noteq> ca_path d @ ''.tmp''"
  "krl_path d @ ''.tmp'' \<noteq> ca_path d" "state_path d \<noteq> krl_path d @ ''.tmp''" "state_path d \<noteq> ca_path d @ ''.tmp''"
  "state_path d \<noteq> spec_path d"
  "safeUser u \<Longrightarrow> principals_path d u \<noteq> krl_path d @ ''.tmp''" "safeUser u \<Longrightarrow> principals_path d u @ ''.tmp'' \<noteq> krl_path d @ ''.tmp''"
  "safeUser u \<Longrightarrow> principals_path d u @ ''.tmp'' \<noteq> state_path d"
  "safeUser u \<Longrightarrow> principals_path d u \<noteq> ca_path d" "safeUser u \<Longrightarrow> principals_path d u \<noteq> krl_path d"
  "safeUser u \<Longrightarrow> safeUser v \<Longrightarrow> principals_path d u = principals_path d v \<longleftrightarrow> u = v"
  using safe_plain [of u] safe_plain [of v] principals_tmp [of u d]
  by (simp_all add: agent_tmps) (simp_all add: agent_paths policyStateFile_def)

subsection \<open>Replacing a file\<close>

lemma atomic_Inr:
  assumes "writeFileAtomic p d m s = (Inr (), t)"
  shows "(\<exists>x. w_files t p = Some x \<and> fl_data x = d) \<and> (\<forall>q. q \<noteq> p \<longrightarrow> q \<noteq> p @ ''.tmp'' \<longrightarrow> w_files t q = w_files s q)"
proof -
  from assms obtain u where u: "writeFile (p @ ''.tmp'') d m s = (Inr (), u)" "rename (p @ ''.tmp'') p u = (Inr (), t)"
    by (auto simp: writeFileAtomic_def bindS_Inr)
  from writeFile_Inr [OF u(1)] rename_Inr [OF u(2)] show ?thesis by auto
qed

text \<open>Whatever fails, the file is the old one or all of the new one.\<close>

lemma preserves_atomic:
  assumes "\<And>fs x. P fs \<Longrightarrow> P (fs(p @ ''.tmp'' \<mapsto> x))"
    and "\<And>fs x. P fs \<Longrightarrow> fl_data x = d \<Longrightarrow> P ((fs(p @ ''.tmp'' := None))(p \<mapsto> x))"
  shows "preserves (files_inv P) (writeFileAtomic p d m)"
proof -
  let ?J = "\<lambda>s. files_inv P s \<and> (\<exists>x. w_files s (p @ ''.tmp'') = Some x \<and> fl_data x = d)"
  have w: "hoare (files_inv P) (writeFile (p @ ''.tmp'') d m) (\<lambda>_. ?J) (\<lambda>_. files_inv P)"
    by (rule hoareI)
      (auto simp: writeFile_def with_fault_def put_file_def files_inv_def assms(1) split: list.splits fault.splits)
  have r: "hoare ?J (rename (p @ ''.tmp'') p) (\<lambda>_. files_inv P) (\<lambda>_. files_inv P)"
    by (rule hoareI)
      (auto simp: rename_def with_fault_def files_inv_def assms(2) split: list.splits if_splits)
  have "hoare (files_inv P) (writeFileAtomic p d m) (\<lambda>_. files_inv P) (\<lambda>_. files_inv P)"
    unfolding writeFileAtomic_def by (rule hoare_bind [OF w]) (rule r)
  then show ?thesis by (rule preserves_hoare)
qed

section \<open>Writing the trust files\<close>

text \<open>Go visits each key of a map once, in some order.\<close>

definition visits_all :: "('k, 's, 'n, 'x) agent_host_scheme \<Rightarrow> bool" where
  "visits_all h \<longleftrightarrow> (\<forall>ks. distinct ks \<longrightarrow> enumerates (h_order h ks) (set ks))"

lemma visited: "visits_all h \<Longrightarrow> set (h_order h (login_users grants)) = g_LoginUser ` set grants"
  by (auto simp: visits_all_def enumerates_def login_users_def)

lemma foldS_users_Inr:
  assumes "foldS (write_user d grants) b us s = (Inr b', t)"
  shows "(\<forall>u \<in> set us. safeUser u \<longrightarrow> (\<exists>x. w_files t (principals_path d u) = Some x \<and> fl_data x = principals_text grants u)) \<and>
    (\<forall>q. (\<forall>u \<in> set us. safeUser u \<longrightarrow> q \<noteq> principals_path d u \<and> q \<noteq> principals_path d u @ ''.tmp'') \<longrightarrow> w_files t q = w_files s q)"
  using assms
proof (induction us arbitrary: s b)
  case (Cons u us)
  from Cons.prems obtain c s1 where w: "write_user d grants b u s = (Inr c, s1)" "foldS (write_user d grants) c us s1 = (Inr b', t)"
    by (auto simp: bindS_Inr)
  note IH = Cons.IH [OF w(2)]
  show ?case
  proof (cases "safeUser u")
    case False
    with w(1) have "s1 = s" by (simp add: write_user_def)
    with False IH show ?thesis by auto
  next
    case True
    with w(1) have "writeFileAtomic (principals_path d u) (principals_text grants u) mode644 s = (Inr (), s1)" by (simp add: write_user_def)
    note s1 = atomic_Inr [OF this]
    have "\<exists>x. w_files t (principals_path d u) = Some x \<and> fl_data x = principals_text grants u"
    proof (cases "u \<in> set us")
      case False
      have "w_files t (principals_path d u) = w_files s1 (principals_path d u)"
      proof (rule IH [THEN conjunct2, rule_format])
        fix v assume v: "v \<in> set us" "safeUser v"
        have "principals_path d u \<noteq> principals_path d v @ ''.tmp''"
          using not_sshd(6) [OF v(2), of d] True by (auto simp: sshd_path_def)
        with v False True path_distinct(13) [OF True v(2)] show "principals_path d u \<noteq> principals_path d v \<and>
            principals_path d u \<noteq> principals_path d v @ ''.tmp''" by auto
      qed
      with s1 show ?thesis by simp
    qed (use IH True in blast)
    moreover have "w_files t q = w_files s q"
      if "\<forall>v \<in> set (u # us). safeUser v \<longrightarrow> q \<noteq> principals_path d v \<and> q \<noteq> principals_path d v @ ''.tmp''" for q
    proof -
      have "w_files t q = w_files s1 q" using IH that by simp
      also have "\<dots> = w_files s q" using s1 that True by simp
      finally show ?thesis .
    qed
    ultimately show ?thesis using IH by simp
  qed
qed simp

lemma compile_Inr:
  "compile_krl h out spec s = (Inr (), t) \<Longrightarrow>
     \<exists>x k y. w_files s spec = Some x \<and> h_krl h (fl_data x) = Some k \<and> w_files t out = Some y \<and> fl_data y = k \<and>
       (\<forall>q. q \<noteq> out \<longrightarrow> w_files t q = w_files s q)"
  by (auto simp: compile_krl_def with_fault_def put_file_def split: list.splits option.splits fault.splits)

lemma sshd_cases: "sshd_path d q \<Longrightarrow> q \<noteq> spec_path d \<and> q \<noteq> krl_path d @ ''.tmp'' \<and> q \<noteq> ca_path d @ ''.tmp'' \<and>
    q \<noteq> state_path d \<and> q \<noteq> state_path d @ ''.tmp'' \<and> (\<forall>u. safeUser u \<longrightarrow> q \<noteq> principals_path d u @ ''.tmp'')"
  using not_sshd by blast

lemma principals_sshd: "safeUser u \<Longrightarrow> sshd_path d (principals_path d u)"
  by (auto simp: sshd_path_def)

lemma writeSSHFiles_Inr:
  assumes "writeSSHFiles h d ca grants spec s = (Inr (), t)" "visits_all h"
  shows "(\<exists>x. w_files t (ca_path d) = Some x \<and> fl_data x = ca @ [nl]) \<and>
    (\<exists>x k. w_files t (krl_path d) = Some x \<and> h_krl h (spec @ [nl]) = Some k \<and> fl_data x = k) \<and>
    (\<forall>u. safeUser u \<longrightarrow> (if u \<in> g_LoginUser ` set grants
       then \<exists>x. w_files t (principals_path d u) = Some x \<and> fl_data x = principals_text grants u
       else w_files t (principals_path d u) = w_files s (principals_path d u)))"
proof -
  let ?kt = "krl_path d @ ''.tmp''"
  from assms(1) obtain s1 s2 b s3 s4 where
    1: "writeFile (spec_path d) (spec @ [nl]) mode600 s = (Inr (), s1)" and
    2: "compile_krl h ?kt (spec_path d) s1 = (Inr (), s2)" and
    3: "foldS (write_user d grants) () (h_order h (login_users grants)) s2 = (Inr b, s3)" and
    4: "writeFileAtomic (ca_path d) (ca @ [nl]) mode644 s3 = (Inr (), s4)" and
    5: "rename ?kt (krl_path d) s4 = (Inr (), t)"
    by (auto simp: writeSSHFiles_def bindS_Inr)
  note f1 = writeFile_Inr [OF 1]
  from compile_Inr [OF 2] f1 obtain k y where k: "h_krl h (spec @ [nl]) = Some k" "w_files s2 ?kt = Some y" "fl_data y = k"
    "\<forall>q. q \<noteq> ?kt \<longrightarrow> w_files s2 q = w_files s1 q" by auto
  note f3 = foldS_users_Inr [OF 3, unfolded visited [OF assms(2)]]
  note f4 = atomic_Inr [OF 4]
  note f5 = rename_Inr [OF 5, simplified]
  have "w_files s4 ?kt = w_files s3 ?kt" using f4 path_distinct(3,4) by simp
  also have "w_files s3 ?kt = w_files s2 ?kt"
    using path_distinct(8,9) by (intro f3 [THEN conjunct2, rule_format]) metis
  finally have krl: "w_files t (krl_path d) = Some y" using f5 k(2) by simp
  have ca: "w_files t (ca_path d) = w_files s4 (ca_path d)"
    using f5 path_distinct(1,4) [of d] by auto
  have user: "w_files t (principals_path d u) = w_files s3 (principals_path d u)" if "safeUser u" for u
  proof -
    have "w_files t (principals_path d u) = w_files s4 (principals_path d u)"
      using f5 path_distinct(8,12) [OF that, of d] by simp
    also have "\<dots> = w_files s3 (principals_path d u)"
      using f4 path_distinct(11) [OF that, of d] sshd_cases [OF principals_sshd [OF that, of d]] by simp
    finally show ?thesis .
  qed
  have old: "w_files s3 (principals_path d u) = w_files s (principals_path d u)" if u: "safeUser u" "u \<notin> g_LoginUser ` set grants" for u
  proof -
    note sp = principals_sshd [OF u(1), of d]
    have "w_files s3 (principals_path d u) = w_files s2 (principals_path d u)"
    proof (rule f3 [THEN conjunct2, rule_format])
      fix v assume v: "v \<in> g_LoginUser ` set grants" "safeUser v"
      with u have "u \<noteq> v" by blast
      with path_distinct(13) [OF u(1) v(2)] sshd_cases [OF sp] v(2)
      show "principals_path d u \<noteq> principals_path d v \<and> principals_path d u \<noteq> principals_path d v @ ''.tmp''" by blast
    qed
    also have "\<dots> = w_files s (principals_path d u)" using k(4) f1 sshd_cases [OF sp] by simp
    finally show ?thesis .
  qed
  show ?thesis
  proof (intro conjI allI impI)
    show "\<exists>x. w_files t (ca_path d) = Some x \<and> fl_data x = ca @ [nl]" using f4 ca by simp
    show "\<exists>x k. w_files t (krl_path d) = Some x \<and> h_krl h (spec @ [nl]) = Some k \<and> fl_data x = k" using krl k by simp
  next
    fix u assume u: "safeUser u"
    show "if u \<in> g_LoginUser ` set grants then \<exists>x. w_files t (principals_path d u) = Some x \<and> fl_data x = principals_text grants u
       else w_files t (principals_path d u) = w_files s (principals_path d u)"
      using user [OF u] old [OF u] f3 [THEN conjunct1, rule_format, of u] u by (simp split: if_split)
  qed
qed

text \<open>Under any faults, each of sshd's files is the old one or the complete new one.\<close>

definition old_or_new ::
  "('k, 's, 'n, 'x) agent_host_scheme \<Rightarrow> string \<Rightarrow> (string \<Rightarrow> inode option) \<Rightarrow> string \<Rightarrow> policy_grant list \<Rightarrow> string
    \<Rightarrow> (string \<Rightarrow> inode option) \<Rightarrow> bool" where
  "old_or_new h d fs0 ca grants spec fs \<longleftrightarrow>
     (\<forall>q. sshd_path d q \<longrightarrow> fs q = fs0 q \<or> (\<exists>x. fs q = Some x \<and> installed h d ca grants spec q (fl_data x)))"

lemma old_or_new_other: "old_or_new h d fs0 ca grants spec fs \<Longrightarrow> \<not> sshd_path d p \<Longrightarrow> old_or_new h d fs0 ca grants spec (fs(p := x))"
  by (auto simp: old_or_new_def)

lemma old_or_new_new:
  "old_or_new h d fs0 ca grants spec fs \<Longrightarrow> installed h d ca grants spec p (fl_data x) \<Longrightarrow>
   old_or_new h d fs0 ca grants spec (fs(p \<mapsto> x))"
  by (auto simp: old_or_new_def)

lemma preserves_install:
  assumes "\<not> sshd_path d (p @ ''.tmp'')" "installed h d ca grants spec p c" "kt \<noteq> p" "kt \<noteq> p @ ''.tmp''"
  shows "preserves (files_inv (\<lambda>fs. old_or_new h d fs0 ca grants spec fs \<and> (\<exists>x. fs kt = Some x \<and> R x))) (writeFileAtomic p c m)"
proof (rule preserves_atomic)
  fix fs x assume P: "old_or_new h d fs0 ca grants spec fs \<and> (\<exists>x. fs kt = Some x \<and> R x)"
  note o = old_or_new_other [OF conjunct1 [OF P] assms(1)]
  show "old_or_new h d fs0 ca grants spec (fs(p @ ''.tmp'' \<mapsto> x)) \<and> (\<exists>y. (fs(p @ ''.tmp'' \<mapsto> x)) kt = Some y \<and> R y)"
    using P assms(4) o by simp
  assume x: "fl_data x = c"
  show "old_or_new h d fs0 ca grants spec ((fs(p @ ''.tmp'' := None))(p \<mapsto> x)) \<and>
      (\<exists>y. ((fs(p @ ''.tmp'' := None))(p \<mapsto> x)) kt = Some y \<and> R y)"
    using P assms(2-4) old_or_new_new [OF o, of p x] x by simp
qed

lemma preserves_writeSSHFiles:
  assumes "visits_all h"
  shows "preserves (files_inv (old_or_new h d fs0 ca grants spec)) (writeSSHFiles h d ca grants spec)"
proof -
  let ?P = "old_or_new h d fs0 ca grants spec" and ?kt = "krl_path d @ ''.tmp''"
  let ?Q = "\<lambda>fs. ?P fs \<and> (\<exists>x. fs ?kt = Some x \<and> h_krl h (spec @ [nl]) = Some (fl_data x))"
  let ?S = "\<lambda>s. files_inv ?P s \<and> (\<exists>x. w_files s (spec_path d) = Some x \<and> fl_data x = spec @ [nl])"
  have 1: "hoare (files_inv ?P) (writeFile (spec_path d) (spec @ [nl]) mode600) (\<lambda>_. ?S) (\<lambda>_. files_inv ?P)"
    by (rule hoareI)
      (auto simp: writeFile_def with_fault_def put_file_def files_inv_def not_sshd intro!: old_or_new_other split: list.splits fault.splits)
  have 2: "hoare ?S (compile_krl h ?kt (spec_path d)) (\<lambda>_. files_inv ?Q) (\<lambda>_. files_inv ?P)"
    by (rule hoareI)
      (auto simp: compile_krl_def with_fault_def put_file_def files_inv_def not_sshd intro!: old_or_new_other
        split: list.splits option.splits fault.splits)
  have user: "preserves (files_inv ?Q) (write_user d grants b u)" if "u \<in> set (h_order h (login_users grants))" for b u
  proof (cases "safeUser u")
    case True
    have inst: "installed h d ca grants spec (principals_path d u) (principals_text grants u)"
      using True that visited [OF assms] by (auto simp: installed_def granted_lines_text)
    note ne = path_distinct(8,9) [OF True, of d]
    show ?thesis
      using preserves_install [OF not_sshd(6) [OF True] inst ne [symmetric]] True by (simp add: write_user_def)
  qed (simp add: write_user_def preserves_def)
  have 3: "preserves (files_inv ?Q) (foldS (write_user d grants) () (h_order h (login_users grants)))"
    by (rule preserves_foldS) (rule user)
  have inst: "installed h d ca grants spec (ca_path d) (ca @ [nl])" by (simp add: installed_def)
  have 4: "preserves (files_inv ?Q) (writeFileAtomic (ca_path d) (ca @ [nl]) mode644)"
    by (rule preserves_install [OF not_sshd(4) inst path_distinct(4,3)])
  have 5: "hoare (files_inv ?Q) (rename ?kt (krl_path d)) (\<lambda>_. files_inv ?P) (\<lambda>_. files_inv ?P)"
    by (rule hoareI)
      (auto simp: rename_def with_fault_def files_inv_def installed_def not_sshd intro!: old_or_new_new [OF old_or_new_other]
        split: list.splits if_splits)
  have weak: "files_inv ?Q s \<Longrightarrow> files_inv ?P s" for s :: "'n world" by (simp add: files_inv_def)
  show ?thesis
    unfolding writeSSHFiles_def
    by (rule preserves_hoare, rule hoare_bind [OF 1], rule hoare_bind [OF 2],
      rule hoare_bind [OF hoare_conseq [OF hoare_preserves [OF 3]]], assumption, assumption, erule weak,
      rule hoare_bind [OF hoare_conseq [OF hoare_preserves [OF 4]]], assumption, assumption, erule weak, rule 5)
qed

section \<open>One pull\<close>

text \<open>The state the agent keeps, as far as it can be read: the read is the second file operation of a pull.\<close>

definition state_of :: "('k, 's, 'n, 'x) agent_host_scheme \<Rightarrow> string \<Rightarrow> 'n world \<Rightarrow> policyState" where
  "state_of h d s = (case w_files s (state_path d) of None \<Rightarrow> no_state | Some x \<Rightarrow> dec_state h (fl_data x))"

definition state_readable :: "'n world \<Rightarrow> bool" where
  "state_readable s \<longleftrightarrow> (case w_faults s of _ # f # _ \<Rightarrow> f = NoFault | _ \<Rightarrow> True)"

lemma pull_prefix:
  assumes "agentPullWith h a m k d root req s = (r, t)" "state_readable s"
  shows "(\<exists>e. r = Inl e) \<and> w_files t = w_files s \<or>
    (\<exists>u. w_files u = w_files s \<and> w_now u = w_now s \<and> pull_body h a m k d root req (state_of h d s) u = (r, t))"
  using assms
  by (auto simp: agentPullWith_def loadPolicyState_def bindS_def tryS_def mkdirAll_def readFile_def with_fault_def state_readable_def
      state_of_def split: list.splits if_splits option.splits)

lemma ignore_net: "ignoreS (pullInto h dec z a act m k ex) s = (r, t) \<Longrightarrow> only_net s t"
  by (cases "pullInto h dec z a act m k ex s") (auto simp: ignoreS_def dest: request_frame(2))

lemma report_net: "reportPolicyStatus h a m k status detail st s = (r, t) \<Longrightarrow> only_net s t"
  unfolding reportPolicyStatus_def by (rule ignore_net)

text \<open>Either nothing changed, or a policy was accepted and its files and state were being written.\<close>

lemma apply_signed_cases:
  assumes "apply_signed h a m k d root st sp s = (r, t)"
  shows "w_files t = w_files s \<and> (\<exists>e. r = Inl e) \<or>
    (\<exists>p. verifyPolicyAny (h_policy h) sp root m st (w_now s) = Inr p \<and>
       (\<exists>v u. bindS (writeSSHFiles h d (join_with [nl] (p_CAKeys p)) (p_Grants p) (p_KRLSpec p))
          (\<lambda>_. savePolicyState h d (nextState (h_policy h) sp root p st)) s = (v, u) \<and> w_files t = w_files u \<and>
          ((\<exists>e. r = Inl e) \<longleftrightarrow> (\<exists>e. v = Inl e))))"
proof (cases "verifyPolicyAny (h_policy h) sp root m st (w_now s)")
  case (Inl e)
  with assms have "reportPolicyStatus h a m k ''refused'' (refusal_text h e) st s = (Inr (), t)" "\<exists>e. r = Inl e"
    by (auto simp: apply_signed_def bindS_def get_now_def reportPolicyStatus_def ignoreS_def)
  with only_netD [OF report_net] show ?thesis by blast
next
  case (Inr p)
  let ?w = "writeSSHFiles h d (join_with [nl] (p_CAKeys p)) (p_Grants p) (p_KRLSpec p)"
    and ?s = "\<lambda>_. savePolicyState h d (nextState (h_policy h) sp root p st)"
  obtain v u where v: "bindS ?w ?s s = (v, u)" by (cases "bindS ?w ?s s")
  have "w_files t = w_files u \<and> ((\<exists>e. r = Inl e) \<longleftrightarrow> (\<exists>e. v = Inl e))"
  proof (cases v)
    case (Inl e)
    with v assms Inr show ?thesis
      by (auto simp: apply_signed_def bindS_def get_now_def split: prod.splits sum.splits)
  next
    case (Inr x)
    with v assms \<open>verifyPolicyAny (h_policy h) sp root m st (w_now s) = Inr p\<close>
    have "reportPolicyStatus h a m k ''applied'' [] (nextState (h_policy h) sp root p st) u = (r, t)"
      by (auto simp: apply_signed_def bindS_def get_now_def split: prod.splits sum.splits)
    moreover from this have "r = Inr ()" by (auto simp: reportPolicyStatus_def ignoreS_def)
    ultimately show ?thesis using only_netD(1) [OF report_net] Inr by auto
  qed
  with Inr v show ?thesis by blast
qed

lemma body_cases:
  assumes "pull_body h a m k d rootArg req st s = (r, t)" "root = (if rootArg = [] then st_RootFP st else rootArg)" "root \<noteq> []"
  shows "w_files t = w_files s \<and> (\<exists>e. r = Inl e) \<or>
    (\<exists>sp u. only_net s u \<and> apply_signed h a m k d root st sp u = (r, t) \<and> (st_RootFP st \<noteq> [] \<longrightarrow> root = st_RootFP st))"
proof (cases "rootArg \<noteq> [] \<and> st_RootFP st \<noteq> [] \<and> st_RootFP st \<noteq> rootArg")
  case True
  with assms show ?thesis by (auto simp: pull_body_def)
next
  case False
  let ?pull = "pullInto h (dec_signed h) no_signed a ''getSignedPolicy'' m k Map.empty"
  obtain q u where q: "?pull s = (q, u)" by (cases "?pull s")
  note u = request_frame(2) [OF q]
  show ?thesis
  proof (cases q)
    case (Inl e)
    with q assms False only_netD(1) [OF u] show ?thesis
      by (auto simp: pull_body_def Let_def bindS_def tryS_def split: if_splits)
  next
    case (Inr sp)
    with q assms False only_netD(1) [OF u] u show ?thesis
      by (auto simp: pull_body_def Let_def bindS_def tryS_def split: if_splits)
  qed
qed

text \<open>Saving the state leaves sshd's files alone, and writing them the state.\<close>

lemma save_sshd: "preserves (files_inv (\<lambda>fs. \<forall>q. sshd_path d q \<longrightarrow> R q (fs q))) (savePolicyState h d st)"
  unfolding savePolicyState_def using not_sshd(2,5) [of d] by (intro preserves_atomic) auto

lemma write_state: "preserves (files_inv (\<lambda>fs. fs (state_path d) = x)) (writeSSHFiles h d ca grants spec)"
proof -
  have ne: "state_path d \<noteq> spec_path d" "state_path d \<noteq> krl_path d @ ''.tmp''" "state_path d \<noteq> ca_path d @ ''.tmp''"
    "state_path d \<noteq> ca_path d" "state_path d \<noteq> krl_path d"
    "\<And>u. safeUser u \<Longrightarrow> state_path d \<noteq> principals_path d u" "\<And>u. safeUser u \<Longrightarrow> state_path d \<noteq> principals_path d u @ ''.tmp''"
    using path_distinct(5,6,7) path_distinct(10) [THEN not_sym] not_sshd(2) [of d] by (auto simp: sshd_path_def)
  have user: "preserves (files_inv (\<lambda>fs. fs (state_path d) = x)) (write_user d grants b u)" for b u
    unfolding write_user_def using ne(6,7) [of u] by (auto intro!: preserves_intros preserves_atomic)
  have krl: "preserves (files_inv (\<lambda>fs. fs (state_path d) = x)) (compile_krl h (krl_path d @ ''.tmp'') (spec_path d))"
    unfolding compile_krl_def using ne(2)
    by (intro with_fault_preserves) (auto simp: preserves_def files_inv_def put_file_def split: option.split fault.split)
  show ?thesis
    unfolding writeSSHFiles_def
    by (intro preserves_bind preserves_foldS user krl preserves_writeFile preserves_rename preserves_atomic) (use ne in auto)
qed

text \<open>A file an accepted policy put there: under the pinned root, from a state not older than \<open>v\<close>.\<close>

definition accepted_file ::
  "('k, 's, 'n, 'x) agent_host_scheme \<Rightarrow> string \<Rightarrow> string \<Rightarrow> string \<Rightarrow> int \<Rightarrow> string \<Rightarrow> string \<Rightarrow> bool" where
  "accepted_file h d root m v q content \<longleftrightarrow>
     (\<exists>sp p st now. verifyPolicyAny (h_policy h) sp root m st now = Inr p \<and> v \<le> st_Version st \<and> v \<le> p_Version p \<and>
        installed h d (join_with [nl] (p_CAKeys p)) (p_Grants p) (p_KRLSpec p) q content)"

lemma accepted_version: "verifyPolicyAny env sp root m st now = Inr p \<Longrightarrow> st_Version st \<le> p_Version p"
  using accepted_in_force by blast

lemma pull_files:
  assumes "agentPullWith h a m k d rootArg req s = (r, t)" "state_readable s" "visits_all h"
    and "root = (if rootArg = [] then st_RootFP (state_of h d s) else rootArg)" "root \<noteq> []" "sshd_path d q"
  shows "w_files t q = w_files s q \<or>
    (st_RootFP (state_of h d s) \<noteq> [] \<longrightarrow> root = st_RootFP (state_of h d s)) \<and>
    (\<exists>x. w_files t q = Some x \<and> accepted_file h d root m (st_Version (state_of h d s)) q (fl_data x))"
proof -
  let ?st = "state_of h d s"
  from pull_prefix [OF assms(1,2)] consider "w_files t = w_files s"
    | u where "w_files u = w_files s" "pull_body h a m k d rootArg req ?st u = (r, t)" by blast
  then show ?thesis
  proof cases
    case 2
    from body_cases [OF 2(2) assms(4,5)] consider "w_files t = w_files u"
      | sp v where "only_net u v" "apply_signed h a m k d root ?st sp v = (r, t)" "st_RootFP ?st \<noteq> [] \<longrightarrow> root = st_RootFP ?st"
      by blast
    then show ?thesis
    proof cases
      case 1
      with 2 show ?thesis by simp
    next
      case (2 sp v)
      note pinned = 2(3)
      have v: "w_files v = w_files s" using only_netD(1) [OF 2(1)] \<open>w_files u = w_files s\<close> by simp
      from apply_signed_cases [OF 2(2)] show ?thesis
      proof (elim disjE exE conjE)
        fix p r' w
        assume p: "verifyPolicyAny (h_policy h) sp root m ?st (w_now v) = Inr p"
          and b: "bindS (writeSSHFiles h d (join_with [nl] (p_CAKeys p)) (p_Grants p) (p_KRLSpec p))
            (\<lambda>_. savePolicyState h d (nextState (h_policy h) sp root p ?st)) v = (r', w)" and t: "w_files t = w_files w"
        let ?P = "old_or_new h d (w_files s) (join_with [nl] (p_CAKeys p)) (p_Grants p) (p_KRLSpec p)"
        have "preserves (files_inv ?P) (bindS (writeSSHFiles h d (join_with [nl] (p_CAKeys p)) (p_Grants p) (p_KRLSpec p))
            (\<lambda>_. savePolicyState h d (nextState (h_policy h) sp root p ?st)))"
          unfolding old_or_new_def
          by (intro preserves_bind save_sshd preserves_writeSSHFiles [OF assms(3), unfolded old_or_new_def])
        from preservesD [OF this _ b] have "?P (w_files w)" by (simp add: files_inv_def v old_or_new_def)
        with assms(6) consider "w_files w q = w_files s q"
          | x where "w_files w q = Some x" "installed h d (join_with [nl] (p_CAKeys p)) (p_Grants p) (p_KRLSpec p) q (fl_data x)"
          unfolding old_or_new_def by blast
        then show ?thesis
        proof cases
          case (2 x)
          then have "accepted_file h d root m (st_Version ?st) q (fl_data x)"
            unfolding accepted_file_def using p accepted_version [OF p] by blast
          with 2(1) pinned show ?thesis by (simp add: t)
        qed (simp add: t)
      qed (simp add: v)
    qed
  qed simp
qed

subsection \<open>The state never goes back\<close>

definition state_le :: "policyState \<Rightarrow> policyState \<Rightarrow> bool" where
  "state_le a b \<longleftrightarrow> (st_RootFP a \<noteq> [] \<longrightarrow> st_RootFP b = st_RootFP a) \<and> st_Version a \<le> st_Version b \<and>
     st_RevocationsVersion a \<le> st_RevocationsVersion b \<and> (st_Format a = formatAccount \<longrightarrow> st_Format b = formatAccount)"

lemma state_le_refl [simp]: "state_le a a"
  by (simp add: state_le_def)

lemma state_le_trans: "state_le a b \<Longrightarrow> state_le b c \<Longrightarrow> state_le a c"
  by (auto simp: state_le_def)

text \<open>A state that was saved is read back.\<close>

definition reads_back :: "('k, 's, 'n, 'x) agent_host_scheme \<Rightarrow> bool" where
  "reads_back h \<longleftrightarrow> (\<forall>sp root m st now p. verifyPolicyAny (h_policy h) sp root m st now = Inr p \<longrightarrow>
     dec_state h (enc_state h (nextState (h_policy h) sp root p st) @ [nl]) = nextState (h_policy h) sp root p st)"

lemma next_state_le:
  assumes "verifyPolicyAny env sp root m st now = Inr p" "json_agree env" "st_RootFP st \<noteq> [] \<longrightarrow> root = st_RootFP st"
  shows "state_le st (nextState env sp root p st)"
  using accepted_in_force [OF assms(1)] nextState_revocations [OF assms(2)] assms(3)
  by (auto simp: state_le_def nextState_fields)

lemma pull_state:
  assumes "agentPullWith h a m k d rootArg req s = (r, t)" "state_readable s" "visits_all h" "reads_back h" "json_agree (h_policy h)"
  shows "state_le (state_of h d s) (state_of h d t)"
proof -
  let ?st = "state_of h d s" and ?f = "state_path d"
  have same: "state_of h d t = ?st" if "w_files t ?f = w_files s ?f" using that by (simp add: state_of_def)
  from pull_prefix [OF assms(1,2)] consider "w_files t = w_files s"
    | u where "w_files u = w_files s" "pull_body h a m k d rootArg req ?st u = (r, t)" by blast
  then show ?thesis
  proof cases
    case 1
    with same show ?thesis by simp
  next
    case (2 u)
    define root where "root = (if rootArg = [] then st_RootFP ?st else rootArg)"
    show ?thesis
    proof (cases "root = []")
      case True
      then have "pull_body h a m k d rootArg req ?st u = (r, t) \<Longrightarrow> r = Inl (Msg ''signed policy required but no root pinned'') \<and> t = u \<or>
          pull_unsigned h a m k d u = (r, t)"
        by (auto simp: pull_body_def Let_def root_def split: if_splits)
      moreover have "preserves (files_inv (\<lambda>fs. fs ?f = w_files s ?f)) (pull_unsigned h a m k d)"
        unfolding pull_unsigned_def by (intro preserves_intros write_state)
      note keep = preservesD [OF this]
      ultimately consider "t = u" | "pull_unsigned h a m k d u = (r, t)" using 2(2) by blast
      then have "w_files t ?f = w_files s ?f"
      proof cases
        case 2
        from keep [OF _ this] \<open>w_files u = w_files s\<close> show ?thesis by (simp add: files_inv_def)
      qed (simp add: 2(1))
      with same show ?thesis by simp
    next
      case False
      from body_cases [OF 2(2) root_def False] consider "w_files t = w_files u"
        | sp v where "only_net u v" "apply_signed h a m k d root ?st sp v = (r, t)" "st_RootFP ?st \<noteq> [] \<longrightarrow> root = st_RootFP ?st" by blast
      then show ?thesis
      proof cases
        case 1
        with same 2(1) show ?thesis by simp
      next
        case (2 sp v)
        have v: "w_files v = w_files s" using only_netD(1) [OF 2(1)] \<open>w_files u = w_files s\<close> by simp
        from apply_signed_cases [OF 2(2)] show ?thesis
        proof (elim disjE exE conjE)
          fix p r' w
          assume p: "verifyPolicyAny (h_policy h) sp root m ?st (w_now v) = Inr p"
            and b: "bindS (writeSSHFiles h d (join_with [nl] (p_CAKeys p)) (p_Grants p) (p_KRLSpec p))
              (\<lambda>_. savePolicyState h d (nextState (h_policy h) sp root p ?st)) v = (r', w)" and t: "w_files t = w_files w"
          let ?n = "nextState (h_policy h) sp root p ?st"
          let ?I = "\<lambda>fs. fs ?f = w_files s ?f \<or> (\<exists>x. fs ?f = Some x \<and> fl_data x = enc_state h ?n @ [nl])"
          have "preserves (files_inv ?I) (savePolicyState h d ?n)"
            unfolding savePolicyState_def by (rule preserves_atomic) auto
          then have "hoare (files_inv (\<lambda>fs. fs ?f = w_files s ?f))
              (bindS (writeSSHFiles h d (join_with [nl] (p_CAKeys p)) (p_Grants p) (p_KRLSpec p)) (\<lambda>_. savePolicyState h d ?n))
              (\<lambda>_. files_inv ?I) (\<lambda>_. files_inv ?I)"
            by (intro hoare_bind [OF hoare_conseq [OF hoare_preserves [OF write_state]]]
                hoare_conseq [OF hoare_preserves [of "files_inv ?I"]]) (auto simp: files_inv_def)
          from hoareD [OF this _ b] have "?I (w_files w)" by (cases r') (simp_all add: files_inv_def v)
          moreover have "dec_state h (enc_state h ?n @ [nl]) = ?n" using p assms(4) by (auto simp: reads_back_def)
          ultimately have "state_of h d t = ?st \<or> state_of h d t = ?n"
            by (auto simp: state_of_def t)
          with next_state_le [OF p assms(5) 2(3)] show ?thesis by auto
        qed (simp add: same v)
      qed
    qed
  qed
qed

subsection \<open>Many pulls\<close>

text \<open>
  Any number of pulls, from one run of the program or many, each against any server, at any time, with any root argument and any
  faults except an unreadable state file. Between two pulls the files stay as they are.
\<close>

inductive agent_runs :: "('k, 's, 'n, 'x) agent_host_scheme \<Rightarrow> string \<Rightarrow> string \<Rightarrow> 'n world \<Rightarrow> 'n world \<Rightarrow> bool"
  for h m d where
  start: "agent_runs h m d s s"
| pull: "agent_runs h m d s t \<Longrightarrow> w_files t' = w_files t \<Longrightarrow> state_readable t' \<Longrightarrow>
    agentPullWith (h\<lparr>h_http := server\<rparr>) a m k d rootArg req t' = (r, u) \<Longrightarrow> agent_runs h m d s u"

lemma any_server [simp]:
  "state_of (h\<lparr>h_http := server\<rparr>) d s = state_of h d s"
  "visits_all (h\<lparr>h_http := server\<rparr>) = visits_all h" "reads_back (h\<lparr>h_http := server\<rparr>) = reads_back h"
  "accepted_file (h\<lparr>h_http := server\<rparr>) d root m v q c = accepted_file h d root m v q c"
  by (simp_all add: state_of_def visits_all_def reads_back_def accepted_file_def installed_def split: option.split)

lemma state_of_files: "w_files t' = w_files t \<Longrightarrow> state_of h d t' = state_of h d t"
  by (simp add: state_of_def)

lemma accepted_file_mono: "accepted_file h d root m v q c \<Longrightarrow> v' \<le> v \<Longrightarrow> accepted_file h d root m v' q c"
  unfolding accepted_file_def by (meson order_trans)

text \<open>C1. An attacker who controls the server, the clock and the disk faults cannot make an enrolled agent go back: over any number of
  pulls (in which the state file could be read) the pinned root stays, the policy and revocation-list versions never decrease and an account
  policy is never replaced by a per-machine one; and each file sshd reads is what it was at the start or, in full, what some policy says
  that verified against the pinned root with a version at least the one at the start.\<close>

theorem agent_never_goes_back:
  assumes "agent_runs h m d s t" "visits_all h" "reads_back h" "json_agree (h_policy h)" "st_RootFP (state_of h d s) \<noteq> []"
  shows "state_le (state_of h d s) (state_of h d t) \<and>
    (\<forall>q. sshd_path d q \<longrightarrow> w_files t q = w_files s q \<or>
       (\<exists>x. w_files t q = Some x \<and> accepted_file h d (st_RootFP (state_of h d s)) m (st_Version (state_of h d s)) q (fl_data x)))"
  using assms
proof (induction rule: agent_runs.induct)
  case (pull s t t' server a k rootArg req r u)
  let ?h = "h\<lparr>h_http := server\<rparr>"
  note IH = pull.IH [OF pull.prems]
  have st: "state_of h d t' = state_of h d t" by (rule state_of_files [OF pull.hyps(2)])
  have le: "state_le (state_of h d t) (state_of h d u)"
    using pull_state [OF pull.hyps(4,3)] pull.prems by (simp add: st)
  define root where "root = (if rootArg = [] then st_RootFP (state_of ?h d t') else rootArg)"
  have root: "st_RootFP (state_of h d t) = st_RootFP (state_of h d s)" "st_Version (state_of h d s) \<le> st_Version (state_of h d t)"
    using IH pull.prems by (auto simp: state_le_def)
  have ne: "root \<noteq> []" using root(1) pull.prems(4) by (simp add: root_def st)
  have "w_files u q = w_files s q \<or> (\<exists>x. w_files u q = Some x \<and>
      accepted_file h d (st_RootFP (state_of h d s)) m (st_Version (state_of h d s)) q (fl_data x))" if q: "sshd_path d q" for q
  proof -
    have "visits_all ?h" using pull.prems(1) by simp
    from pull_files [OF pull.hyps(4,3) this root_def ne q] consider "w_files u q = w_files t q"
      | x where "root = st_RootFP (state_of h d s)" "w_files u q = Some x" "accepted_file h d root m (st_Version (state_of h d t)) q (fl_data x)"
      using root(1) pull.prems(4) pull.hyps(2) by (auto simp: st)
    then show ?thesis
    proof cases
      case 1
      with IH q show ?thesis by simp
    next
      case (2 x)
      with accepted_file_mono [OF 2(3) root(2)] show ?thesis by blast
    qed
  qed
  with state_le_trans [OF conjunct1 [OF IH] le] show ?case by blast
qed simp

subsection \<open>What a pull that succeeds leaves\<close>

text \<open>What is in the directory after the files for CA keys, grants and a revocation specification were written over the files \<open>old\<close>.\<close>

definition shows_policy ::
  "('k, 's, 'n, 'x) agent_host_scheme \<Rightarrow> string \<Rightarrow> (string \<Rightarrow> inode option) \<Rightarrow> (string \<Rightarrow> inode option)
    \<Rightarrow> string \<Rightarrow> policy_grant list \<Rightarrow> string \<Rightarrow> bool" where
  "shows_policy h d old fs ca grants spec \<longleftrightarrow>
     (\<exists>x. fs (ca_path d) = Some x \<and> fl_data x = ca @ [nl]) \<and>
     (\<exists>x k. fs (krl_path d) = Some x \<and> h_krl h (spec @ [nl]) = Some k \<and> fl_data x = k) \<and>
     (\<forall>u. safeUser u \<longrightarrow> (if u \<in> g_LoginUser ` set grants
        then \<exists>x. fs (principals_path d u) = Some x \<and> fl_data x = granted_lines grants u
        else fs (principals_path d u) = old (principals_path d u)))"

lemma save_state_Inr:
  assumes "savePolicyState h d st s = (Inr (), t)"
  shows "(\<exists>x. w_files t (state_path d) = Some x \<and> fl_data x = enc_state h st @ [nl]) \<and>
    (\<forall>q. sshd_path d q \<longrightarrow> w_files t q = w_files s q)"
  using atomic_Inr [OF assms [unfolded savePolicyState_def]] not_sshd(2,5) [of d] by metis

text \<open>C9. After a pull that returns without error with a root pinned, the policy the server sent verified against that root at
  the agent's time and kept state, the state file holds the next state, the CA file is the policy's CA keys, the revocation list is
  the compiled specification of the policy, and every login user the policy grants has exactly that user's sorted principals.
  A user the policy grants nothing keeps the principals file there was: it is not removed.\<close>

theorem pull_success_installs:
  assumes "agentPullWith h a m k d rootArg req s = (Inr (), t)" "state_readable s" "visits_all h"
    and "root = (if rootArg = [] then st_RootFP (state_of h d s) else rootArg)" "root \<noteq> []"
  shows "\<exists>sp p. verifyPolicyAny (h_policy h) sp root m (state_of h d s) (w_now s) = Inr p \<and>
    (\<exists>x. w_files t (state_path d) = Some x \<and> fl_data x = enc_state h (nextState (h_policy h) sp root p (state_of h d s)) @ [nl]) \<and>
    shows_policy h d (w_files s) (w_files t) (join_with [nl] (p_CAKeys p)) (p_Grants p) (p_KRLSpec p)"
proof -
  let ?st = "state_of h d s"
  from pull_prefix [OF assms(1,2)] obtain u where u: "w_files u = w_files s" "w_now u = w_now s"
    "pull_body h a m k d rootArg req ?st u = (Inr (), t)" by auto
  from body_cases [OF u(3) assms(4,5)] obtain sp v where v: "only_net u v" "apply_signed h a m k d root ?st sp v = (Inr (), t)" by auto
  have now: "w_now v = w_now s" "w_files v = w_files s" using only_netD [OF v(1)] u(1,2) by auto
  from apply_signed_cases [OF v(2)] obtain p x w where p: "verifyPolicyAny (h_policy h) sp root m ?st (w_now v) = Inr p"
    and x: "bindS (writeSSHFiles h d (join_with [nl] (p_CAKeys p)) (p_Grants p) (p_KRLSpec p))
      (\<lambda>_. savePolicyState h d (nextState (h_policy h) sp root p ?st)) v = (x, w)" and t: "w_files t = w_files w"
    and "(\<exists>e. Inr () = (Inl e :: err + unit)) \<longleftrightarrow> (\<exists>e. x = Inl e)" by blast
  then obtain r where b: "bindS (writeSSHFiles h d (join_with [nl] (p_CAKeys p)) (p_Grants p) (p_KRLSpec p))
      (\<lambda>_. savePolicyState h d (nextState (h_policy h) sp root p ?st)) v = (Inr r, w)" by (cases x) auto
  note p = p [unfolded now(1)]
  from b obtain w1 where w1: "writeSSHFiles h d (join_with [nl] (p_CAKeys p)) (p_Grants p) (p_KRLSpec p) v = (Inr (), w1)"
    "savePolicyState h d (nextState (h_policy h) sp root p ?st) w1 = (Inr (), w)"
    by (auto simp: bindS_Inr)
  note save = save_state_Inr [OF w1(2)]
  have same: "w_files w (ca_path d) = w_files w1 (ca_path d)" "w_files w (krl_path d) = w_files w1 (krl_path d)"
    "safeUser x \<Longrightarrow> w_files w (principals_path d x) = w_files w1 (principals_path d x)" for x
    using save principals_sshd [of x d] by (auto simp: sshd_path_def)
  have "shows_policy h d (w_files s) (w_files t) (join_with [nl] (p_CAKeys p)) (p_Grants p) (p_KRLSpec p)"
    using writeSSHFiles_Inr [OF w1(1) assms(3)] unfolding shows_policy_def granted_lines_text t same(1,2) now(2) by (simp add: same(3) cong: conj_cong)
  with p save t show ?thesis by auto
qed

subsection \<open>A valid policy is applied\<close>

text \<open>No fault is ahead and the compiled list waits for its rename.\<close>

definition waiting :: "string \<Rightarrow> 'n world \<Rightarrow> bool" where
  "waiting kt s \<longleftrightarrow> w_faults s = [] \<and> w_files s kt \<noteq> None"

lemma atomic_runs:
  assumes "kt \<noteq> p" "kt \<noteq> p @ ''.tmp''"
  shows "hoare (waiting kt) (writeFileAtomic p c m) (\<lambda>_. waiting kt) (\<lambda>_ _. False)"
  by (rule hoareI, insert assms)
    (auto simp: waiting_def writeFileAtomic_def bindS_def writeFile_def rename_def with_fault_def put_file_def split: sum.splits option.splits)

lemma hoare_foldS:
  "(\<And>b x. x \<in> set xs \<Longrightarrow> hoare I (f b x) (\<lambda>_. I) K) \<Longrightarrow> hoare I (foldS f b xs) (\<lambda>_. I) K"
  by (induction xs arbitrary: b) (auto intro!: hoare_ret hoare_bind [where M = "\<lambda>_. I"])

lemma writeSSHFiles_runs:
  assumes "h_krl h (spec @ [nl]) \<noteq> None"
  shows "hoare (\<lambda>s. w_faults s = []) (writeSSHFiles h d ca grants spec) (\<lambda>_ s. w_faults s = []) (\<lambda>_ _. False)"
proof -
  let ?kt = "krl_path d @ ''.tmp''" and ?S = "\<lambda>s. w_faults s = [] \<and> (\<exists>x. w_files s (spec_path d) = Some x \<and> fl_data x = spec @ [nl])"
  have 1: "hoare (\<lambda>s. w_faults s = []) (writeFile (spec_path d) (spec @ [nl]) mode600) (\<lambda>_. ?S) (\<lambda>_ _. False)"
    by (rule hoareI) (auto simp: write_ok put_file_def)
  have 2: "hoare ?S (compile_krl h ?kt (spec_path d)) (\<lambda>_. waiting ?kt) (\<lambda>_ _. False)"
    by (rule hoareI) (use assms in \<open>auto simp: compile_krl_def with_fault_def put_file_def waiting_def split: option.splits\<close>)
  have 3: "hoare (waiting ?kt) (write_user d grants b u) (\<lambda>_. waiting ?kt) (\<lambda>_ _. False)" for b u
    using path_distinct(8,9) [of u d] by (auto simp: write_user_def intro!: atomic_runs hoare_ret)
  have 4: "hoare (waiting ?kt) (writeFileAtomic (ca_path d) (ca @ [nl]) mode644) (\<lambda>_. waiting ?kt) (\<lambda>_ _. False)"
    by (rule atomic_runs [OF path_distinct(4,3)])
  have 5: "hoare (waiting ?kt) (rename ?kt (krl_path d)) (\<lambda>_ s. w_faults s = []) (\<lambda>_ _. False)"
    by (rule hoareI) (auto simp: waiting_def rename_def with_fault_def)
  show ?thesis
    unfolding writeSSHFiles_def
    by (intro hoare_bind [OF 1] hoare_bind [OF 2] hoare_bind [OF hoare_foldS [OF 3]] hoare_bind [OF 4] 5)
qed

lemma saving_runs:
  "hoare (\<lambda>s. w_faults s = []) (savePolicyState h d st) (\<lambda>_ s. w_faults s = []) (\<lambda>_ _. False)"
  by (rule hoareI)
    (auto simp: savePolicyState_def writeFileAtomic_def bindS_def writeFile_def rename_def with_fault_def put_file_def split: sum.splits option.splits)

lemma report_runs: "hoare I (reportPolicyStatus h a m k status detail st) (\<lambda>_ _. True) (\<lambda>_ _. False)"
  by (rule hoareI) (auto simp: reportPolicyStatus_def ignoreS_def)

lemma pull_runs:
  assumes "w_faults s = []" "root = (if rootArg = [] then st_RootFP (state_of h d s) else rootArg)" "root \<noteq> []"
    and "st_RootFP (state_of h d s) \<noteq> [] \<longrightarrow> root = st_RootFP (state_of h d s)"
    and "pullInto h (dec_signed h) no_signed a ''getSignedPolicy'' m k Map.empty s = (Inr sp, u)" "has_signed sp"
    and "verifyPolicyAny (h_policy h) sp root m (state_of h d s) (w_now s) = Inr p" "h_krl h (p_KRLSpec p @ [nl]) \<noteq> None"
  shows "\<exists>t. agentPullWith h a m k d rootArg req s = (Inr (), t)"
proof -
  let ?st = "state_of h d s"
  have u: "w_faults u = []" "w_now u = w_now s" using only_netD [OF request_frame(2) [OF assms(5)]] assms(1) by auto
  have "agentPullWith h a m k d rootArg req s = pull_body h a m k d rootArg req ?st s"
    using assms(1) by (simp add: agentPullWith_def loadPolicyState_def bindS_def tryS_def mkdirAll_def readFile_def with_fault_def
        state_of_def split: option.split)
  also have "\<dots> = apply_signed h a m k d root ?st sp u"
    using assms(2-6) by (auto simp: pull_body_def Let_def bindS_def tryS_def)
  finally have eq: "agentPullWith h a m k d rootArg req s = apply_signed h a m k d root ?st sp u" .
  obtain r t where r: "apply_signed h a m k d root ?st sp u = (r, t)" by (cases "apply_signed h a m k d root ?st sp u")
  let ?w = "bindS (writeSSHFiles h d (join_with [nl] (p_CAKeys p)) (p_Grants p) (p_KRLSpec p)) (\<lambda>_.
      bindS (savePolicyState h d (nextState (h_policy h) sp root p ?st)) (\<lambda>_.
      reportPolicyStatus h a m k ''applied'' [] (nextState (h_policy h) sp root p ?st)))"
  have w: "?w u = (r, t)" using r assms(7) u(2) by (simp add: apply_signed_def bindS_def get_now_def)
  have "hoare (\<lambda>s. w_faults s = []) ?w (\<lambda>_ _. True) (\<lambda>_ _. False)"
    by (intro hoare_bind [OF writeSSHFiles_runs [OF assms(8)]] hoare_bind [OF saving_runs] report_runs)
  from hoareD [OF this u(1) w] have "r = Inr ()" by (cases r) auto
  with eq r show ?thesis by simp
qed

text \<open>Pinning rests on a readable state file: when reading it fails (here: any error but a missing file would do), the pull without
  a root argument goes on as an unsigned one, writing whatever CA keys, principals and KRL the server sends, whatever root was pinned.\<close>

lemma unreadable_state_unpins:
  "agentPullWith h a m k d [] False (s\<lparr>w_faults := [NoFault, Fails]\<rparr>) = pull_unsigned h a m k d (s\<lparr>w_faults := []\<rparr>)"
  by (simp add: agentPullWith_def loadPolicyState_def bindS_def tryS_def mkdirAll_def readFile_def with_fault_def pull_body_def no_state_def)

text \<open>C38. Pinning does not stop a pull from working: when the server's answer carries a policy that verifies against the root in force, its
  revocation specification compiles and no file operation fails, the pull returns without error.\<close>

theorem valid_policy_applied:
  assumes "w_faults s = []" "root = (if rootArg = [] then st_RootFP (state_of h d s) else rootArg)" "root \<noteq> []"
    and "st_RootFP (state_of h d s) \<noteq> [] \<longrightarrow> root = st_RootFP (state_of h d s)"
    and "pullInto h (dec_signed h) no_signed a ''getSignedPolicy'' m k Map.empty s = (Inr sp, u)" "has_signed sp"
    and "verifyPolicyAny (h_policy h) sp root m (state_of h d s) (w_now s) = Inr p" "h_krl h (p_KRLSpec p @ [nl]) \<noteq> None"
  shows "\<exists>t. agentPullWith h a m k d rootArg req s = (Inr (), t)"
  using assms by (rule pull_runs)

subsection \<open>An instance\<close>

text \<open>A state is written as a run of letters as long as its number in the enumeration of all states.\<close>

definition state_tuple :: "policyState \<Rightarrow> string \<times> int \<times> int \<times> int \<times> string" where
  "state_tuple st = (st_RootFP st, st_Version st, st_RevocationsVersion st, st_KRLExpires st, st_Format st)"

definition tuple_state :: "string \<times> int \<times> int \<times> int \<times> string \<Rightarrow> policyState" where
  "tuple_state x = (case x of (r, v, n, e, f) \<Rightarrow>
     \<lparr>st_RootFP = r, st_Version = v, st_RevocationsVersion = n, st_KRLExpires = e, st_Format = f\<rparr>)"

definition sample_agent :: "(string, bytes, unit) agent_host" where
  "sample_agent = key_host.extend example_cli
     \<lparr>h_krl = Some, h_order = (\<lambda>ks. ks), dec_state = (\<lambda>b. tuple_state (from_nat (length b - 1))),
      enc_state = (\<lambda>st. replicate (to_nat (state_tuple st)) CHR ''a''), dec_signed = (\<lambda>_. Some (sample_response False)),
      dec_ca = Some, dec_grants = (\<lambda>_. Some []), dec_krl = Some, dec_any = (\<lambda>_. Some ()), refusal_text = (\<lambda>_. [])\<rparr>
     \<lparr>h_http := (\<lambda>n u f. (Some (200, [CHR ''b'']), n)), h_response := (\<lambda>_. Some ([], [CHR ''r'']))\<rparr>"

definition pinned_state :: policyState where
  "pinned_state = \<lparr>st_RootFP = ''SHA256:R'', st_Version = 2, st_RevocationsVersion = 1, st_KRLExpires = 900, st_Format = []\<rparr>"

definition pinned_world :: "unit world" where
  "pinned_world = example_world\<lparr>w_files := [state_path ''/e'' \<mapsto> \<lparr>fl_data = enc_state sample_agent pinned_state @ [nl], fl_mode = mode600\<rparr>]\<rparr>"

lemma sample_agent_laws:
  "visits_all sample_agent" "reads_back sample_agent" "json_agree (h_policy sample_agent)" "h_krl sample_agent x = Some x"
  "h_policy sample_agent = sample_env"
  by (simp_all add: sample_agent_def visits_all_def enumerates_def reads_back_def state_tuple_def tuple_state_def key_host.defs
      example_cli_def json_agree_def sample_env_def)

lemma pinned_world_state: "state_of sample_agent ''/e'' pinned_world = pinned_state" "state_readable pinned_world" "w_faults pinned_world = []"
  "w_now pinned_world = sample_now"
  by (simp_all add: state_of_def pinned_world_def state_readable_def example_world_def sample_now_def)
    (simp add: sample_agent_def key_host.defs example_cli_def state_tuple_def tuple_state_def)

lemma sample_answer:
  "pullInto sample_agent (dec_signed sample_agent) no_signed a ''getSignedPolicy'' m k Map.empty pinned_world = (Inr (sample_response False), pinned_world)"
  by (simp add: pullInto_def postForm_def post_once_def bindS_def get_now_def Let_def sample_agent_def key_host.defs example_cli_def
      pinned_world_def example_world_def)

lemma pinned_accepted: "verifyPolicyAny sample_env (sample_response False) ''SHA256:R'' ''m1'' pinned_state sample_now = Inr sample_policy"
proof -
  have t: "trusted_signer sample_env (sample_response False) ''SHA256:R'' pinned_state sample_now ''R'' [''SHA256:X''] ''D'' ''user:1''"
    by (simp add: trusted_signer_def sample_response_def sample_parts opens_def sample_open delegates_def sample_delegation_def
        revocations_in_force_def pinned_state_def) (simp add: sample_env_def)
  have "openSignedBlob sample_env ''D'' ctxPolicy (dec_policy sample_env) (sp_Policy (sample_response False)) = Inr sample_policy"
    by (simp add: sample_response_def sample_open sample_parts)
  moreover have "p_Account sample_policy = ''user:1''" by (simp add: sample_policy_def)
  moreover have "account_blob (sample_response False) = None" "st_Format pinned_state \<noteq> formatAccount"
    by (simp_all add: account_blob_def sample_response_def pinned_state_def formatAccount_def)
  ultimately show ?thesis
    unfolding verifyPolicyAny_def using t
    by (simp add: verifySignedPolicy_Inr, intro exI conjI, assumption?)
      (simp_all add: sample_policy_def pinned_state_def sample_now_unix sample_parts)
qed

lemma sample_signed: "has_signed (sample_response False)"
  by (simp add: has_signed_def sample_response_def sample_blob_def Let_def)

lemma sample_pull: "\<exists>t. agentPullWith sample_agent ''u'' ''m1'' example_key ''/e'' [] False pinned_world = (Inr (), t)"
  using pull_runs [OF pinned_world_state(3) refl _ _ sample_answer sample_signed, of "[]" "''/e''" "''m1''" sample_policy] pinned_accepted
  by (simp add: pinned_world_state sample_agent_laws pinned_state_def)

theorem valid_policy_applied_witness:
  "\<exists>t. agentPullWith sample_agent ''u'' ''m1'' example_key ''/e'' [] False pinned_world = (Inr (), t)"
  using valid_policy_applied [OF pinned_world_state(3) refl _ _ sample_answer sample_signed, of "[]" "''/e''" "''m1''" sample_policy] pinned_accepted
  by (simp add: pinned_world_state sample_agent_laws pinned_state_def)

theorem pull_success_installs_witness:
  "\<exists>t sp p. agentPullWith sample_agent ''u'' ''m1'' example_key ''/e'' [] False pinned_world = (Inr (), t) \<and>
     verifyPolicyAny sample_env sp ''SHA256:R'' ''m1'' pinned_state sample_now = Inr p \<and>
     shows_policy sample_agent ''/e'' (w_files pinned_world) (w_files t) (join_with [nl] (p_CAKeys p)) (p_Grants p) (p_KRLSpec p)"
proof -
  obtain t where t: "agentPullWith sample_agent ''u'' ''m1'' example_key ''/e'' [] False pinned_world = (Inr (), t)"
    using sample_pull by blast
  have "''SHA256:R'' = (if [] = ([] :: string) then st_RootFP (state_of sample_agent ''/e'' pinned_world) else [])"
    by (simp add: pinned_world_state pinned_state_def)
  from pull_success_installs [OF t pinned_world_state(2) sample_agent_laws(1) this] t show ?thesis
    by (simp add: pinned_world_state sample_agent_laws) blast
qed

theorem agent_never_goes_back_witness:
  "\<exists>t. agent_runs sample_agent ''m1'' ''/e'' pinned_world t \<and> state_le pinned_state (state_of sample_agent ''/e'' t) \<and>
     (w_files t (ca_path ''/e'') = w_files pinned_world (ca_path ''/e'') \<or>
      (\<exists>x. w_files t (ca_path ''/e'') = Some x \<and> accepted_file sample_agent ''/e'' ''SHA256:R'' ''m1'' 2 (ca_path ''/e'') (fl_data x)))"
proof -
  obtain t where t: "agentPullWith (sample_agent\<lparr>h_http := h_http sample_agent\<rparr>) ''u'' ''m1'' example_key ''/e'' [] False pinned_world = (Inr (), t)"
    using sample_pull by auto
  have run: "agent_runs sample_agent ''m1'' ''/e'' pinned_world t"
    by (rule agent_runs.pull [OF agent_runs.start refl pinned_world_state(2) t])
  have "st_RootFP (state_of sample_agent ''/e'' pinned_world) \<noteq> []" by (simp add: pinned_world_state pinned_state_def)
  moreover have "sshd_path ''/e'' (ca_path ''/e'')" "st_RootFP pinned_state = ''SHA256:R''" "st_Version pinned_state = 2"
    by (simp_all add: sshd_path_def pinned_state_def)
  ultimately show ?thesis
    using agent_never_goes_back [OF run sample_agent_laws(1-3)] run unfolding pinned_world_state by metis
qed

end
