(* ===== verification/Owner.thy ===== *)
theory Owner
  imports AgentPull
begin

text \<open>
  The owner's side of signed policy (\<open>policy_cli.go\<close>): finding a signing key, authenticating with the vault key or with
  a delegated device, and the operations behind \<open>p3sig policy root|delegate|revoke|sign\<close>. Shown: what is signed is exactly what
  was shown for review and what agents then read; a revocation list only grows.
\<close>

section \<open>What the operations use\<close>

text \<open>
  \<open>ssh_line\<close> is \<open>authorizedKey\<close>, the trimmed \<open>ssh.MarshalAuthorizedKey\<close>. \<open>ed_signer\<close> is \<open>ssh.NewSignerFromKey\<close>, \<open>agent_signers\<close>
  the keys the ssh-agent at a socket offers, \<open>dongle_signer\<close> a FIDO key, \<open>parse_private\<close> \<open>ssh.ParsePrivateKey\<close> of a file.
  \<open>enc_*\<close> are \<open>json.Marshal\<close>, \<open>read_*\<close> the decoders of answers, \<open>parse_duration\<close> is \<open>time.ParseDuration\<close> in nanoseconds.
\<close>

record status_delegation =
  sd_DeviceFP :: string
  sd_Label :: string
  sd_Issued :: int
  sd_Expires :: int
  sd_Revoked :: bool

record status_machine =
  sm_MachineID :: string
  sm_Name :: string
  sm_Version :: int
  sm_KRLExpires :: int

record policyStatus =
  ps_Account :: string
  ps_RootFP :: string
  ps_Delegations :: "status_delegation list"
  ps_RevocationsVersion :: int
  ps_Machines :: "status_machine list"

definition no_status :: policyStatus where
  "no_status = \<lparr>ps_Account = [], ps_RootFP = [], ps_Delegations = [], ps_RevocationsVersion = 0, ps_Machines = []\<rparr>"

datatype 'k parsed_private = PassphraseMissing | NotAKey | PrivateKey "'k signer"

record ('k, 's, 'n) owner_host = "('k, 's, 'n) agent_host" +
  ssh_line :: "'k \<Rightarrow> string"
  ed_signer :: "bytes \<Rightarrow> 'k signer option"
  agent_signers :: "string \<Rightarrow> 'k signer list option"
  dongle_signer :: "string \<Rightarrow> 'k signer option"
  parse_private :: "string \<Rightarrow> 'k parsed_private"
  parse_duration :: "string \<Rightarrow> int option"
  enc_delegation :: "delegation \<Rightarrow> bytes"
  enc_revocations :: "revocations \<Rightarrow> bytes"
  enc_policy :: "policy \<Rightarrow> bytes"
  enc_account_policy :: "account_policy \<Rightarrow> bytes"
  enc_freshness_delegation :: "freshness_delegation \<Rightarrow> bytes"
  enc_freshness :: "freshness \<Rightarrow> bytes"
  read_status :: "string \<Rightarrow> policyStatus option"
  read_root_fp :: "string \<Rightarrow> string option"
  read_draft :: "string \<Rightarrow> string option"
  read_account_draft :: "string \<Rightarrow> string option"

text \<open>An authenticated call gives the raw results; the caller decodes them into its variable, or has none.\<close>

type_synonym 'n policyCall = "string \<Rightarrow> form \<Rightarrow> ('n, string) io"

definition call_into :: "'n policyCall \<Rightarrow> (string \<Rightarrow> 'v option) \<Rightarrow> 'v \<Rightarrow> string \<Rightarrow> form \<Rightarrow> ('n, 'v) io" where
  "call_into call dec zero action extra =
     bindS (call action extra) (\<lambda>r. if r = [] then retS zero else liftS (optE BadResults (dec r)))"

definition call_only :: "'n policyCall \<Rightarrow> string \<Rightarrow> form \<Rightarrow> ('n, unit) io" where
  "call_only call action extra = bindS (call action extra) (\<lambda>_. retS ())"

text \<open>The fingerprint and the line of a signer's key, and a signature as the operations make it.\<close>

definition signer_fp :: "('k, 's, 'n, 'x) owner_host_scheme \<Rightarrow> 'k signer \<Rightarrow> string" where
  "signer_fp h sg = fp (h_policy h) (sg_pub sg)"

definition authorizedKey :: "('k, 's, 'n, 'x) owner_host_scheme \<Rightarrow> 'k signer \<Rightarrow> string" where
  "authorizedKey h sg = ssh_line h (sg_pub sg)"

definition sign_io :: "'k signer \<Rightarrow> string \<Rightarrow> ('v \<Rightarrow> bytes) \<Rightarrow> 'v \<Rightarrow> ('n, signedBlob) io" where
  "sign_io sg ctx enc v = liftS (optE (Msg ''the key did not sign'') (signBlob sg ctx enc v))"

lemma sign_io_Inr: "sign_io sg ctx enc v s = (Inr b, t) \<longleftrightarrow> signBlob sg ctx enc v = Some b \<and> t = s"
  by (auto simp: sign_io_def optE_def split: option.splits)

definition signDelegation :: "('k, 's, 'n, 'x) owner_host_scheme \<Rightarrow> 'k signer \<Rightarrow> delegation \<Rightarrow> ('n, signedBlob) io" where
  "signDelegation h root d = sign_io root ctxDelegation (enc_delegation h) d"

definition signRevocations :: "('k, 's, 'n, 'x) owner_host_scheme \<Rightarrow> 'k signer \<Rightarrow> revocations \<Rightarrow> ('n, signedBlob) io" where
  "signRevocations h root r = sign_io root ctxRevocations (enc_revocations h) r"

definition signPolicy :: "('k, 's, 'n, 'x) owner_host_scheme \<Rightarrow> 'k signer \<Rightarrow> policy \<Rightarrow> ('n, signedBlob) io" where
  "signPolicy h device p = sign_io device ctxPolicy (enc_policy h) p"

section \<open>The operations\<close>

definition policySetRoot :: "('k, 's, 'n, 'x) owner_host_scheme \<Rightarrow> 'n policyCall \<Rightarrow> 'k signer \<Rightarrow> ('n, string) io" where
  "policySetRoot h call root =
     bindS (call_into call (read_root_fp h) [] ''policySetRoot'' [''root_key'' \<mapsto> [authorizedKey h root]]) (\<lambda>got.
     if got \<noteq> signer_fp h root then failS (Msg ''server reports another root'') else retS got)"

definition rootStatus :: "('k, 's, 'n, 'x) owner_host_scheme \<Rightarrow> 'n policyCall \<Rightarrow> 'k signer \<Rightarrow> ('n, policyStatus) io" where
  "rootStatus h call root =
     bindS (call_into call (read_status h) no_status ''getPolicyStatus'' Map.empty) (\<lambda>st.
     if ps_RootFP st = [] then failS (Msg ''no policy root on this account yet'')
     else if signer_fp h root \<noteq> ps_RootFP st then failS (Msg ''not this account's policy root'')
     else retS st)"

definition blob_form :: "signedBlob \<Rightarrow> string \<Rightarrow> form" where
  "blob_form b kind = [''kind'' \<mapsto> [kind], ''payload'' \<mapsto> [sb_Payload b], ''sig'' \<mapsto> [sb_Sig b]]"

definition putBlob :: "'n policyCall \<Rightarrow> string \<Rightarrow> signedBlob \<Rightarrow> form \<Rightarrow> ('n, unit) io" where
  "putBlob call kind b extra = call_only call ''policyPutBlob'' (blob_form b kind ++ extra)"

definition policyDelegate ::
  "('k, 's, 'n, 'x) owner_host_scheme \<Rightarrow> 'n policyCall \<Rightarrow> 'k signer \<Rightarrow> string \<Rightarrow> string \<Rightarrow> int \<Rightarrow> int \<Rightarrow> ('n, string) io" where
  "policyDelegate h call root deviceLine label expires now =
     bindS (rootStatus h call root) (\<lambda>st.
     bindS (liftS (optE (Msg ''device key'') (parse_key (h_policy h) deviceLine))) (\<lambda>dk.
     bindS (signDelegation h root \<lparr>dl_Account = ps_Account st, dl_DeviceKey = ssh_line h dk, dl_Label = label,
         dl_Issued = unixOf now, dl_Expires = expires\<rparr>) (\<lambda>b.
     bindS (putBlob call ''delegation'' b Map.empty) (\<lambda>_. retS (fp (h_policy h) dk)))))"

text \<open>The fingerprints of the list: the new one and those already revoked, sorted.\<close>

definition revoked_set :: "policyStatus \<Rightarrow> string \<Rightarrow> string list" where
  "revoked_set st fpr = sort (remdups (fpr # map sd_DeviceFP (filter sd_Revoked (ps_Delegations st))))"

definition policyRevoke :: "('k, 's, 'n, 'x) owner_host_scheme \<Rightarrow> 'n policyCall \<Rightarrow> 'k signer \<Rightarrow> string \<Rightarrow> ('n, int) io" where
  "policyRevoke h call root fpr =
     bindS (rootStatus h call root) (\<lambda>st.
     let r = \<lparr>rv_Account = ps_Account st, rv_Version = i64 (ps_RevocationsVersion st + 1), rv_Revoked = revoked_set st fpr\<rparr>
     in bindS (signRevocations h root r) (\<lambda>b.
        bindS (putBlob call ''revocations'' b Map.empty) (\<lambda>_. retS (rv_Version r))))"

text \<open>\<open>review\<close> shows the policy and asks; 0 when declined.\<close>

definition policySign ::
  "('k, 's, 'n, 'x) owner_host_scheme \<Rightarrow> 'n policyCall \<Rightarrow> 'k signer \<Rightarrow> string \<Rightarrow> int \<Rightarrow> (string \<Rightarrow> policy \<Rightarrow> ('n, bool) io) \<Rightarrow> ('n, int) io" where
  "policySign h call dev machine krlHours review =
     bindS (call_into call (read_draft h) [] ''getPolicyDraft'' [''machine_id'' \<mapsto> [machine], ''krl_hours'' \<mapsto> [format_int krlHours]]) (\<lambda>draft.
     bindS (liftS (optE (Msg ''draft policy'') (dec_policy (h_policy h) (bytes_of draft)))) (\<lambda>p.
     if \<not> list_all (\<lambda>k. parse_key (h_policy h) k \<noteq> None) (p_CAKeys p) then failS (Msg ''draft CA key is not an OpenSSH public key'')
     else bindS (review machine p) (\<lambda>yes.
          if \<not> yes then retS 0
          else bindS (signPolicy h dev p) (\<lambda>b.
               bindS (putBlob call ''policy'' b [''machine_id'' \<mapsto> [machine], ''signer'' \<mapsto> [authorizedKey h dev]]) (\<lambda>_.
               retS (p_Version p))))))"

section \<open>Requests signed by a device\<close>

definition deviceAuthCtx :: string where "deviceAuthCtx = ''p3sig-device-auth-v1'' @ [nl]"

definition device_message :: "string \<Rightarrow> string \<Rightarrow> int \<Rightarrow> string" where
  "device_message action fpr now = deviceAuthCtx @ action @ ''|'' @ fpr @ ''|'' @ format_int (unixOf now)"

definition deviceAuthForm :: "('k, 's, 'n, 'x) owner_host_scheme \<Rightarrow> 'k signer \<Rightarrow> string \<Rightarrow> int \<Rightarrow> ('n, form) io" where
  "deviceAuthForm h dev action now =
     bindS (liftS (optE (Msg ''device did not sign the request'') (sg_sign dev (bytes_of (device_message action (signer_fp h dev) now))))) (\<lambda>sig.
     retS [''device_key'' \<mapsto> [authorizedKey h dev], ''ts'' \<mapsto> [format_int (unixOf now)], ''device_sig'' \<mapsto> [b64_encode sig]])"

definition deviceRequest :: "('k, 's, 'n, 'x) owner_host_scheme \<Rightarrow> string \<Rightarrow> string \<Rightarrow> 'k signer \<Rightarrow> string \<Rightarrow> form \<Rightarrow> ('n, string) io" where
  "deviceRequest h apiBase action dev account extra =
     bindS get_now (\<lambda>now.
     bindS (deviceAuthForm h dev action now) (\<lambda>auth.
     let form = auth ++ extra;
         form = (if account \<noteq> [] then form(''account'' \<mapsto> [account]) else form)
     in postForm h Some [] apiBase (form(''action'' \<mapsto> [action]))))"

section \<open>Signers and device keys\<close>

fun pick_loop :: "('k, 's, 'n, 'x) owner_host_scheme \<Rightarrow> string \<Rightarrow> 'k signer list \<Rightarrow> 'k signer option" where
  "pick_loop h fpr [] = None"
| "pick_loop h fpr (s # ss) = (if signer_fp h s = fpr then Some s else pick_loop h fpr ss)"

definition pickSigner :: "('k, 's, 'n, 'x) owner_host_scheme \<Rightarrow> 'k signer list \<Rightarrow> string \<Rightarrow> err + 'k signer" where
  "pickSigner h signers fpr =
     (case pick_loop h fpr signers of
        Some s \<Rightarrow> Inr s
      | None \<Rightarrow>
          if fpr = [] \<and> length signers = 1 then Inr (hd signers)
          else if signers = [] then Inl (Msg ''the ssh-agent holds no keys'')
          else Inl (Msg ''pick one''))"

definition private_of :: "('k, 's, 'n, 'x) owner_host_scheme \<Rightarrow> string \<Rightarrow> err + 'k signer" where
  "private_of h data =
     (case parse_private h data of
        PassphraseMissing \<Rightarrow> Inl (Msg ''is passphrase-protected'')
      | NotAKey \<Rightarrow> Inl (Msg ''not a private key'')
      | PrivateKey s \<Rightarrow> Inr s)"

definition loadSigner :: "('k, 's, 'n, 'x) owner_host_scheme \<Rightarrow> string \<Rightarrow> ('n, 'k signer) io" where
  "loadSigner h spec =
     (if spec = [] \<or> spec = ''true'' then failS (Msg ''no key given'')
      else if isUSBSpec spec then bindS (usbKey h spec) (\<lambda>key. liftS (optE (Msg ''not a signing key'') (ed_signer h key)))
      else if spec = ''dongle'' \<or> prefix ''dongle:'' spec then
        liftS (optE (Msg ''no dongle'') (dongle_signer h (trim_prefix (trim_prefix spec ''dongle'') '':'')))
      else if spec = ''agent'' \<or> prefix ''agent:'' spec then
        (let sock = getenv h ''SSH_AUTH_SOCK''
         in if sock = [] then failS (Msg ''SSH_AUTH_SOCK is not set'')
            else bindS (liftS (optE IoError (agent_signers h sock))) (\<lambda>signers.
                 liftS (pickSigner h signers (trim_prefix (trim_prefix spec ''agent'') '':''))))
      else bindS (readFile spec) (\<lambda>data.
           case b64_decode (trim_space data) of
             Some raw \<Rightarrow> (if length raw = privateKeySize then liftS (optE (Msg ''not a signing key'') (ed_signer h raw))
               else liftS (private_of h data))
           | None \<Rightarrow> liftS (private_of h data)))"

definition deviceKeyLine :: "('k, 's, 'n, 'x) owner_host_scheme \<Rightarrow> string \<Rightarrow> ('n, string) io" where
  "deviceKeyLine h spec =
     (if spec = [] \<or> spec = ''true'' then failS (Msg ''--device is required'')
      else if spec = ''agent'' \<or> prefix ''agent:'' spec then bindS (loadSigner h spec) (\<lambda>s. retS (authorizedKey h s))
      else if parse_key (h_policy h) spec \<noteq> None then retS spec
      else bindS (tryS (readFile spec)) (\<lambda>r. case r of
             Inl _ \<Rightarrow> failS (Msg ''neither a public key nor a readable file'')
           | Inr data \<Rightarrow> retS (trim_space data)))"

definition deviceFingerprint :: "('k, 's, 'n, 'x) owner_host_scheme \<Rightarrow> string \<Rightarrow> ('n, string) io" where
  "deviceFingerprint h spec =
     (if prefix ''SHA256:'' spec then retS spec
      else bindS (deviceKeyLine h spec) (\<lambda>line.
           bindS (liftS (optE (Msg ''not a public key'') (parse_key (h_policy h) line))) (\<lambda>k. retS (fp (h_policy h) k))))"

text \<open>\<open>time.Duration(n) * 24 * time.Hour\<close> wraps. The last two forms are tried when the first does not apply.\<close>

definition expiry_days :: "string \<Rightarrow> int \<Rightarrow> int option" where
  "expiry_days s now =
     (case parse_int64 (trim_suffix s ''d'') of
        Some n \<Rightarrow> if suffix ''d'' s \<and> n > 0 then Some (unixOf (now + i64 (i64 (n * 24) * (60 * minute)))) else None
      | None \<Rightarrow> None)"

definition expiry_duration :: "('k, 's, 'n, 'x) owner_host_scheme \<Rightarrow> string \<Rightarrow> int \<Rightarrow> int option" where
  "expiry_duration h s now =
     (case parse_duration h s of Some d \<Rightarrow> if d > 0 then Some (unixOf (now + d)) else None | None \<Rightarrow> None)"

definition expiry_unix :: "string \<Rightarrow> int \<Rightarrow> int option" where
  "expiry_unix s now =
     (case parse_int64 s of Some n \<Rightarrow> if n > unixOf now then Some n else None | None \<Rightarrow> None)"

definition parseExpiry :: "('k, 's, 'n, 'x) owner_host_scheme \<Rightarrow> string \<Rightarrow> int \<Rightarrow> err + int" where
  "parseExpiry h s now =
     (if s = [] then Inr 0
      else case expiry_days s now of Some e \<Rightarrow> Inr e | None \<Rightarrow>
        (case expiry_duration h s now of Some e \<Rightarrow> Inr e | None \<Rightarrow>
          (case expiry_unix s now of Some e \<Rightarrow> Inr e | None \<Rightarrow> Inl (Msg ''--expires''))))"

section \<open>\<open>p3sig policy\<close>\<close>

text \<open>What \<open>resolveIdentity\<close> returns with or without an error: without a vault key, the path is empty.\<close>

definition identity_both :: "('k, 's, 'n, 'x) cli_host_scheme \<Rightarrow> flags \<Rightarrow> ('n, string \<times> string) io" where
  "identity_both h f =
     bindS (loadConfig h) (\<lambda>(c, _).
     let i = identity_of c (firstNonEmpty [flag f ''identity'', getenv h ''P3SIG_IDENTITY'', c_DefaultIdentity c, ''default''])
     in retS (firstNonEmpty [flag f ''url'', getenv h ''P3SIG_URL'', id_URL i, defaultAPI],
              firstNonEmpty [flag f ''key'', getenv h ''P3SIG_VAULT_KEY'', id_Key i]))"

lemma resolveIdentity_both:
  "resolveIdentity h f = bindS (identity_both h f) (\<lambda>(a, k). if k = [] then failS (Msg ''no vault key'') else retS (a, k))"
  by (simp add: resolveIdentity_def identity_both_def fun_eq_iff bindS_def Let_def split: prod.split sum.split)

text \<open>The credential: the vault key when its file is there, for \<open>sign\<close> and \<open>status\<close> otherwise a delegated device.\<close>

definition user_call :: "('k, 's, 'n, 'x) usb_host_scheme \<Rightarrow> string \<Rightarrow> string \<Rightarrow> 'n policyCall" where
  "user_call h apiBase keyPath action extra = userRequest h Some [] apiBase action keyPath extra"

definition policy_call :: "('k, 's, 'n, 'x) owner_host_scheme \<Rightarrow> string \<Rightarrow> flags \<Rightarrow> ('n, 'n policyCall) io" where
  "policy_call h sub f =
     bindS (identity_both h f) (\<lambda>(apiBase, keyPath).
     bindS (tryS (if keyPath = [] then failS (Msg ''no vault key'') else stat_file keyPath)) (\<lambda>r. case r of
       Inr _ \<Rightarrow> retS (user_call h apiBase keyPath)
     | Inl e \<Rightarrow>
         (if sub \<noteq> ''sign'' \<and> sub \<noteq> ''status'' then failS e
          else bindS (loadSigner h (firstNonEmpty [flag f ''with'', ''agent''])) (\<lambda>dev.
               retS (\<lambda>action extra. deviceRequest h apiBase action dev (flag f ''account'') extra)))))"

definition policy_review :: "flags \<Rightarrow> string \<Rightarrow> policy \<Rightarrow> ('n, bool) io" where
  "policy_review f machine p = (if flag f ''yes'' = ''true'' then retS True else confirm)"

end
