(* ===== verification/Seal.thy ===== *)
theory Seal
  imports Owner
begin

text \<open>
  Sealed boxes and the organization vault (\<open>org.go\<close>, the sealing parts of \<open>main.go\<close> and \<open>cli.go\<close>): values, names and
  organization keys sealed to Ed25519 public keys. Shown: what is sealed to a key opens with it; rotating an organization vault
  keeps every secret and its name, and every remaining member opens the new key.
\<close>

section \<open>The interface to sealing\<close>

text \<open>
  What the vault relies on: \<open>seal\<close> draws randomness and gives a text that \<open>unseal\<close> turns back, for a key and the text of its public half.
\<close>

locale sealing =
  fixes seal :: "bytes \<Rightarrow> string \<Rightarrow> ('s, 'e, string) act"
    and unseal :: "string \<Rightarrow> bytes \<Rightarrow> 'e + bytes"
    and pair :: "bytes \<Rightarrow> string \<Rightarrow> bool"
  assumes opens: "pair key pub \<Longrightarrow> seal m pub s = (Inr c, t) \<Longrightarrow> unseal c key = Inr m"
begin

text \<open>A list of values sealed one after the other opens to the values.\<close>

lemma opens_all:
  "pair key pub \<Longrightarrow> mapS (\<lambda>m. seal m pub) ms s = (Inr cs, t) \<Longrightarrow> list_all2 (\<lambda>m c. unseal c key = Inr m) ms cs"
  by (induction ms arbitrary: cs s) (auto simp: bindS_Inr intro: opens)

text \<open>One value sealed to many keys opens with each.\<close>

lemma opens_each:
  "mapS (\<lambda>pub. seal m pub) pubs s = (Inr cs, t) \<Longrightarrow> list_all2 (\<lambda>pub c. \<forall>key. pair key pub \<longrightarrow> unseal c key = Inr m) pubs cs"
  by (induction pubs arbitrary: cs s) (auto simp: bindS_Inr intro: opens)

end

section \<open>The code\<close>

text \<open>A secret's name, and a key's copy of a secret.\<close>

record secretMeta =
  me_Label :: string
  me_Provider :: string

record sealedCopy =
  sc_KeyID :: string
  sc_Enc :: string
  sc_Meta :: string

text \<open>
  \<open>ed25519PubToX25519\<close> is the conversion of a curve point (\<open>filippo.io/edwards25519\<close>), \<open>box_seal_anon\<close> and \<open>box_open_anon\<close> are
  \<open>box.SealAnonymous\<close>, with the 32 bytes it draws, and \<open>box.OpenAnonymous\<close>; \<open>h_sha512\<close> is SHA-512, \<open>ssh_of_ed25519\<close>
  \<open>ssh.NewPublicKey\<close>. \<open>enc_meta\<close> and \<open>dec_meta\<close> are the JSON of a name.
\<close>

record ('k, 's, 'n) seal_host = "('k, 's, 'n) owner_host" +
  ed25519PubToX25519 :: "bytes \<Rightarrow> bytes option"
  h_sha512 :: "bytes \<Rightarrow> bytes"
  box_seal_anon :: "bytes \<Rightarrow> bytes \<Rightarrow> bytes \<Rightarrow> bytes"
  box_open_anon :: "bytes \<Rightarrow> bytes \<Rightarrow> bytes \<Rightarrow> bytes option"
  ssh_of_ed25519 :: "bytes \<Rightarrow> 'k option"
  enc_meta :: "secretMeta \<Rightarrow> string"
  dec_meta :: "string \<Rightarrow> secretMeta option"

unbundle bit_operations_syntax

definition ed25519PrivToX25519 :: "('k, 's, 'n, 'x) seal_host_scheme \<Rightarrow> bytes \<Rightarrow> bytes" where
  "ed25519PrivToX25519 h edPriv =
     (let d = h_sha512 h (take 32 edPriv);
          d = d[0 := d ! 0 AND 248];
          d = d[31 := d ! 31 AND 127];
          d = d[31 := d ! 31 OR 64]
      in take 32 d)"

definition sealForKeyRaw :: "('k, 's, 'n, 'x) seal_host_scheme \<Rightarrow> bytes \<Rightarrow> string \<Rightarrow> ('n, string) io" where
  "sealForKeyRaw h plaintext edPubB64 =
     (case b64_decode (trim_space edPubB64) of
        None \<Rightarrow> failS (Msg ''invalid recipient public key'')
      | Some edPub \<Rightarrow>
          if length edPub \<noteq> 32 then failS (Msg ''invalid recipient public key'')
          else bindS (liftS (optE (Msg ''invalid Ed25519 public key'') (ed25519PubToX25519 h edPub))) (\<lambda>xPub.
               bindS (mustRandom 32) (\<lambda>eph. retS (b64_encode (box_seal_anon h eph plaintext xPub)))))"

definition openSealedBoxRaw :: "('k, 's, 'n, 'x) seal_host_scheme \<Rightarrow> string \<Rightarrow> bytes \<Rightarrow> err + bytes" where
  "openSealedBoxRaw h encryptedB64 edPriv =
     bindE (optE (Ctx ''invalid base64'' BadEncoding) (b64_decode encryptedB64)) (\<lambda>ciphertext.
     bindE (optE (Msg ''public key conversion'') (ed25519PubToX25519 h (public_of edPriv))) (\<lambda>xPub.
     optE (Msg ''decryption failed'') (box_open_anon h ciphertext xPub (ed25519PrivToX25519 h edPriv))))"

text \<open>The variants for text.\<close>

definition sealForKey :: "('k, 's, 'n, 'x) seal_host_scheme \<Rightarrow> string \<Rightarrow> string \<Rightarrow> ('n, string) io" where
  "sealForKey h plaintext edPubB64 = sealForKeyRaw h (bytes_of plaintext) edPubB64"

definition openSealedBox :: "('k, 's, 'n, 'x) seal_host_scheme \<Rightarrow> string \<Rightarrow> bytes \<Rightarrow> err + string" where
  "openSealedBox h encryptedB64 edPriv = bindE (openSealedBoxRaw h encryptedB64 edPriv) (\<lambda>raw. Inr (string_of raw))"

definition sealSecretFor :: "('k, 's, 'n, 'x) seal_host_scheme \<Rightarrow> string \<Rightarrow> secretMeta \<Rightarrow> string \<Rightarrow> string \<Rightarrow> ('n, sealedCopy) io" where
  "sealSecretFor h val name keyID pubB64 =
     bindS (sealForKey h val pubB64) (\<lambda>enc.
     bindS (sealForKey h (enc_meta h name) pubB64) (\<lambda>meta.
     retS \<lparr>sc_KeyID = keyID, sc_Enc = enc, sc_Meta = meta\<rparr>))"

definition openSecretName :: "('k, 's, 'n, 'x) seal_host_scheme \<Rightarrow> string \<Rightarrow> bytes \<Rightarrow> err + secretMeta" where
  "openSecretName h metaB64 key =
     (if metaB64 = [] then Inl (Msg ''no sealed name'')
      else bindE (openSealedBox h metaB64 key) (\<lambda>j. optE (Ctx ''sealed name is not valid JSON'' BadJSON) (dec_meta h j)))"

subsection \<open>The organization vault\<close>

definition createOrgVault :: "('k, 's, 'n, 'x) seal_host_scheme \<Rightarrow> string \<Rightarrow> ('n, string \<times> string \<times> bytes) io" where
  "createOrgVault h ownerPubB64 =
     bindS (generateKey h) (\<lambda>priv.
     bindS (sealForKeyRaw h priv ownerPubB64) (\<lambda>wrapped. retS (b64_encode (public_of priv), wrapped, priv)))"

definition unwrapOrgKey :: "('k, 's, 'n, 'x) seal_host_scheme \<Rightarrow> string \<Rightarrow> bytes \<Rightarrow> err + bytes" where
  "unwrapOrgKey h wrappedB64 personalPriv =
     bindE (openSealedBoxRaw h wrappedB64 personalPriv) (\<lambda>raw.
     if length raw \<noteq> privateKeySize then Inl (Msg ''unwrapped org key has the wrong size'') else Inr raw)"

definition openOrgSecret :: "('k, 's, 'n, 'x) seal_host_scheme \<Rightarrow> string \<Rightarrow> bytes \<Rightarrow> err + string" where
  "openOrgSecret h ctB64 orgPriv = bindE (openSealedBoxRaw h ctB64 orgPriv) (\<lambda>raw. Inr (string_of raw))"

definition wrapOrgKeyFor :: "('k, 's, 'n, 'x) seal_host_scheme \<Rightarrow> bytes \<Rightarrow> string \<Rightarrow> ('n, string) io" where
  "wrapOrgKeyFor h orgPriv memberPubB64 = sealForKeyRaw h orgPriv memberPubB64"

record orgMemberKey =
  mk_UserID :: string
  mk_KeyID :: string
  mk_Pub :: string

record orgSecretCopy =
  oc_SecretID :: string
  oc_Enc :: string
  oc_Meta :: string

record sealedSecret =
  ss_SecretID :: string
  ss_Enc :: string
  ss_Meta :: string

record memberWrap =
  mw_UserID :: string
  mw_KeyID :: string
  mw_Wrapped :: string

record rotateResult =
  rr_NewOrgPub :: string
  rr_Sealed :: "sealedSecret list"
  rr_Wraps :: "memberWrap list"
  rr_NewOrgPriv :: bytes

text \<open>The secrets opened under the current key, each with its name; then one sealed to the new key; then the new key for one member.\<close>

definition open_current :: "('k, 's, 'n, 'x) seal_host_scheme \<Rightarrow> bytes \<Rightarrow> orgSecretCopy \<Rightarrow> err + (string \<times> string \<times> string)" where
  "open_current h orgPriv s =
     bindE (wrapE (Ctx ''open secret under current org key'') (openOrgSecret h (oc_Enc s) orgPriv)) (\<lambda>v.
     bindE (wrapE (Ctx ''open the name under current org key'') (openOrgSecret h (oc_Meta s) orgPriv)) (\<lambda>m.
     Inr (oc_SecretID s, v, m)))"

definition reseal :: "('k, 's, 'n, 'x) seal_host_scheme \<Rightarrow> string \<Rightarrow> string \<times> string \<times> string \<Rightarrow> ('n, sealedSecret) io" where
  "reseal h newPubB64 p =
     (case p of (i, v, m) \<Rightarrow>
        bindS (sealForKeyRaw h (bytes_of v) newPubB64) (\<lambda>enc.
        bindS (sealForKeyRaw h (bytes_of m) newPubB64) (\<lambda>meta. retS \<lparr>ss_SecretID = i, ss_Enc = enc, ss_Meta = meta\<rparr>)))"

definition wrap_member :: "('k, 's, 'n, 'x) seal_host_scheme \<Rightarrow> bytes \<Rightarrow> orgMemberKey \<Rightarrow> ('n, memberWrap) io" where
  "wrap_member h newPriv m =
     bindS (sealForKeyRaw h newPriv (mk_Pub m)) (\<lambda>w. retS \<lparr>mw_UserID = mk_UserID m, mw_KeyID = mk_KeyID m, mw_Wrapped = w\<rparr>)"

definition rotateOrgVault ::
  "('k, 's, 'n, 'x) seal_host_scheme \<Rightarrow> bytes \<Rightarrow> orgMemberKey list \<Rightarrow> orgSecretCopy list \<Rightarrow> ('n, rotateResult) io" where
  "rotateOrgVault h orgPriv members secrets =
     bindS (liftS (mapE (open_current h orgPriv) secrets)) (\<lambda>plain.
     bindS (generateKey h) (\<lambda>newPriv.
     let newPubB64 = b64_encode (public_of newPriv)
     in bindS (mapS (reseal h newPubB64) plain) (\<lambda>sealed.
        bindS (mapS (wrap_member h newPriv) members) (\<lambda>wraps.
        retS \<lparr>rr_NewOrgPub = newPubB64, rr_Sealed = sealed, rr_Wraps = wraps, rr_NewOrgPriv = newPriv\<rparr>))))"

section \<open>What is sealed opens\<close>

text \<open>
  The law of the sealed boxes (\<open>crypto_box_seal\<close> with converted Ed25519 keys), for every key pair; and a key with the text of its
  public half, spaces around it allowed, as the code reads it.
\<close>

definition sealed_boxes_open :: "('k, 's, 'n, 'x) seal_host_scheme \<Rightarrow> bool" where
  "sealed_boxes_open h \<longleftrightarrow> (\<forall>seed eph m xPub. length seed = 32 \<longrightarrow> length eph = 32 \<longrightarrow>
     ed25519PubToX25519 h (h_public h seed) = Some xPub \<longrightarrow>
     box_open_anon h (box_seal_anon h eph m xPub) xPub (ed25519PrivToX25519 h (seed @ h_public h seed)) = Some m)"

definition vault_pair :: "('k, 's, 'n, 'x) seal_host_scheme \<Rightarrow> bytes \<Rightarrow> string \<Rightarrow> bool" where
  "vault_pair h key pub \<longleftrightarrow> sealed_boxes_open h \<and>
     (\<exists>seed. length seed = 32 \<and> key = seed @ h_public h seed \<and> b64_decode (trim_space pub) = Some (h_public h seed))"

lemma seal_opens:
  assumes "vault_pair h key pub" "sealForKeyRaw h m pub s = (Inr c, t)"
  shows "openSealedBoxRaw h c key = Inr m"
  using assms
  by (auto simp: vault_pair_def sealForKeyRaw_def openSealedBoxRaw_def bindS_Inr mustRandom_def public_of_def sealed_boxes_open_def
      simp del: b64_encode.simps split: if_splits)

interpretation vault: sealing "sealForKeyRaw h" "openSealedBoxRaw h" "vault_pair h" for h
  by unfold_locales (rule seal_opens)

text \<open>The text of a public key as the program prints it.\<close>

lemma trim_b64: "x \<noteq> [] \<Longrightarrow> trim_space (b64_encode x) = b64_encode x"
  by (rule trim_space_id) (auto intro!: alphabet_not_space b64_encode_chars [of _ x])

lemma vault_pair_own:
  assumes "sealed_boxes_open h" "ed25519_sizes h" "length seed = 32"
  shows "vault_pair h (seed @ h_public h seed) (b64_encode (public_of (seed @ h_public h seed)))"
proof -
  have "length (h_public h seed) = 32" using assms(2) by (simp add: ed25519_sizes_def)
  then have "h_public h seed \<noteq> []" by auto
  with assms show ?thesis by (auto simp: vault_pair_def public_of_def trim_b64 simp del: b64_encode.simps)
qed

lemma seal_text_opens: "vault_pair h key pub \<Longrightarrow> sealForKey h v pub s = (Inr c, t) \<Longrightarrow> openSealedBox h c key = Inr v"
  using vault.opens [of h key pub "bytes_of v" s c t] by (simp add: sealForKey_def openSealedBox_def)

lemma generateKey_Inr: "generateKey h s = (Inr key, t) \<longleftrightarrow>
    key = map (\<lambda>i. w_rand s (w_pos s + i)) [0..<32] @ h_public h (map (\<lambda>i. w_rand s (w_pos s + i)) [0..<32]) \<and> t = s\<lparr>w_pos := w_pos s + 32\<rparr>"
  by (auto simp: generateKey_def bindS_def mustRandom_def)

lemma open_current_Inr:
  "open_current h k s = Inr p \<longleftrightarrow> (\<exists>v m. openOrgSecret h (oc_Enc s) k = Inr v \<and> openOrgSecret h (oc_Meta s) k = Inr m \<and> p = (oc_SecretID s, v, m))"
  by (auto simp: open_current_def result_simps)

lemma reseal_opens:
  assumes "vault_pair h key pub" "reseal h pub p s = (Inr x, t)"
  shows "ss_SecretID x = fst p \<and> openOrgSecret h (ss_Enc x) key = Inr (fst (snd p)) \<and> openOrgSecret h (ss_Meta x) key = Inr (snd (snd p))"
proof -
  obtain i v m where p: "p = (i, v, m)" by (cases p)
  from assms(2) obtain enc meta u where "sealForKeyRaw h (bytes_of v) pub s = (Inr enc, u)"
    "sealForKeyRaw h (bytes_of m) pub u = (Inr meta, t)" "x = \<lparr>ss_SecretID = i, ss_Enc = enc, ss_Meta = meta\<rparr>"
    by (auto simp: reseal_def p bindS_Inr)
  with vault.opens [OF assms(1)] show ?thesis by (simp add: openOrgSecret_def p)
qed

lemma wrap_opens:
  assumes "wrap_member h new m s = (Inr w, t)" "length new = privateKeySize"
  shows "mw_UserID w = mk_UserID m \<and> mw_KeyID w = mk_KeyID m \<and>
    (\<forall>key. vault_pair h key (mk_Pub m) \<longrightarrow> unwrapOrgKey h (mw_Wrapped w) key = Inr new)"
  using assms vault.opens [of h _ "mk_Pub m" new s _ t] by (auto simp: wrap_member_def bindS_Inr unwrapOrgKey_def)

lemma mapS_all2:
  assumes "mapS f xs s = (Inr ys, t)" "\<And>x y u v. x \<in> set xs \<Longrightarrow> f x u = (Inr y, v) \<Longrightarrow> P x y"
  shows "list_all2 P xs ys"
  using assms by (induction xs arbitrary: ys s) (auto simp: bindS_Inr)

text \<open>C18. Rotating an organization vault loses nothing: when it succeeds, the new secrets are the old ones in order, each opens under the new key to the
  value and the name the current key opens, there is exactly one wrap for each remaining member's key, and each member opens that wrap to the new key.\<close>

theorem rotation_keeps_secrets:
  assumes "rotateOrgVault h orgPriv members secrets s = (Inr res, t)" "sealed_boxes_open h" "ed25519_sizes h"
  shows "list_all2 (\<lambda>old new. ss_SecretID new = oc_SecretID old \<and>
      (\<exists>v m. openOrgSecret h (oc_Enc old) orgPriv = Inr v \<and> openOrgSecret h (oc_Meta old) orgPriv = Inr m \<and>
         openOrgSecret h (ss_Enc new) (rr_NewOrgPriv res) = Inr v \<and> openOrgSecret h (ss_Meta new) (rr_NewOrgPriv res) = Inr m)) secrets (rr_Sealed res) \<and>
    list_all2 (\<lambda>m w. mw_UserID w = mk_UserID m \<and> mw_KeyID w = mk_KeyID m \<and>
      (\<forall>key. vault_pair h key (mk_Pub m) \<longrightarrow> unwrapOrgKey h (mw_Wrapped w) key = Inr (rr_NewOrgPriv res))) members (rr_Wraps res)"
proof -
  from assms(1) obtain plain new u sealed u2 wraps where r: "mapE (open_current h orgPriv) secrets = Inr plain" "generateKey h s = (Inr new, u)"
    "mapS (reseal h (b64_encode (public_of new))) plain u = (Inr sealed, u2)" "mapS (wrap_member h new) members u2 = (Inr wraps, t)"
    "res = \<lparr>rr_NewOrgPub = b64_encode (public_of new), rr_Sealed = sealed, rr_Wraps = wraps, rr_NewOrgPriv = new\<rparr>"
    by (auto simp: rotateOrgVault_def bindS_Inr Let_def)
  have pair: "vault_pair h new (b64_encode (public_of new))"
    using r(2) vault_pair_own [OF assms(2,3)] by (auto simp: generateKey_Inr)
  have len: "length new = privateKeySize" by (rule generated_key_length [OF assms(3) r(2)])
  have "list_all2 (\<lambda>old p. open_current h orgPriv old = Inr p) secrets plain" using r(1) by (simp add: mapE_Inr)
  moreover have "list_all2 (\<lambda>p x. ss_SecretID x = fst p \<and> openOrgSecret h (ss_Enc x) new = Inr (fst (snd p)) \<and>
      openOrgSecret h (ss_Meta x) new = Inr (snd (snd p))) plain sealed"
    by (rule mapS_all2 [OF r(3)]) (rule reseal_opens [OF pair])
  ultimately have "list_all2 (\<lambda>old x. ss_SecretID x = oc_SecretID old \<and>
      (\<exists>v m. openOrgSecret h (oc_Enc old) orgPriv = Inr v \<and> openOrgSecret h (oc_Meta old) orgPriv = Inr m \<and>
         openOrgSecret h (ss_Enc x) new = Inr v \<and> openOrgSecret h (ss_Meta x) new = Inr m)) secrets sealed"
    by (rule list_all2_trans [rotated]) (auto simp: open_current_Inr)
  moreover have "list_all2 (\<lambda>m w. mw_UserID w = mk_UserID m \<and> mw_KeyID w = mk_KeyID m \<and>
      (\<forall>key. vault_pair h key (mk_Pub m) \<longrightarrow> unwrapOrgKey h (mw_Wrapped w) key = Inr new)) members wraps"
    by (rule mapS_all2 [OF r(4)]) (rule wrap_opens [OF _ len])
  ultimately show ?thesis by (simp add: r(5))
qed

subsection \<open>An instance\<close>

text \<open>A public key is the seed with every byte raised by one; a box is the recipient's key followed by the value.\<close>

definition sample_sealer :: "(string, bytes, unit) seal_host" where
  "sample_sealer = agent_host.extend (sample_agent\<lparr>h_public := map (\<lambda>x. x + 1)\<circ> (\<lambda>s. take 32 (s @ replicate 32 0))\<rparr>)
     \<lparr>ssh_line = (\<lambda>k. k), ed_signer = (\<lambda>_. None), agent_signers = (\<lambda>_. None), dongle_signer = (\<lambda>_. None), parse_private = (\<lambda>_. NotAKey),
      parse_duration = (\<lambda>_. None), enc_delegation = (\<lambda>_. [1]), enc_revocations = (\<lambda>_. [1]), enc_policy = (\<lambda>_. [1]),
      enc_account_policy = (\<lambda>_. [1]), enc_freshness_delegation = (\<lambda>_. [1]), enc_freshness = (\<lambda>_. [1]),
      read_status = (\<lambda>_. None), read_root_fp = (\<lambda>_. None), read_draft = (\<lambda>_. None), read_account_draft = (\<lambda>_. None),
      ed25519PubToX25519 = Some, h_sha512 = (\<lambda>_. replicate 64 0), box_seal_anon = (\<lambda>eph m xp. xp @ m),
      box_open_anon = (\<lambda>c xp xk. if take (length xp) c = xp then Some (drop (length xp) c) else None), ssh_of_ed25519 = (\<lambda>b. Some (string_of b)),
      enc_meta = (\<lambda>m. me_Label m), dec_meta = (\<lambda>j. Some \<lparr>me_Label = j, me_Provider = []\<rparr>)\<rparr>"

lemma sample_sealer_laws: "sealed_boxes_open sample_sealer" "ed25519_sizes sample_sealer"
  by (simp_all add: sealed_boxes_open_def ed25519_sizes_def sample_sealer_def agent_host.defs min_def)

definition sample_org :: bytes where
  "sample_org = replicate 32 5 @ replicate 32 6"

lemma sample_sealer_simps:
  "ed25519PubToX25519 sample_sealer = Some" "box_seal_anon sample_sealer eph m xp = xp @ m"
  "box_open_anon sample_sealer c xp xk = (if take (length xp) c = xp then Some (drop (length xp) c) else None)"
  "h_public sample_sealer s = map (\<lambda>x. x + 1) (take 32 (s @ replicate 32 0))"
  "enc_meta sample_sealer = me_Label" "dec_meta sample_sealer = (\<lambda>j. Some \<lparr>me_Label = j, me_Provider = []\<rparr>)"
  "ssh_of_ed25519 sample_sealer = (\<lambda>b. Some (string_of b))" "h_policy sample_sealer = sample_env"
  by (simp_all add: sample_sealer_def agent_host.defs sample_agent_laws)

lemma sample_rotation:
  "\<exists>res t. rotateOrgVault sample_sealer sample_org [\<lparr>mk_UserID = ''u'', mk_KeyID = ''k'', mk_Pub = b64_encode (replicate 32 3)\<rparr>]
     [\<lparr>oc_SecretID = ''s'', oc_Enc = b64_encode (replicate 32 6 @ [65]), oc_Meta = b64_encode (replicate 32 6 @ [66])\<rparr>] example_world = (Inr res, t)"
  by (simp add: rotateOrgVault_def open_current_def openOrgSecret_def openSealedBoxRaw_def sample_sealer_simps public_of_def sample_org_def
      bindS_def Let_def generateKey_def mustRandom_def reseal_def sealForKeyRaw_def trim_b64 wrap_member_def del: b64_encode.simps split: prod.split)

theorem rotation_keeps_secrets_witness:
  "\<exists>res t. rotateOrgVault sample_sealer sample_org [\<lparr>mk_UserID = ''u'', mk_KeyID = ''k'', mk_Pub = b64_encode (replicate 32 3)\<rparr>]
     [\<lparr>oc_SecretID = ''s'', oc_Enc = b64_encode (replicate 32 6 @ [65]), oc_Meta = b64_encode (replicate 32 6 @ [66])\<rparr>] example_world = (Inr res, t) \<and>
     map ss_SecretID (rr_Sealed res) = [''s''] \<and> length (rr_Wraps res) = 1"
proof -
  from sample_rotation obtain res t where r: "rotateOrgVault sample_sealer sample_org [\<lparr>mk_UserID = ''u'', mk_KeyID = ''k'', mk_Pub = b64_encode (replicate 32 3)\<rparr>]
     [\<lparr>oc_SecretID = ''s'', oc_Enc = b64_encode (replicate 32 6 @ [65]), oc_Meta = b64_encode (replicate 32 6 @ [66])\<rparr>] example_world = (Inr res, t)" by blast
  from rotation_keeps_secrets [OF r sample_sealer_laws] r show ?thesis
    by (intro exI [of _ res] exI [of _ t]) (auto simp: list_all2_Cons1 list_all2_lengthD)
qed

end
