(* ===== verification/Secret.thy ===== *)
theory Secret
  imports Seal
begin

text \<open>
  Secrets (\<open>secret.go\<close>, the secret commands of \<open>main.go\<close> and \<open>cli.go\<close>): the signed envelope a delegated device seals to one machine, its
  verification on the machine, and the commands that pull, list, export and re-seal. Shown: with signatures required, every value a machine
  uses was signed for that secret, name and machine by a device the pinned root delegated; what a device seals, the machine gets.
\<close>

section \<open>The signed envelope\<close>

definition ctxSecret :: string where "ctxSecret = ''p3sig-secret-v1'' @ [nl]"
definition signedSecretPrefix :: string where "signedSecretPrefix = ''p3sig-signed-secret-v1'' @ [nl]"

record signedSecret =
  sv_Account :: string
  sv_SecretID :: string
  sv_Name :: string
  sv_Value :: string
  sv_Recipient :: string
  sv_Issued :: int

record signedSecretEnvelope =
  en_Signer :: string
  en_Secret :: signedBlob

record 'k secretTrust =
  tr_root :: 'k
  tr_chain :: "signedBlob list"
  tr_revoked :: "string list"

text \<open>A secret as the server hands it out, and the work of re-sealing: keys that lack a copy, and the copies there are in the order Go visits them.\<close>

record served =
  se_SecretID :: string
  se_Enc :: string
  se_Meta :: string

record resealWork =
  wk_SecretID :: string
  wk_Missing :: "(string \<times> string) list"
  wk_Copies :: "(string \<times> string) list"

record resealCopy =
  rc_SecretID :: string
  rc_Copy :: sealedCopy

record orgSecretRow =
  or_SecretID :: string
  or_BundleID :: string
  or_Bundle :: string
  or_Meta :: string

record bundleMachine =
  bm_MachineID :: string
  bm_Keys :: "(string \<times> string) list"

text \<open>\<open>dec_envelope\<close> gives the value and whether nothing but white space follows it.\<close>

record ('k, 's, 'n) secret_host = "('k, 's, 'n) seal_host" +
  enc_secret :: "signedSecret \<Rightarrow> bytes"
  dec_secret :: "bytes \<Rightarrow> signedSecret option"
  enc_envelope :: "signedSecretEnvelope \<Rightarrow> string"
  dec_envelope :: "string \<Rightarrow> (signedSecretEnvelope \<times> bool) option"
  enc_copies :: "resealCopy list \<Rightarrow> string"
  read_served :: "string \<Rightarrow> served list option"
  read_key_ids :: "string \<Rightarrow> string list option"
  read_work :: "string \<Rightarrow> resealWork list option"
  read_org_rows :: "string \<Rightarrow> orgSecretRow list option"
  read_bundle_machines :: "string \<Rightarrow> bundleMachine list option"

definition machineKeyFP :: "('k, 's, 'n, 'x) seal_host_scheme \<Rightarrow> bytes \<Rightarrow> string" where
  "machineKeyFP h pub = (case ssh_of_ed25519 h pub of None \<Rightarrow> [] | Some k \<Rightarrow> fp (h_policy h) k)"

definition newSecretTrust :: "('k, 's) policy_env \<Rightarrow> signedPolicy \<Rightarrow> string \<Rightarrow> err + 'k secretTrust" where
  "newSecretTrust env sp rootFP =
     bindE (optE (Msg ''root key'') (parse_key env (sp_RootKey sp))) (\<lambda>root.
     if fp env root \<noteq> rootFP then Inl (Msg ''root key is not the pinned root'')
     else bindE (case sp_Revocations sp of
           None \<Rightarrow> Inr []
         | Some b \<Rightarrow> bindE (wrapE (\<lambda>e. Ctx ''revocations'' (EBlob e)) (openSignedBlob env root ctxRevocations (dec_revocations env) b))
             (\<lambda>r. Inr (rv_Revoked r))) (\<lambda>revoked.
       Inr \<lparr>tr_root = root, tr_chain = sp_Chain sp, tr_revoked = revoked\<rparr>))"

text \<open>The loop over the chain is, line for line, that of \<open>liveDelegations\<close>.\<close>

definition delegatedAccounts :: "('k, 's) policy_env \<Rightarrow> 'k secretTrust \<Rightarrow> string \<Rightarrow> int \<Rightarrow> err + string list" where
  "delegatedAccounts env t signerFP now =
     (if signerFP \<in> set (tr_revoked t) then Inl (Msg ''signing device has been revoked'')
      else wrapE EPolicy (liveDelegations env (tr_root t) (tr_chain t) signerFP now))"

definition sealSignedSecret :: "('k, 's, 'n, 'x) secret_host_scheme \<Rightarrow> 'k signer \<Rightarrow> signedSecret \<Rightarrow> string \<Rightarrow> ('n, string) io" where
  "sealSignedSecret h device s recipientPubB64 =
     bindS (sign_io device ctxSecret (enc_secret h) s) (\<lambda>blob.
     sealForKeyRaw h (bytes_of (signedSecretPrefix @ enc_envelope h \<lparr>en_Signer = authorizedKey h device, en_Secret = blob\<rparr>)) recipientPubB64)"

text \<open>A value that was signed, or one that is not (\<open>errUnsignedSecret\<close>).\<close>

datatype secret_value = Signed string | Unsigned string

definition openSecretValue ::
  "('k, 's, 'n, 'x) secret_host_scheme \<Rightarrow> string \<Rightarrow> string \<Rightarrow> string \<Rightarrow> string \<Rightarrow> 'k secretTrust option \<Rightarrow> int \<Rightarrow> err + secret_value" where
  "openSecretValue h plain secretID name recipientFP trust now =
     (if \<not> prefix signedSecretPrefix plain then Inr (Unsigned plain)
      else case trust of None \<Rightarrow> Inl (Msg ''signed secret but no root pinned to verify it'')
      | Some t \<Rightarrow>
        bindE (optE (Msg ''signed secret envelope'') (dec_envelope h (drop (length signedSecretPrefix) plain))) (\<lambda>(env, ends).
        bindE (requireE ends (Msg ''signed secret envelope: trailing data'')) (\<lambda>_.
        bindE (optE (Msg ''signer key'') (parse_key (h_policy h) (en_Signer env))) (\<lambda>signer.
        bindE (delegatedAccounts (h_policy h) t (fp (h_policy h) signer) now) (\<lambda>accounts.
        bindE (wrapE EBlob (openSignedBlob (h_policy h) signer ctxSecret (dec_secret h) (en_Secret env))) (\<lambda>s.
        if sv_Account s \<notin> set accounts then Inl (Msg ''signer is not delegated for account'')
        else if sv_SecretID s \<noteq> secretID then Inl (Msg ''signed for another secret (swapped)'')
        else if sv_Name s \<noteq> name then Inl (Msg ''signed for another name (swapped)'')
        else if sv_Recipient s \<noteq> recipientFP then Inl (Msg ''signed for another machine'')
        else Inr (Signed (sv_Value s))))))))"

text \<open>The value, and whether it is unsigned.\<close>

definition acceptSecretValue ::
  "('k, 's, 'n, 'x) secret_host_scheme \<Rightarrow> string \<Rightarrow> string \<Rightarrow> string \<Rightarrow> string \<Rightarrow> 'k secretTrust option \<Rightarrow> int \<Rightarrow> bool \<Rightarrow> err + (string \<times> bool)" where
  "acceptSecretValue h plain secretID name recipientFP trust now requireSigned =
     bindE (openSecretValue h plain secretID name recipientFP trust now) (\<lambda>v. case v of
       Unsigned val \<Rightarrow> if requireSigned then Inl (Msg ''not signed and signatures are required'') else Inr (val, True)
     | Signed val \<Rightarrow> Inr (val, False))"

definition loadSecretTrust ::
  "('k, 's, 'n, 'x) agent_host_scheme \<Rightarrow> string \<Rightarrow> string \<Rightarrow> bytes \<Rightarrow> string \<Rightarrow> ('n, 'k secretTrust option) io" where
  "loadSecretTrust h apiBase machine key rootFP =
     (if rootFP = [] then retS None
      else bindS (wrapS (Ctx ''getSignedPolicy'') (pullInto h (dec_signed h) no_signed apiBase ''getSignedPolicy'' machine key Map.empty)) (\<lambda>sp.
           if sp_RootKey sp = [] then failS (Msg ''server returned no signing chain for a pinned root'')
           else bindS (liftS (newSecretTrust (h_policy h) sp rootFP)) (\<lambda>t. retS (Some t))))"

section \<open>Pulling secrets\<close>

definition open_served ::
  "('k, 's, 'n, 'x) secret_host_scheme \<Rightarrow> bytes \<Rightarrow> 'k secretTrust option \<Rightarrow> bool \<Rightarrow> served \<Rightarrow> ('n, string \<times> string) io" where
  "open_served h key trust requireSigned s =
     bindS (liftS (wrapE (Ctx ''open the name of secret'') (openSecretName h (se_Meta s) key))) (\<lambda>name.
     bindS (liftS (wrapE (Ctx ''unseal'') (openSealedBox h (se_Enc s) key))) (\<lambda>plain.
     bindS get_now (\<lambda>now.
     bindS (liftS (wrapE (Ctx ''secret REJECTED'')
         (acceptSecretValue h plain (se_SecretID s) (me_Label name) (machineKeyFP h (public_of key)) trust now requireSigned))) (\<lambda>(val, _).
     retS (me_Label name, val)))))"

definition fetchSecrets ::
  "('k, 's, 'n, 'x) secret_host_scheme \<Rightarrow> string \<Rightarrow> string \<Rightarrow> bytes \<Rightarrow> string \<Rightarrow> string \<Rightarrow> bool \<Rightarrow> ('n, (string \<times> string) list) io" where
  "fetchSecrets h apiBase machine key bundle rootFP requireSigned =
     bindS (pullInto h (read_served h) [] apiBase ''getSealedSecrets'' machine key (if bundle \<noteq> [] then [''bundle'' \<mapsto> [bundle]] else Map.empty)) (\<lambda>secrets.
     bindS (wrapS (Ctx ''secret signing chain'') (loadSecretTrust h apiBase machine key rootFP)) (\<lambda>trust.
     if requireSigned \<and> trust = None then failS (Msg ''signed secrets required but no root pinned'')
     else bindS (mapS (open_served h key trust requireSigned) secrets) (\<lambda>out. retS (sort_key fst out))))"

text \<open>The arguments of the four commands: the pairs they get.\<close>

definition my_secrets :: "('k, 's, 'n, 'x) secret_host_scheme \<Rightarrow> flags \<Rightarrow> ('n, (string \<times> string) list) io" where
  "my_secrets h f =
     bindS (resolve h f) (\<lambda>(apiBase, machine, key, _).
     case signedFlags h f of (rootFP, requireSigned) \<Rightarrow> fetchSecrets h apiBase machine key (flag f ''bundle'') rootFP requireSigned)"

definition secret_line :: "flags \<Rightarrow> string \<times> string \<Rightarrow> string" where
  "secret_line f kv =
     (if flag f ''export'' = ''true'' then ''export '' @ fst kv @ ''='' @ shellQuote (snd kv) @ [nl] else fst kv @ ''='' @ snd kv @ [nl])"

definition cmdSecretsPull :: "('k, 's, 'n, 'x) secret_host_scheme \<Rightarrow> flags \<Rightarrow> ('n, unit) io" where
  "cmdSecretsPull h f = bindS (my_secrets h f) (\<lambda>pairs. print_text (concat (map (secret_line f) pairs)))"

definition cmdSecretsList :: "('k, 's, 'n, 'x) secret_host_scheme \<Rightarrow> flags \<Rightarrow> ('n, unit) io" where
  "cmdSecretsList h f = bindS (my_secrets h f) (\<lambda>pairs. print_text (concat (map (\<lambda>kv. fst kv @ [nl]) pairs)))"

definition cmdSecretsGet :: "('k, 's, 'n, 'x) secret_host_scheme \<Rightarrow> flags \<Rightarrow> string \<Rightarrow> ('n, unit) io" where
  "cmdSecretsGet h f name =
     (if name = [] then failS (Msg ''usage: p3sig secrets get NAME'')
      else bindS (my_secrets h f) (\<lambda>pairs. case map_of pairs name of
          Some v \<Rightarrow> println v
        | None \<Rightarrow> failS (Msg ''no secret of that name granted to this machine'')))"

text \<open>The command after \<open>--\<close>, with what it gets added to its environment: finding and running it is the system's.\<close>

definition cmdExec :: "('k, 's, 'n, 'x) secret_host_scheme \<Rightarrow> string list \<Rightarrow> ('n, string list \<times> string list) io" where
  "cmdExec h args =
     (let before = takeWhile (\<lambda>a. a \<noteq> ''--'') args; cmdArgs = drop (Suc (length before)) args
      in if length before = length args \<or> cmdArgs = [] then failS (Msg ''usage: p3sig exec'')
         else bindS (my_secrets h (parseFlags before)) (\<lambda>pairs. retS (cmdArgs, map (\<lambda>kv. fst kv @ ''='' @ snd kv) pairs)))"

section \<open>What a machine accepts\<close>

text \<open>The device with key \<open>signer\<close> may sign secrets of the account under this trust.\<close>

definition may_sign :: "('k, 's) policy_env \<Rightarrow> 'k secretTrust \<Rightarrow> 'k \<Rightarrow> string \<Rightarrow> int \<Rightarrow> bool" where
  "may_sign env t signer account now \<longleftrightarrow>
     fp env signer \<notin> set (tr_revoked t) \<and> (\<forall>b \<in> set (tr_chain t). opens env (tr_root t) ctxDelegation (dec_delegation env) b) \<and>
     (\<exists>b \<in> set (tr_chain t). delegates env (tr_root t) (fp env signer) now b account)"

lemma delegatedAccounts_Inr:
  "(\<exists>accounts. delegatedAccounts env t (fp env signer) now = Inr accounts \<and> a \<in> set accounts) \<longleftrightarrow> may_sign env t signer a now"
  using liveDelegations_Inr [of env "tr_root t" "tr_chain t" "fp env signer" now a]
  by (auto simp: delegatedAccounts_def may_sign_def)

text \<open>The value was signed for this secret, this name and this machine by such a device.\<close>

definition signed_for ::
  "('k, 's, 'n, 'x) secret_host_scheme \<Rightarrow> 'k secretTrust \<Rightarrow> int \<Rightarrow> string \<Rightarrow> string \<Rightarrow> string \<Rightarrow> string \<Rightarrow> bool" where
  "signed_for h t now me secretID name val \<longleftrightarrow>
     (\<exists>signer b s. may_sign (h_policy h) t signer (sv_Account s) now \<and>
        openSignedBlob (h_policy h) signer ctxSecret (dec_secret h) b = Inr s \<and>
        sv_SecretID s = secretID \<and> sv_Name s = name \<and> sv_Value s = val \<and> sv_Recipient s = me)"

lemma openSecretValue_Signed:
  assumes "openSecretValue h plain secretID name me trust now = Inr (Signed val)"
  shows "\<exists>t. trust = Some t \<and> signed_for h t now me secretID name val"
proof -
  from assms obtain t where t: "trust = Some t" "prefix signedSecretPrefix plain"
    by (auto simp: openSecretValue_def split: if_splits option.splits)
  from assms obtain env :: signedSecretEnvelope where "\<exists>signer accounts s. parse_key (h_policy h) (en_Signer env) = Some signer \<and>
    delegatedAccounts (h_policy h) t (fp (h_policy h) signer) now = Inr accounts \<and> sv_Account s \<in> set accounts \<and>
    openSignedBlob (h_policy h) signer ctxSecret (dec_secret h) (en_Secret env) = Inr s \<and>
    sv_SecretID s = secretID \<and> sv_Name s = name \<and> sv_Recipient s = me \<and> sv_Value s = val"
    unfolding openSecretValue_def t(1)
    by (auto simp: t(2) result_simps split: if_splits)
  then obtain signer accounts s where d: "delegatedAccounts (h_policy h) t (fp (h_policy h) signer) now = Inr accounts" "sv_Account s \<in> set accounts"
    and o: "openSignedBlob (h_policy h) signer ctxSecret (dec_secret h) (en_Secret env) = Inr s"
    "sv_SecretID s = secretID" "sv_Name s = name" "sv_Recipient s = me" "sv_Value s = val" by blast
  from d delegatedAccounts_Inr [of "h_policy h" t signer now "sv_Account s"] have "may_sign (h_policy h) t signer (sv_Account s) now" by blast
  with o t(1) show ?thesis unfolding signed_for_def by blast
qed

lemma newSecretTrust_Inr:
  "newSecretTrust env sp rootFP = Inr t \<longleftrightarrow> parse_key env (sp_RootKey sp) = Some (tr_root t) \<and> fp env (tr_root t) = rootFP \<and> tr_chain t = sp_Chain sp \<and>
     (case sp_Revocations sp of None \<Rightarrow> tr_revoked t = []
      | Some b \<Rightarrow> \<exists>r. openSignedBlob env (tr_root t) ctxRevocations (dec_revocations env) b = Inr r \<and> tr_revoked t = rv_Revoked r)"
  by (cases t) (auto simp: newSecretTrust_def result_simps split: option.split if_splits)

lemma acceptSecretValue_True:
  assumes "acceptSecretValue h plain secretID name me trust now True = Inr (val, b)"
  shows "openSecretValue h plain secretID name me trust now = Inr (Signed val)"
proof (cases "openSecretValue h plain secretID name me trust now")
  case (Inr v)
  with assms show ?thesis by (cases v) (auto simp: acceptSecretValue_def)
qed (use assms in \<open>auto simp: acceptSecretValue_def\<close>)

lemma open_served_Inr:
  assumes "open_served h key trust True s u = (Inr nv, v)"
  shows "u = v \<and> (\<exists>t. trust = Some t \<and> signed_for h t (w_now u) (machineKeyFP h (public_of key)) (se_SecretID s) (fst nv) (snd nv))"
proof -
  from assms obtain meta :: secretMeta and plain val b where r: "u = v" "nv = (me_Label meta, val)"
    "acceptSecretValue h plain (se_SecretID s) (me_Label meta) (machineKeyFP h (public_of key)) trust (w_now u) True = Inr (val, b)"
    by (auto simp: open_served_def bindS_Inr get_now_def split: prod.splits)
  from r(3) have "openSecretValue h plain (se_SecretID s) (me_Label meta) (machineKeyFP h (public_of key)) trust (w_now u) = Inr (Signed val)"
    by (rule acceptSecretValue_True)
  from openSecretValue_Signed [OF this] r(1,2) show ?thesis by simp
qed

lemma mapS_state:
  assumes "mapS f xs s = (Inr ys, t)" "\<And>x u y v. x \<in> set xs \<Longrightarrow> f x u = (Inr y, v) \<Longrightarrow> u = v \<and> P x y u"
  shows "t = s \<and> list_all2 (\<lambda>x y. P x y s) xs ys"
  using assms by (induction xs arbitrary: ys s) (auto simp: bindS_Inr, blast+)


section \<open>Re-sealing\<close>

definition requireLiveDelegation :: "('k, 's, 'n, 'x) owner_host_scheme \<Rightarrow> policyStatus \<Rightarrow> 'k signer \<Rightarrow> int \<Rightarrow> err + unit" where
  "requireLiveDelegation h st dev now =
     requireE (\<exists>d \<in> set (ps_Delegations st). sd_DeviceFP d = signer_fp h dev \<and> \<not> sd_Revoked d \<and> (sd_Expires d = 0 \<or> unixOf now < sd_Expires d))
       (Msg ''device has no live delegation'')"

text \<open>The first copy whose name and value open with the vault key.\<close>

fun first_open :: "('k, 's, 'n, 'x) seal_host_scheme \<Rightarrow> bytes \<Rightarrow> (string \<times> string) list \<Rightarrow> (string \<times> secretMeta) option" where
  "first_open h vaultKey [] = None"
| "first_open h vaultKey ((enc, meta) # cs) =
     (case openSecretName h meta vaultKey of
        Inl _ \<Rightarrow> first_open h vaultKey cs
      | Inr m \<Rightarrow> (case openSealedBox h enc vaultKey of Inl _ \<Rightarrow> first_open h vaultKey cs | Inr v \<Rightarrow> Some (v, m)))"

text \<open>A machine's copy: the signed envelope, and the name, sealed to the machine's key.\<close>

definition signed_copy ::
  "('k, 's, 'n, 'x) secret_host_scheme \<Rightarrow> 'k signer \<Rightarrow> string \<Rightarrow> int \<Rightarrow> string \<Rightarrow> string \<Rightarrow> secretMeta \<Rightarrow> string \<Rightarrow> string \<Rightarrow> ('n, sealedCopy) io" where
  "signed_copy h dev account now secretID val meta keyID pub =
     (case b64_decode pub of
        None \<Rightarrow> failS (Msg ''machine key is malformed'')
      | Some raw \<Rightarrow>
          if length raw \<noteq> 32 then failS (Msg ''machine key is malformed'')
          else bindS (sealSignedSecret h dev \<lparr>sv_Account = account, sv_SecretID = secretID, sv_Name = me_Label meta, sv_Value = val,
                 sv_Recipient = machineKeyFP h raw, sv_Issued = unixOf now\<rparr> pub) (\<lambda>enc.
               bindS (sealForKey h (enc_meta h meta) pub) (\<lambda>m. retS \<lparr>sc_KeyID = keyID, sc_Enc = enc, sc_Meta = m\<rparr>)))"

text \<open>The copies of one secret for the keys that lack one, each with whether it is signed: an own vault key gets a plain one.\<close>

definition reseal_key ::
  "('k, 's, 'n, 'x) secret_host_scheme \<Rightarrow> 'k signer \<Rightarrow> string list \<Rightarrow> string \<Rightarrow> int \<Rightarrow> string \<Rightarrow> string \<Rightarrow> secretMeta \<Rightarrow> string \<times> string
    \<Rightarrow> ('n, resealCopy \<times> bool) io" where
  "reseal_key h dev own account now secretID val meta r =
     (case r of (keyID, pub) \<Rightarrow>
        if keyID \<in> set own then bindS (sealSecretFor h val meta keyID pub) (\<lambda>c. retS (\<lparr>rc_SecretID = secretID, rc_Copy = c\<rparr>, False))
        else bindS (signed_copy h dev account now secretID val meta keyID pub) (\<lambda>c. retS (\<lparr>rc_SecretID = secretID, rc_Copy = c\<rparr>, True)))"

definition reseal_work ::
  "('k, 's, 'n, 'x) secret_host_scheme \<Rightarrow> bytes \<Rightarrow> 'k signer \<Rightarrow> string list \<Rightarrow> string \<Rightarrow> int \<Rightarrow> resealWork \<Rightarrow> ('n, (resealCopy \<times> bool) list) io" where
  "reseal_work h vaultKey dev own account now w =
     (case first_open h vaultKey (wk_Copies w) of
        None \<Rightarrow> retS []
      | Some (val, meta) \<Rightarrow>
          if prefix signedSecretPrefix val then failS (Msg ''your own copy holds a signed envelope, refusing to nest it'')
          else mapS (reseal_key h dev own account now (wk_SecretID w) val meta) (wk_Missing w))"

text \<open>The numbers of signed and of plain copies.\<close>

definition secretReseal :: "('k, 's, 'n, 'x) secret_host_scheme \<Rightarrow> 'n policyCall \<Rightarrow> bytes \<Rightarrow> 'k signer \<Rightarrow> int \<Rightarrow> ('n, nat \<times> nat) io" where
  "secretReseal h call vaultKey dev now =
     bindS (call_into call (read_status h) no_status ''getPolicyStatus'' Map.empty) (\<lambda>st.
     bindS (liftS (requireLiveDelegation h st dev now)) (\<lambda>_.
     bindS (call_into call (read_key_ids h) [] ''getMyVaultKeys'' Map.empty) (\<lambda>own.
     bindS (call_into call (read_work h) [] ''getResealWork'' [''resign'' \<mapsto> [''1'']]) (\<lambda>work.
     bindS (mapS (reseal_work h vaultKey dev own (ps_Account st) now) work) (\<lambda>outs.
     let out = concat outs
     in if out = [] then retS (0, 0)
        else bindS (call_only call ''saveResealed'' [''sealed_copies'' \<mapsto> [enc_copies h (map fst out)]]) (\<lambda>_.
             retS (length (filter snd out), length (filter (Not \<circ> snd) out))))))))"

definition cmdSecretReseal :: "('k, 's, 'n, 'x) secret_host_scheme \<Rightarrow> flags \<Rightarrow> ('n, unit) io" where
  "cmdSecretReseal h f =
     bindS (resolveIdentity h f) (\<lambda>(apiBase, keyPath).
     bindS (wrapS (Ctx ''--with'') (loadSigner h (firstNonEmpty [flag f ''with'', ''agent'']))) (\<lambda>dev.
     bindS (loadKey h keyPath) (\<lambda>key.
     bindS get_now (\<lambda>now.
     bindS (secretReseal h (user_call h apiBase keyPath) key dev now) (\<lambda>_. retS ())))))"

subsection \<open>Organization copies\<close>

definition open_bundle_secret :: "('k, 's, 'n, 'x) seal_host_scheme \<Rightarrow> bytes \<Rightarrow> served \<Rightarrow> err + (string \<times> string \<times> secretMeta)" where
  "open_bundle_secret h orgPriv s =
     bindE (wrapE (Ctx ''open name'') (openSecretName h (se_Meta s) orgPriv)) (\<lambda>m.
     bindE (wrapE (Ctx ''open value'') (openOrgSecret h (se_Enc s) orgPriv)) (\<lambda>v.
     bindE (requireE (\<not> prefix signedSecretPrefix v) (Msg ''the org copy holds a signed envelope, refusing to nest it'')) (\<lambda>_.
     Inr (se_SecretID s, v, m))))"

definition machine_copies ::
  "('k, 's, 'n, 'x) secret_host_scheme \<Rightarrow> 'k signer \<Rightarrow> string \<Rightarrow> int \<Rightarrow> (string \<times> string \<times> secretMeta) list \<Rightarrow> string \<times> string \<Rightarrow> ('n, resealCopy list) io" where
  "machine_copies h dev account now secrets k =
     (case k of (keyID, pub) \<Rightarrow>
        case b64_decode pub of
          None \<Rightarrow> failS (Msg ''key is malformed'')
        | Some raw \<Rightarrow>
            if length raw \<noteq> 32 then failS (Msg ''key is malformed'')
            else mapS (\<lambda>(secretID, val, meta). bindS (signed_copy h dev account now secretID val meta keyID pub) (\<lambda>c.
                   retS \<lparr>rc_SecretID = secretID, rc_Copy = c\<rparr>)) secrets)"

text \<open>What was signed, on which machines, and which machines were skipped: the same lists of ids the maps of the code hold.\<close>

record resealTally =
  ta_Signed :: nat
  ta_On :: "string list"
  ta_Skipped :: "string list"

definition reseal_machine ::
  "('k, 's, 'n, 'x) secret_host_scheme \<Rightarrow> 'n policyCall \<Rightarrow> 'k signer \<Rightarrow> string \<Rightarrow> int \<Rightarrow> string list \<Rightarrow> string \<Rightarrow> (string \<times> string \<times> secretMeta) list
    \<Rightarrow> resealTally \<Rightarrow> bundleMachine \<Rightarrow> ('n, resealTally) io" where
  "reseal_machine h call dev account now mine b secrets r m =
     (if bm_MachineID m \<notin> set mine then retS (r\<lparr>ta_Skipped := List.insert (bm_MachineID m) (ta_Skipped r)\<rparr>)
      else bindS (mapS (machine_copies h dev account now secrets) (bm_Keys m)) (\<lambda>outs.
           if concat outs = [] then retS r
           else bindS (wrapS (Ctx ''machine'') (call_only call ''saveSealedForMachine''
                  [''machine_id'' \<mapsto> [bm_MachineID m], ''bundle_id'' \<mapsto> [b], ''sealed_copies'' \<mapsto> [enc_copies h (concat outs)]])) (\<lambda>_.
                retS (r\<lparr>ta_Signed := ta_Signed r + length (concat outs), ta_On := List.insert (bm_MachineID m) (ta_On r)\<rparr>))))"

definition reseal_bundle ::
  "('k, 's, 'n, 'x) secret_host_scheme \<Rightarrow> 'n policyCall \<Rightarrow> bytes \<Rightarrow> 'k signer \<Rightarrow> string \<Rightarrow> int \<Rightarrow> string list \<Rightarrow> resealTally \<Rightarrow> string \<Rightarrow> ('n, resealTally) io" where
  "reseal_bundle h call orgPriv dev account now mine r b =
     bindS (call_into call (read_bundle_machines h) [] ''getBundleMachines'' [''bundle_id'' \<mapsto> [b]]) (\<lambda>ms.
     if ms = [] then retS r
     else bindS (call_into call (read_served h) [] ''getOrgBundleSecrets'' [''bundle_id'' \<mapsto> [b]]) (\<lambda>bs.
          bindS (liftS (mapE (open_bundle_secret h orgPriv) bs)) (\<lambda>secrets.
          if secrets = [] then retS r
          else foldS (reseal_machine h call dev account now mine b secrets) r ms)))"

definition orgSecretReseal ::
  "('k, 's, 'n, 'x) secret_host_scheme \<Rightarrow> 'n policyCall \<Rightarrow> bytes \<Rightarrow> 'k signer \<Rightarrow> int \<Rightarrow> ('n, resealTally) io" where
  "orgSecretReseal h call orgPriv dev now =
     bindS (call_into call (read_status h) no_status ''getPolicyStatus'' Map.empty) (\<lambda>st.
     bindS (liftS (requireLiveDelegation h st dev now)) (\<lambda>_.
     bindS (call_into call (read_org_rows h) [] ''listOrgSecrets'' Map.empty) (\<lambda>rows.
     foldS (reseal_bundle h call orgPriv dev (ps_Account st) now (map sm_MachineID (ps_Machines st))) \<lparr>ta_Signed = 0, ta_On = [], ta_Skipped = []\<rparr>
       (rev (remdups (rev (filter (\<lambda>b. b \<noteq> []) (map or_BundleID rows))))))))"

section \<open>What a device seals arrives\<close>

lemma openSecretValue_ok:
  assumes "dec_envelope h (enc_envelope h env) = Some (env, True)" "parse_key (h_policy h) (en_Signer env) = Some signer"
    and "may_sign (h_policy h) t signer (sv_Account s) now" "openSignedBlob (h_policy h) signer ctxSecret (dec_secret h) (en_Secret env) = Inr s"
  shows "openSecretValue h (signedSecretPrefix @ enc_envelope h env) (sv_SecretID s) (sv_Name s) (sv_Recipient s) (Some t) now = Inr (Signed (sv_Value s))"
proof -
  from assms(3) delegatedAccounts_Inr obtain accounts where
    "delegatedAccounts (h_policy h) t (fp (h_policy h) signer) now = Inr accounts" "sv_Account s \<in> set accounts" by metis
  with assms show ?thesis by (simp add: openSecretValue_def)
qed

lemma sealSignedSecret_opens:
  assumes "sealSignedSecret h dev s pub w = (Inr c, w')" "vault_pair h key pub" "honest_signer (h_policy h) dev"
    and "parse_key (h_policy h) (authorizedKey h dev) = Some (sg_pub dev)" "dec_secret h (enc_secret h s) = Some s"
    and "\<And>env. dec_envelope h (enc_envelope h env) = Some (env, True)" "may_sign (h_policy h) t (sg_pub dev) (sv_Account s) now"
  shows "\<exists>plain. openSealedBox h c key = Inr plain \<and> prefix signedSecretPrefix plain \<and>
    acceptSecretValue h plain (sv_SecretID s) (sv_Name s) (sv_Recipient s) (Some t) now req = Inr (sv_Value s, False)"
proof -
  from assms(1) obtain blob where b: "signBlob dev ctxSecret (enc_secret h) s = Some blob"
    "sealForKeyRaw h (bytes_of (signedSecretPrefix @ enc_envelope h \<lparr>en_Signer = authorizedKey h dev, en_Secret = blob\<rparr>)) pub w = (Inr c, w')"
    by (auto simp: sealSignedSecret_def bindS_Inr sign_io_Inr)
  note o = open_signBlob [where dec = "dec_secret h", OF assms(3) b(1) assms(5)]
  let ?plain = "signedSecretPrefix @ enc_envelope h \<lparr>en_Signer = authorizedKey h dev, en_Secret = blob\<rparr>"
  have "openSealedBox h c key = Inr ?plain" using vault.opens [OF assms(2) b(2)] by (simp add: openSealedBox_def)
  moreover have "acceptSecretValue h ?plain (sv_SecretID s) (sv_Name s) (sv_Recipient s) (Some t) now req = Inr (sv_Value s, False)"
    using openSecretValue_ok [OF assms(6) _ assms(7), of "\<lparr>en_Signer = authorizedKey h dev, en_Secret = blob\<rparr>"] assms(4) o
    by (simp add: acceptSecretValue_def)
  ultimately show ?thesis by auto
qed


section \<open>Stripped revocations\<close>

text \<open>A server can keep a revoked device's secrets alive: it leaves the root's revocation list out of the response. The trust that secrets are checked
  with is then built with no device revoked, even on a machine that has already accepted a revocation list; for the machine's policy the same
  response is refused.\<close>

lemma stripped_revocations_accepted:
  assumes "parse_key env (sp_RootKey sp) = Some root" "fp env root = rootFP" "0 < st_RevocationsVersion st"
  shows "(\<exists>t. newSecretTrust env (sp\<lparr>sp_Revocations := None\<rparr>) rootFP = Inr t \<and> tr_revoked t = []) \<and>
    (\<forall>m now p. verifyPolicyAny env (sp\<lparr>sp_Revocations := None\<rparr>) rootFP m st now \<noteq> Inr p)"
proof
  show "\<exists>t. newSecretTrust env (sp\<lparr>sp_Revocations := None\<rparr>) rootFP = Inr t \<and> tr_revoked t = []"
    using assms(1,2) by (simp add: newSecretTrust_def)
  show "\<forall>m now p. verifyPolicyAny env (sp\<lparr>sp_Revocations := None\<rparr>) rootFP m st now \<noteq> Inr p"
    using assms(3) accepted_in_force by (fastforce simp: revocations_in_force_def)
qed

lemma stripped_revocations_accepted_instance:
  "newSecretTrust sample_env ((sample_response False)\<lparr>sp_Revocations := None\<rparr>) ''SHA256:R''
     = Inr \<lparr>tr_root = ''R'', tr_chain = [sample_blob ''R'' ctxDelegation], tr_revoked = []\<rparr> \<and>
   verifyPolicyAny sample_env ((sample_response False)\<lparr>sp_Revocations := None\<rparr>) ''SHA256:R'' ''m1'' pinned_state sample_now \<noteq> Inr sample_policy"
proof -
  have "parse_key sample_env (sp_RootKey (sample_response False)) = Some ''R''" "fp sample_env ''R'' = ''SHA256:R''" "0 < st_RevocationsVersion pinned_state"
    by (simp_all add: sample_parts sample_response_def pinned_state_def)
  from stripped_revocations_accepted [OF this] show ?thesis
    by (auto simp: newSecretTrust_def sample_parts sample_response_def)
qed

section \<open>Exported lines\<close>

text \<open>A variable name that the shell reads as it stands.\<close>

definition plain_word :: "string \<Rightarrow> bool" where
  "plain_word w \<longleftrightarrow> list_all (\<lambda>c. c \<noteq> CHR 0x27 \<and> c \<noteq> CHR 0x5C \<and> \<not> sh_ends c \<and> \<not> sh_special c) w"

lemma sh_word_plain: "plain_word w \<Longrightarrow> sh_word False (w @ s) = map_option (apfst (\<lambda>v. w @ v)) (sh_word False s)"
proof (induction w)
  case Nil
  show ?case by (cases "sh_word False s") (simp_all add: apfst_def map_prod_def split: prod.split)
next
  case (Cons c w)
  then show ?case by (cases "sh_word False s") (auto simp: plain_word_def apfst_def map_prod_def split: prod.split)
qed

text \<open>\<open>p3sig secrets pull --export\<close> is safe for every value: a line it prints for a name of plain characters is the word \<open>export\<close>, a space,
  and then, to a shell, exactly the one word of the name, an equals sign and the value, whatever the value holds.\<close>

lemma exported_value_is_one_word:
  assumes "plain_word name" "flag f ''export'' = ''true''"
  shows "\<exists>rest. secret_line f (name, val) = ''export '' @ rest \<and> sh_word False rest = Some (name @ ''='' @ val, [nl])"
proof -
  have "plain_word (name @ ''='')" using assms(1) by (simp add: plain_word_def sh_ends_def sh_special_def)
  from sh_word_plain [OF this, of "shellQuote val @ [nl]"] sh_word_shellQuote [of nl val "[]"]
  have "sh_word False (name @ ''='' @ shellQuote val @ [nl]) = Some (name @ ''='' @ val, [nl])"
    by (simp add: sh_ends_def apfst_def map_prod_def)
  with assms(2) show ?thesis by (simp add: secret_line_def)
qed

lemma exported_value_is_one_word_instance:
  "\<exists>rest. secret_line [''export'' \<mapsto> ''true''] (''TOKEN'', ''a'' @ [CHR 0x27] @ ''; rm -rf /'') = ''export '' @ rest \<and>
     sh_word False rest = Some (''TOKEN='' @ ''a'' @ [CHR 0x27] @ ''; rm -rf /'', [nl])"
  using exported_value_is_one_word [of "''TOKEN''" "[''export'' \<mapsto> ''true'']" "''a'' @ [CHR 0x27] @ ''; rm -rf /''"]
  by (simp add: plain_word_def sh_ends_def sh_special_def flag_def)

section \<open>An instance\<close>

definition secret_code :: "signedSecret \<Rightarrow> bytes" where
  "secret_code s = replicate (to_nat (sv_Account s, sv_SecretID s, sv_Name s, sv_Value s, sv_Recipient s, sv_Issued s)) 0"

definition secret_decode :: "bytes \<Rightarrow> signedSecret option" where
  "secret_decode b = (case from_nat (length b) of (a, i, n, v, r, t) \<Rightarrow>
     Some \<lparr>sv_Account = a, sv_SecretID = i, sv_Name = n, sv_Value = v, sv_Recipient = r, sv_Issued = t\<rparr>)"

definition envelope_code :: "signedSecretEnvelope \<Rightarrow> string" where
  "envelope_code e = replicate (to_nat (en_Signer e, sb_Payload (en_Secret e), sb_Sig (en_Secret e))) CHR ''a''"

definition envelope_decode :: "string \<Rightarrow> (signedSecretEnvelope \<times> bool) option" where
  "envelope_decode b = (case from_nat (length b) of (k, p, g) \<Rightarrow> Some (\<lparr>en_Signer = k, en_Secret = \<lparr>sb_Payload = p, sb_Sig = g\<rparr>\<rparr>, True))"

lemma secret_codes: "secret_decode (secret_code s) = Some s" "envelope_decode (envelope_code e) = Some (e, True)"
  by (simp_all add: secret_decode_def secret_code_def envelope_decode_def envelope_code_def)

definition sample_secret :: signedSecret where
  "sample_secret = \<lparr>sv_Account = ''user:1'', sv_SecretID = ''id'', sv_Name = ''N'', sv_Value = ''v'',
     sv_Recipient = machineKeyFP sample_sealer (public_of example_key), sv_Issued = 0\<rparr>"

definition sample_envelope :: signedSecretEnvelope where
  "sample_envelope = \<lparr>en_Signer = ''D'', en_Secret = \<lparr>sb_Payload = b64_encode (secret_code sample_secret),
     sb_Sig = b64_encode (bytes_of ''D'' @ bytes_of ctxSecret @ secret_code sample_secret)\<rparr>\<rparr>"

definition sample_served :: served where
  "sample_served = \<lparr>se_SecretID = ''id'', se_Enc = b64_encode (public_of example_key @ bytes_of (signedSecretPrefix @ envelope_code sample_envelope)),
     se_Meta = b64_encode (public_of example_key @ bytes_of ''N'')\<rparr>"

definition sample_machine :: "(string, bytes, unit) secret_host" where
  "sample_machine = seal_host.extend sample_sealer
     \<lparr>enc_secret = secret_code, dec_secret = secret_decode, enc_envelope = envelope_code, dec_envelope = envelope_decode,
      enc_copies = (\<lambda>_. []), read_served = (\<lambda>_. Some [sample_served]), read_key_ids = (\<lambda>_. Some []), read_work = (\<lambda>_. Some []),
      read_org_rows = (\<lambda>_. Some []), read_bundle_machines = (\<lambda>_. Some [])\<rparr>"

lemma sample_machine_simps:
  "h_policy sample_machine = sample_env" "dec_secret sample_machine = secret_decode" "dec_envelope sample_machine = envelope_decode"
  "enc_secret sample_machine = secret_code" "enc_envelope sample_machine = envelope_code" "read_served sample_machine = (\<lambda>_. Some [sample_served])"
  "ed25519PubToX25519 sample_machine = Some" "box_seal_anon sample_machine eph m xp = xp @ m"
  "box_open_anon sample_machine c xp xk = (if take (length xp) c = xp then Some (drop (length xp) c) else None)"
  "enc_meta sample_machine = me_Label" "dec_meta sample_machine = (\<lambda>j. Some \<lparr>me_Label = j, me_Provider = []\<rparr>)"
  "ssh_of_ed25519 sample_machine = (\<lambda>b. Some (string_of b))" "ssh_line sample_machine = (\<lambda>k. k)" "dec_signed sample_machine = (\<lambda>_. Some (sample_response False))"
  "h_http sample_machine = (\<lambda>n u f. (Some (200, [CHR ''b'']), n))" "h_response sample_machine = (\<lambda>_. Some ([], [CHR ''r'']))"
  "h_public sample_machine s = map (\<lambda>x. x + 1) (take 32 (s @ replicate 32 0))"
  by (simp_all add: sample_machine_def seal_host.defs sample_sealer_def agent_host.defs sample_agent_laws)
    (simp_all add: sample_agent_def key_host.defs example_cli_def)

definition sample_trust :: "string secretTrust" where
  "sample_trust = \<lparr>tr_root = ''R'', tr_chain = [sample_blob ''R'' ctxDelegation], tr_revoked = [''SHA256:X'']\<rparr>"

lemma sample_may_sign: "may_sign sample_env sample_trust ''D'' ''user:1'' now"
  by (simp add: may_sign_def sample_trust_def sample_parts opens_def sample_open delegates_def) (simp add: sample_delegation_def)

lemma sample_pull_answer:
  "pullInto sample_machine dec z a act m k ex s = (case dec [CHR ''r''] of None \<Rightarrow> (Inl BadResults, s) | Some v \<Rightarrow> (Inr v, s))" for s :: "unit world"
  by (simp add: pullInto_def postForm_def post_once_def bindS_def get_now_def Let_def sample_machine_simps split: option.split)

lemma sample_opens:
  "openSecretName sample_machine (se_Meta sample_served) example_key = Inr \<lparr>me_Label = ''N'', me_Provider = []\<rparr>"
  "openSealedBox sample_machine (se_Enc sample_served) example_key = Inr (signedSecretPrefix @ envelope_code sample_envelope)"
proof -
  have ne: "b64_encode (public_of example_key @ bytes_of ''N'') \<noteq> []"
    by (simp add: example_key_def public_of_def bytes_of_def Let_def)
  show "openSecretName sample_machine (se_Meta sample_served) example_key = Inr \<lparr>me_Label = ''N'', me_Provider = []\<rparr>"
    using ne by (simp add: openSecretName_def openSealedBox_def openSealedBoxRaw_def sample_machine_simps sample_served_def del: b64_encode.simps)
  show "openSealedBox sample_machine (se_Enc sample_served) example_key = Inr (signedSecretPrefix @ envelope_code sample_envelope)"
    by (simp add: openSealedBox_def openSealedBoxRaw_def sample_machine_simps sample_served_def del: b64_encode.simps bytes_of_append)
qed

lemma sample_value:
  "openSecretValue sample_machine (signedSecretPrefix @ envelope_code sample_envelope) ''id'' ''N'' (machineKeyFP sample_machine (public_of example_key))
     (Some sample_trust) now = Inr (Signed ''v'')"
proof -
  have o: "openSignedBlob sample_env ''D'' ctxSecret secret_decode (en_Secret sample_envelope) = Inr sample_secret"
    by (simp add: openSignedBlob_def sample_envelope_def sample_env_def secret_codes del: b64_encode.simps)
  have me: "sv_Recipient sample_secret = machineKeyFP sample_machine (public_of example_key)"
    by (simp add: sample_secret_def machineKeyFP_def sample_machine_simps sample_sealer_simps)
  show ?thesis
    using openSecretValue_ok [of sample_machine sample_envelope "''D''" sample_trust sample_secret now] o sample_may_sign me
    by (simp add: sample_machine_simps secret_codes sample_parts) (simp add: sample_secret_def sample_envelope_def)
qed

lemma sample_fetch:
  "fetchSecrets sample_machine ''u'' ''m1'' example_key [] ''SHA256:R'' True example_world = (Inr [(''N'', ''v'')], example_world)"
proof -
  have t: "newSecretTrust sample_env (sample_response False) ''SHA256:R'' = Inr sample_trust"
    by (simp add: newSecretTrust_def sample_trust_def sample_response_def sample_parts sample_open) (simp add: sample_env_def)
  have k: "sp_RootKey (sample_response False) \<noteq> []" by (simp add: sample_response_def)
  have "open_served sample_machine example_key (Some sample_trust) True sample_served example_world = (Inr (''N'', ''v''), example_world)"
    using sample_opens sample_value [of "w_now example_world"]
    by (simp add: open_served_def bindS_def get_now_def acceptSecretValue_def sample_served_def [THEN arg_cong, of se_SecretID])
  with t k show ?thesis
    by (simp add: fetchSecrets_def loadSecretTrust_def bindS_def wrapS_def sample_pull_answer sample_machine_simps)
qed


lemma sample_machine_boxes: "sealed_boxes_open sample_machine"
  by (simp add: sealed_boxes_open_def sample_machine_simps)


end
