(* ===== verification/OrgCli.thy ===== *)
theory OrgCli
  imports Secret
begin

text \<open>
  The commands of the account's vault and of organizations (\<open>org_cli.go\<close>, the \<open>secret\<close> commands of \<open>cli.go\<close>): storing and reading secrets, creating an
  organization, granting access, listing, rotating. Shown: what is stored opens, with every recipient's key, to what was typed; the organization
  key reaches every key it is wrapped to; rotating sends everything or nothing.
\<close>

section \<open>The code\<close>

record orgKeyRef =
  kr_KeyID :: string
  kr_Pub :: string

record orgMember =
  om_UserID :: string
  om_HasWrap :: bool
  om_Keys :: "orgKeyRef list"

record orgSecretName =
  on_SecretID :: string
  on_Bundle :: string
  on_Meta :: secretMeta

text \<open>
  The decoders of the answers (\<open>read_ack\<close>: one whose fields are only printed), the encoders of what is uploaded, and whether standard input is a terminal.
\<close>

record ('k, 's, 'n) org_host = "('k, 's, 'n) secret_host" +
  stdin_tty :: bool
  read_keys :: "string \<Rightarrow> orgKeyRef list option"
  read_members :: "string \<Rightarrow> orgMember list option"
  read_wraps :: "string \<Rightarrow> string list option"
  read_ack :: "string \<Rightarrow> unit option"
  read_user_id :: "string \<Rightarrow> string option"
  read_copy :: "string \<Rightarrow> (string \<times> string) option"
  read_copies :: "string \<Rightarrow> (string \<times> string) list option"
  enc_sealed_copies :: "sealedCopy list \<Rightarrow> string"
  enc_sealed :: "sealedSecret list \<Rightarrow> string"
  enc_wraps :: "memberWrap list \<Rightarrow> string"

abbreviation any_result :: "string \<Rightarrow> unit option" where
  "any_result \<equiv> \<lambda>_. Some ()"

definition readSecretValue :: "('k, 's, 'n, 'x) org_host_scheme \<Rightarrow> ('n, string) io" where
  "readSecretValue h = bindS (if stdin_tty h then read_line else read_all) (\<lambda>data. retS (trim_right data [cr, nl]))"

text \<open>One sealed copy for each recipient key.\<close>

definition seal_to_keys :: "('k, 's, 'n, 'x) seal_host_scheme \<Rightarrow> string \<Rightarrow> secretMeta \<Rightarrow> orgKeyRef list \<Rightarrow> ('n, sealedCopy list) io" where
  "seal_to_keys h val meta keys = mapS (\<lambda>k. wrapS (Ctx ''seal to key'') (sealSecretFor h val meta (kr_KeyID k) (kr_Pub k))) keys"

definition cmdSecretSet :: "('k, 's, 'n, 'x) org_host_scheme \<Rightarrow> flags \<Rightarrow> string \<Rightarrow> ('n, unit) io" where
  "cmdSecretSet h f name =
     (if name = [] then failS (Msg ''usage: p3sig secret set NAME'')
      else bindS (resolveIdentity h f) (\<lambda>(apiBase, keyPath).
           bindS (userRequest h (read_keys h) [] apiBase ''getMyVaultKeys'' keyPath Map.empty) (\<lambda>keys.
           if keys = [] then failS (Msg ''no vault keys on this account to seal to'')
           else bindS (readSecretValue h) (\<lambda>val.
                bindS (seal_to_keys h val \<lparr>me_Label = name, me_Provider = flag f ''provider''\<rparr> keys) (\<lambda>copies.
                let extra = [''type'' \<mapsto> [firstNonEmpty [flag f ''type'', ''developer'']]];
                    extra = (if flag f ''bundle'' \<noteq> [] then extra(''bundle_id'' \<mapsto> [flag f ''bundle'']) else extra)
                in userRequest h (read_ack h) () apiBase ''saveSecretSealed'' keyPath (extra(''sealed_copies'' \<mapsto> [enc_sealed_copies h copies])))))))"

text \<open>The first secret whose name opens with the key and is the one asked for.\<close>

fun find_secret :: "('k, 's, 'n, 'x) seal_host_scheme \<Rightarrow> bytes \<Rightarrow> string \<Rightarrow> (string \<times> string) list \<Rightarrow> err + string" where
  "find_secret h key name [] = Inl (Msg ''no secret of that name on this account'')"
| "find_secret h key name ((enc, meta) # ss) =
     (case openSecretName h meta key of
        Inr m \<Rightarrow> if me_Label m = name then wrapE (Ctx ''unseal'') (openSealedBox h enc key) else find_secret h key name ss
      | Inl _ \<Rightarrow> find_secret h key name ss)"

definition cmdSecretGetUser :: "('k, 's, 'n, 'x) org_host_scheme \<Rightarrow> flags \<Rightarrow> string \<Rightarrow> ('n, unit) io" where
  "cmdSecretGetUser h f name =
     (if name = [] then failS (Msg ''usage: p3sig secret get NAME'')
      else bindS (resolveIdentity h f) (\<lambda>(apiBase, keyPath).
           bindS (userRequest h (read_copies h) [] apiBase ''getMySecrets'' keyPath Map.empty) (\<lambda>secrets.
           bindS (loadKey h keyPath) (\<lambda>key.
           bindS (liftS (find_secret h key name secrets)) println))))"

subsection \<open>Organizations\<close>

definition findMyKeyID :: "('k, 's, 'n, 'x) org_host_scheme \<Rightarrow> string \<Rightarrow> string \<Rightarrow> string \<Rightarrow> ('n, string) io" where
  "findMyKeyID h apiBase keyPath pubB64 =
     bindS (userRequest h (read_keys h) [] apiBase ''getMyVaultKeys'' keyPath Map.empty) (\<lambda>keys.
     case find (\<lambda>k. kr_Pub k = pubB64) keys of
       Some k \<Rightarrow> retS (kr_KeyID k)
     | None \<Rightarrow> failS (Msg ''this vault key is not registered on the account''))"

text \<open>One wrap stored for each key but the skipped one; the count.\<close>

definition wrap_to_key :: "('k, 's, 'n, 'x) org_host_scheme \<Rightarrow> string \<Rightarrow> string \<Rightarrow> bytes \<Rightarrow> string \<Rightarrow> string \<Rightarrow> nat \<Rightarrow> orgKeyRef \<Rightarrow> ('n, nat) io" where
  "wrap_to_key h apiBase keyPath orgPriv memberID skipKeyID n k =
     (if kr_KeyID k = skipKeyID then retS n
      else bindS (wrapOrgKeyFor h orgPriv (kr_Pub k)) (\<lambda>wrapped.
           bindS (userRequest h any_result () apiBase ''wrapOrgKeyForMember'' keyPath
             [''member_user_id'' \<mapsto> [memberID], ''member_key_id'' \<mapsto> [kr_KeyID k], ''wrapped_org_key'' \<mapsto> [wrapped]]) (\<lambda>_. retS (n + 1))))"

definition wrapToAllKeys ::
  "('k, 's, 'n, 'x) org_host_scheme \<Rightarrow> string \<Rightarrow> string \<Rightarrow> bytes \<Rightarrow> string \<Rightarrow> string \<Rightarrow> form \<Rightarrow> string \<Rightarrow> ('n, nat) io" where
  "wrapToAllKeys h apiBase keyPath orgPriv memberID lookup lookupArgs skipKeyID =
     bindS (userRequest h (read_keys h) [] apiBase lookup keyPath lookupArgs) (\<lambda>keys.
     foldS (wrap_to_key h apiBase keyPath orgPriv memberID skipKeyID) 0 keys)"

fun first_wrap :: "('k, 's, 'n, 'x) seal_host_scheme \<Rightarrow> bytes \<Rightarrow> string list \<Rightarrow> bytes option" where
  "first_wrap h personalPriv [] = None"
| "first_wrap h personalPriv (w # ws) = (case unwrapOrgKey h w personalPriv of Inr k \<Rightarrow> Some k | Inl _ \<Rightarrow> first_wrap h personalPriv ws)"

definition myOrgKey :: "('k, 's, 'n, 'x) org_host_scheme \<Rightarrow> string \<Rightarrow> string \<Rightarrow> bytes \<Rightarrow> ('n, bytes) io" where
  "myOrgKey h apiBase keyPath personalPriv =
     bindS (userRequest h (read_wraps h) [] apiBase ''getOrgKeyWrap'' keyPath Map.empty) (\<lambda>wraps.
     if wraps = [] then failS (Msg ''you have no vault access yet'')
     else case first_wrap h personalPriv wraps of
         Some k \<Rightarrow> retS k
       | None \<Rightarrow> failS (Msg ''none of your org key wraps opens with this vault key''))"

definition fetchOrgSecrets :: "('k, 's, 'n, 'x) org_host_scheme \<Rightarrow> string \<Rightarrow> string \<Rightarrow> ('n, orgSecretRow list) io" where
  "fetchOrgSecrets h apiBase keyPath = userRequest h (read_org_rows h) [] apiBase ''listOrgSecrets'' keyPath Map.empty"

definition open_row :: "('k, 's, 'n, 'x) seal_host_scheme \<Rightarrow> bytes \<Rightarrow> orgSecretRow \<Rightarrow> err + orgSecretName" where
  "open_row h orgPriv r =
     bindE (wrapE (Ctx ''open the name of org secret'') (openSecretName h (or_Meta r) orgPriv)) (\<lambda>m.
     Inr \<lparr>on_SecretID = or_SecretID r, on_Bundle = or_Bundle r, on_Meta = m\<rparr>)"

definition orgSecretNames :: "('k, 's, 'n, 'x) org_host_scheme \<Rightarrow> string \<Rightarrow> string \<Rightarrow> bytes \<Rightarrow> ('n, orgSecretName list) io" where
  "orgSecretNames h apiBase keyPath orgPriv =
     bindS (fetchOrgSecrets h apiBase keyPath) (\<lambda>rows.
     bindS (liftS (mapE (open_row h orgPriv) rows)) (\<lambda>out. retS (sort_key (\<lambda>n. me_Label (on_Meta n)) out)))"

text \<open>The identity, its key and the organization key: how the organization commands start.\<close>

definition with_org_key ::
  "('k, 's, 'n, 'x) org_host_scheme \<Rightarrow> flags \<Rightarrow> (string \<Rightarrow> string \<Rightarrow> bytes \<Rightarrow> ('n, 'a) io) \<Rightarrow> ('n, 'a) io" where
  "with_org_key h f body =
     bindS (resolveIdentity h f) (\<lambda>(apiBase, keyPath).
     bindS (loadKey h keyPath) (\<lambda>key.
     bindS (myOrgKey h apiBase keyPath key) (\<lambda>orgPriv. body apiBase keyPath orgPriv)))"

definition cmdOrgCreate :: "('k, 's, 'n, 'x) org_host_scheme \<Rightarrow> flags \<Rightarrow> ('n, unit) io" where
  "cmdOrgCreate h f =
     (if flag f ''name'' = [] then failS (Msg ''usage: p3sig org create --name NAME'')
      else bindS (resolveIdentity h f) (\<lambda>(apiBase, keyPath).
           bindS (loadKey h keyPath) (\<lambda>key.
           let ownerPub = b64_encode (public_of key)
           in bindS (findMyKeyID h apiBase keyPath ownerPub) (\<lambda>ownerKeyID.
              bindS (createOrgVault h ownerPub) (\<lambda>(orgPub, wrappedForOwner, orgPriv).
              bindS (userRequest h (read_ack h) () apiBase ''createOrg'' keyPath
                [''name'' \<mapsto> [flag f ''name''], ''org_public_key'' \<mapsto> [orgPub], ''wrapped_org_key'' \<mapsto> [wrappedForOwner], ''owner_key_id'' \<mapsto> [ownerKeyID]]) (\<lambda>_.
              bindS (wrapS (Ctx ''org created, but wrapping it to your other keys failed'') (userRequest h (read_user_id h) [] apiBase ''whoami'' keyPath Map.empty)) (\<lambda>who.
              bindS (wrapS (Ctx ''org created, but wrapping it to your other keys failed'')
                (wrapToAllKeys h apiBase keyPath orgPriv who ''getMyVaultKeys'' Map.empty ownerKeyID)) (\<lambda>_. retS ()))))))))"

definition cmdOrgAddMember :: "('k, 's, 'n, 'x) org_host_scheme \<Rightarrow> flags \<Rightarrow> ('n, unit) io" where
  "cmdOrgAddMember h f =
     (if flag f ''email'' = [] then failS (Msg ''usage: p3sig org add --email a@b.com [--admin]'')
      else bindS (resolveIdentity h f) (\<lambda>(apiBase, keyPath).
           userRequest h (read_ack h) () apiBase ''addMember'' keyPath
             [''email'' \<mapsto> [flag f ''email''], ''role'' \<mapsto> [if flag f ''admin'' = ''true'' then ''admin'' else ''member'']]))"

definition cmdOrgGrant :: "('k, 's, 'n, 'x) org_host_scheme \<Rightarrow> flags \<Rightarrow> ('n, unit) io" where
  "cmdOrgGrant h f =
     (let memberID = firstNonEmpty [flag f ''user'', flag f ''member'']
      in if memberID = [] then failS (Msg ''usage: p3sig org grant --user MEMBER_USER_ID'')
         else with_org_key h f (\<lambda>apiBase keyPath orgPriv.
           bindS (wrapToAllKeys h apiBase keyPath orgPriv memberID ''getMemberKeys'' [''member_user_id'' \<mapsto> [memberID]] []) (\<lambda>n.
           if n = 0 then failS (Msg ''member has no active personal key to wrap the org key to'') else retS ())))"

definition cmdOrgSecretSet :: "('k, 's, 'n, 'x) org_host_scheme \<Rightarrow> flags \<Rightarrow> string \<Rightarrow> ('n, unit) io" where
  "cmdOrgSecretSet h f name =
     (if name = [] then failS (Msg ''usage: p3sig org secret set NAME'')
      else bindS (resolveIdentity h f) (\<lambda>(apiBase, keyPath).
           bindS (userRequest h (read_keys h) [] apiBase ''getOrgRecipients'' keyPath Map.empty) (\<lambda>keys.
           if keys = [] then failS (Msg ''the org vault has no recipient key set up'')
           else bindS (readSecretValue h) (\<lambda>val.
                bindS (seal_to_keys h val \<lparr>me_Label = name, me_Provider = flag f ''provider''\<rparr> keys) (\<lambda>copies.
                let extra = (if flag f ''bundle'' \<noteq> [] then [''bundle_id'' \<mapsto> [flag f ''bundle'']] else Map.empty)
                in userRequest h (read_ack h) () apiBase ''saveSealedSecret'' keyPath (extra(''sealed_copies'' \<mapsto> [enc_sealed_copies h copies])))))))"

definition cmdOrgSecretGet :: "('k, 's, 'n, 'x) org_host_scheme \<Rightarrow> flags \<Rightarrow> string \<Rightarrow> ('n, unit) io" where
  "cmdOrgSecretGet h f name =
     (if name = [] then failS (Msg ''usage: p3sig org secret get NAME'')
      else with_org_key h f (\<lambda>apiBase keyPath orgPriv.
        bindS (orgSecretNames h apiBase keyPath orgPriv) (\<lambda>named.
        let secretID = (case find (\<lambda>n. me_Label (on_Meta n) = name) named of Some n \<Rightarrow> on_SecretID n | None \<Rightarrow> [])
        in if secretID = [] then failS (Msg ''no org secret of that name'')
           else bindS (userRequest h (read_copy h) ([], []) apiBase ''getSealedSecret'' keyPath [''secret_id'' \<mapsto> [secretID]]) (\<lambda>(enc, _).
                bindS (liftS (wrapE (Ctx ''open'') (openOrgSecret h enc orgPriv))) println))))"

definition cmdOrgSecretList :: "('k, 's, 'n, 'x) org_host_scheme \<Rightarrow> flags \<Rightarrow> ('n, unit) io" where
  "cmdOrgSecretList h f =
     with_org_key h f (\<lambda>apiBase keyPath orgPriv.
     bindS (orgSecretNames h apiBase keyPath orgPriv) (\<lambda>named.
     print_text (concat (map (\<lambda>n. me_Label (on_Meta n) @
       (if on_Bundle n \<noteq> [] then [CHR 0x09] @ ''('' @ on_Bundle n @ '')'' else []) @ [nl]) named))))"

text \<open>The copy of one secret under the current key; and the keys of the members that have access.\<close>

definition fetch_copy :: "('k, 's, 'n, 'x) org_host_scheme \<Rightarrow> string \<Rightarrow> string \<Rightarrow> orgSecretRow \<Rightarrow> ('n, orgSecretCopy) io" where
  "fetch_copy h apiBase keyPath s =
     bindS (wrapS (Ctx ''fetch secret (nothing was rotated)'')
       (userRequest h (read_copy h) ([], []) apiBase ''getSealedSecret'' keyPath [''secret_id'' \<mapsto> [or_SecretID s]])) (\<lambda>(enc, meta).
     retS \<lparr>oc_SecretID = or_SecretID s, oc_Enc = enc, oc_Meta = meta\<rparr>)"

definition current_members :: "orgMember list \<Rightarrow> orgMemberKey list" where
  "current_members ms =
     concat (map (\<lambda>m. if om_HasWrap m then map (\<lambda>k. \<lparr>mk_UserID = om_UserID m, mk_KeyID = kr_KeyID k, mk_Pub = kr_Pub k\<rparr>) (om_Keys m) else []) ms)"

definition cmdOrgRotate :: "('k, 's, 'n, 'x) org_host_scheme \<Rightarrow> flags \<Rightarrow> ('n, unit) io" where
  "cmdOrgRotate h f =
     with_org_key h f (\<lambda>apiBase keyPath orgPriv.
     bindS (fetchOrgSecrets h apiBase keyPath) (\<lambda>rows.
     bindS (mapS (fetch_copy h apiBase keyPath) rows) (\<lambda>copies.
     bindS (userRequest h (read_members h) [] apiBase ''listOrgMembers'' keyPath Map.empty) (\<lambda>ms.
     bindS (rotateOrgVault h orgPriv (current_members ms) copies) (\<lambda>rot.
     userRequest h any_result () apiBase ''rotateOrgVault'' keyPath
       [''new_org_public_key'' \<mapsto> [rr_NewOrgPub rot], ''sealed'' \<mapsto> [enc_sealed h (rr_Sealed rot)], ''wraps'' \<mapsto> [enc_wraps h (rr_Wraps rot)]])))))"

definition cmdOrgSecretReseal :: "('k, 's, 'n, 'x) org_host_scheme \<Rightarrow> flags \<Rightarrow> ('n, unit) io" where
  "cmdOrgSecretReseal h f =
     bindS (resolveIdentity h f) (\<lambda>(apiBase, keyPath).
     bindS (wrapS (Ctx ''--with'') (loadSigner h (firstNonEmpty [flag f ''with'', ''agent'']))) (\<lambda>dev.
     bindS (loadKey h keyPath) (\<lambda>key.
     bindS (myOrgKey h apiBase keyPath key) (\<lambda>orgPriv.
     bindS get_now (\<lambda>now.
     bindS (orgSecretReseal h (user_call h apiBase keyPath) orgPriv dev now) (\<lambda>_. retS ()))))))"

section \<open>What is stored opens\<close>

lemma sealSecretFor_opens:
  assumes "sealSecretFor h val meta keyID pub s = (Inr c, t)" "vault_pair h key pub" "dec_meta h (enc_meta h meta) = Some meta"
  shows "sc_KeyID c = keyID \<and> openSealedBox h (sc_Enc c) key = Inr val \<and> (sc_Meta c \<noteq> [] \<longrightarrow> openSecretName h (sc_Meta c) key = Inr meta)"
proof -
  from assms(1) obtain u where "sealForKey h val pub s = (Inr (sc_Enc c), u)" "sealForKey h (enc_meta h meta) pub u = (Inr (sc_Meta c), t)" "sc_KeyID c = keyID"
    by (auto simp: sealSecretFor_def bindS_Inr)
  with seal_text_opens [OF assms(2)] assms(3) show ?thesis by (auto simp: openSecretName_def)
qed

text \<open>A secret stored for a key is what \<open>secret get\<close> finds, whatever else the account holds before it under other names.\<close>

lemma find_secret_first:
  assumes "find_secret h key name (ss @ (enc, meta) # rest) = Inr v" "openSecretName h meta key = Inr m" "me_Label m = name"
    and "\<forall>(e, n) \<in> set ss. \<forall>m. openSecretName h n key = Inr m \<longrightarrow> me_Label m \<noteq> name"
  shows "openSealedBox h enc key = Inr v"
  using assms(1,4)
proof (induction ss)
  case Nil
  with assms(2,3) show ?case by simp
next
  case (Cons x ss)
  then show ?case by (cases x) (auto split: sum.splits)
qed

text \<open>A stored secret reaches every key: the copies that \<open>secret set\<close> and \<open>org secret set\<close> upload are one for each recipient key, under that key's id, and
  whoever holds a recipient key opens its copy to the value that was typed and its sealed name to the name and provider given.\<close>

lemma stored_secret_opens:
  assumes "seal_to_keys h val meta keys s = (Inr copies, t)" "dec_meta h (enc_meta h meta) = Some meta"
  shows "list_all2 (\<lambda>k c. \<forall>key. vault_pair h key (kr_Pub k) \<longrightarrow> sc_KeyID c = kr_KeyID k \<and> openSealedBox h (sc_Enc c) key = Inr val \<and>
      (sc_Meta c \<noteq> [] \<longrightarrow> openSecretName h (sc_Meta c) key = Inr meta)) keys copies"
proof (rule mapS_all2 [OF assms(1) [unfolded seal_to_keys_def]])
  fix k c u v assume "wrapS (Ctx ''seal to key'') (sealSecretFor h val meta (kr_KeyID k) (kr_Pub k)) u = (Inr c, v)"
  then have s: "sealSecretFor h val meta (kr_KeyID k) (kr_Pub k) u = (Inr c, v)" by simp
  show "\<forall>key. vault_pair h key (kr_Pub k) \<longrightarrow> sc_KeyID c = kr_KeyID k \<and> openSealedBox h (sc_Enc c) key = Inr val \<and>
      (sc_Meta c \<noteq> [] \<longrightarrow> openSecretName h (sc_Meta c) key = Inr meta)"
    by (intro allI impI sealSecretFor_opens [OF s _ assms(2)])
qed

lemma stored_secret_opens_instance:
  "\<exists>copies t. seal_to_keys sample_sealer ''v'' \<lparr>me_Label = ''N'', me_Provider = []\<rparr>
       [\<lparr>kr_KeyID = ''k'', kr_Pub = b64_encode (public_of (replicate 32 0 @ replicate 32 1))\<rparr>] example_world = (Inr copies, t) \<and>
     (\<exists>c. copies = [c] \<and> openSealedBox sample_sealer (sc_Enc c) (replicate 32 0 @ replicate 32 1) = Inr ''v'')"
proof -
  let ?key = "replicate 32 0 @ replicate 32 1 :: bytes" and ?m = "\<lparr>me_Label = ''N'', me_Provider = []\<rparr>"
  have p: "public_of ?key = replicate 32 1" by (simp add: public_of_def)
  obtain copies t where c: "seal_to_keys sample_sealer ''v'' ?m [\<lparr>kr_KeyID = ''k'', kr_Pub = b64_encode (public_of ?key)\<rparr>] example_world = (Inr copies, t)"
    by (simp add: seal_to_keys_def sealSecretFor_def sealForKeyRaw_def sealForKey_def sample_sealer_simps bindS_def mustRandom_def trim_b64 p wrapS_def
        del: b64_encode.simps)
  have "vault_pair sample_sealer ?key (b64_encode (public_of ?key))"
    by (simp add: vault_pair_def sample_sealer_laws p trim_b64 del: b64_encode.simps)
      (simp add: sample_sealer_simps, rule exI [of _ "replicate 32 0"], simp)
  with stored_secret_opens [OF c] c show ?thesis
    by (auto simp: sample_sealer_simps list_all2_Cons1)
qed

end
