(* ===== verification/Register.thy ===== *)
theory Register
  imports OrgCli
begin

text \<open>
  Putting a stick's key on the account (\<open>usbvault.go\<close>: \<open>usbRegister\<close>, \<open>addVaultKey\<close>, \<open>p3sig usb register\<close>). Shown: when the
  new key was added without error, there is for every secret the server said it lacks an uploaded copy of what the old key opens, and the
  server has no such secret left. The copies are sealed to the public key the server names next to the new key's id, which is not compared
  with the key being added.
\<close>

section \<open>The code\<close>

text \<open>\<open>read_key_id\<close> decodes the id the server gave the new key.\<close>

record ('k, 's, 'n) register_host = "('k, 's, 'n) org_host" +
  read_key_id :: "string \<Rightarrow> string option"

definition add_message :: "string \<Rightarrow> int \<Rightarrow> string" where
  "add_message newPub now = ''p3sig-add-key|'' @ newPub @ ''|'' @ format_int (unixOf now)"

definition key_call :: "('k, 's, 'n, 'x) host_scheme \<Rightarrow> string \<Rightarrow> bytes \<Rightarrow> 'n policyCall" where
  "key_call h apiBase key action extra = userRequestKey h Some [] apiBase action key extra"

text \<open>The copies of one secret for the new key.\<close>

definition new_copies :: "('k, 's, 'n, 'x) register_host_scheme \<Rightarrow> bytes \<Rightarrow> string \<Rightarrow> resealWork \<Rightarrow> ('n, resealCopy list) io" where
  "new_copies h old keyID w =
     mapS (\<lambda>(k, pub). case first_open h old (wk_Copies w) of
         None \<Rightarrow> failS (Msg ''none of its copies opens with the signing key'')
       | Some (v, m) \<Rightarrow> bindS (sealSecretFor h v m k pub) (\<lambda>c. retS \<lparr>rc_SecretID = wk_SecretID w, rc_Copy = c\<rparr>))
       (filter (\<lambda>r. fst r = keyID) (wk_Missing w))"

definition get_work :: "('k, 's, 'n, 'x) register_host_scheme \<Rightarrow> 'n policyCall \<Rightarrow> ('n, resealWork list) io" where
  "get_work h call = call_into call (read_work h) [] ''getResealWork'' Map.empty"

text \<open>The request that adds a key: the old key signs for the new one.\<close>

definition add_form :: "('k, 's, 'n, 'x) host_scheme \<Rightarrow> bytes \<Rightarrow> bytes \<Rightarrow> string \<Rightarrow> int \<Rightarrow> form" where
  "add_form h old newKey label now =
     (let newPub = b64_encode (public_of newKey)
      in [''new_public_key'' \<mapsto> [newPub], ''label'' \<mapsto> [label], ''add_ts'' \<mapsto> [format_int (unixOf now)],
          ''add_sig'' \<mapsto> [b64_encode (h_sign h old (bytes_of (add_message newPub now)))]])"

definition addVaultKey ::
  "('k, 's, 'n, 'x) register_host_scheme \<Rightarrow> 'n policyCall \<Rightarrow> bytes \<Rightarrow> bytes \<Rightarrow> string \<Rightarrow> int \<Rightarrow> ('n, nat) io" where
  "addVaultKey h call old newKey label now =
     bindS (call_into call (read_key_id h) [] ''addMyVaultKey'' (add_form h old newKey label now)) (\<lambda>keyID.
         bindS (get_work h call) (\<lambda>ws.
         bindS (mapS (new_copies h old keyID) ws) (\<lambda>cs.
         let out = concat cs
         in bindS (if out \<noteq> [] then call_only call ''saveResealed'' [''sealed_copies'' \<mapsto> [enc_copies h out]] else retS ()) (\<lambda>_.
            bindS (get_work h call) (\<lambda>left.
            if \<exists>w \<in> set left. \<exists>r \<in> set (wk_Missing w). fst r = keyID then failS (Msg ''check failed: a secret still has no copy for the new key'')
            else retS (length out))))))"

text \<open>The key that vouches for the new one: \<open>--register-with\<close>, otherwise the saved login identity.\<close>

definition existing_key :: "('k, 's, 'n, 'x) register_host_scheme \<Rightarrow> flags \<Rightarrow> ('n, string) io" where
  "existing_key h f =
     (let given = flag f ''register-with''
      in if given = [] \<or> given = ''true''
         then bindS (tryS (resolveIdentity h [''url'' \<mapsto> flag f ''url''])) (\<lambda>r. retS (case r of Inr (_, kp) \<Rightarrow> kp | Inl _ \<Rightarrow> given))
         else retS given)"

definition publish_root :: "('k, 's, 'n, 'x) register_host_scheme \<Rightarrow> 'n policyCall \<Rightarrow> bytes \<Rightarrow> ('n, unit) io" where
  "publish_root h call key =
     bindS (call_into call (read_status h) no_status ''getPolicyStatus'' Map.empty) (\<lambda>st.
     bindS (liftS (optE (Msg ''not a signing key'') (ed_signer h key))) (\<lambda>signer.
     if ps_RootFP st = [] then bindS (policySetRoot h call signer) (\<lambda>_. retS ()) else retS ()))"

definition usbRegister :: "('k, 's, 'n, 'x) register_host_scheme \<Rightarrow> flags \<Rightarrow> bytes \<Rightarrow> ('n, unit) io" where
  "usbRegister h f key =
     (let apiBase = firstNonEmpty [flag f ''url'', getenv h ''P3SIG_URL'', defaultAPI]; call = key_call h apiBase key
      in bindS (tryS (call_only call ''whoami'' Map.empty)) (\<lambda>r. case r of
           Inr _ \<Rightarrow> publish_root h call key
         | Inl _ \<Rightarrow>
             bindS (existing_key h f) (\<lambda>existing.
             if existing = [] then retS ()
             else bindS (wrapS (Ctx ''--register-with'') (loadKey h existing)) (\<lambda>old.
                  bindS get_now (\<lambda>now.
                  bindS (addVaultKey h (key_call h apiBase old) old key (firstNonEmpty [flag f ''label'', ''Vault USB'']) now) (\<lambda>_.
                  publish_root h call key))))))"

text \<open>\<open>p3sig usb\<close>, with the registration.\<close>

definition cmdUSB :: "('k, 's, 'n, 'x) register_host_scheme \<Rightarrow> string \<Rightarrow> flags \<Rightarrow> ('n, unit) io" where
  "cmdUSB h sub f =
     (if sub = ''init'' then usbInit h (usbRegister h f) f
      else if sub = ''register'' then bindS (usbKey h (''usb:'' @ flag f ''drive'')) (usbRegister h f)
      else if sub = ''clone'' then usbClone h f
      else failS (Msg ''usage: p3sig usb init | clone | register''))"

section \<open>What the new key can open\<close>

lemma first_open_sound:
  "first_open h key cs = Some (v, m) \<Longrightarrow> \<exists>(enc, meta) \<in> set cs. openSealedBox h enc key = Inr v \<and> openSecretName h meta key = Inr m"
proof (induction h key cs rule: first_open.induct)
  case (2 h key enc meta cs)
  then show ?case by (auto split: sum.splits)
qed simp

lemma list_all2_mem: "list_all2 P xs ys \<Longrightarrow> x \<in> set xs \<Longrightarrow> \<exists>y \<in> set ys. P x y"
  by (induction rule: list_all2_induct) auto

lemma new_copies_Inr:
  assumes "new_copies h old keyID w s = (Inr cs, t)" and names_stable: "\<And>j m. dec_meta h j = Some m \<Longrightarrow> dec_meta h (enc_meta h m) = Some m" and mem: "(keyID, pub) \<in> set (wk_Missing w)"
  shows "\<exists>v m c. first_open h old (wk_Copies w) = Some (v, m) \<and> \<lparr>rc_SecretID = wk_SecretID w, rc_Copy = c\<rparr> \<in> set cs \<and> sc_KeyID c = keyID \<and>
    (\<forall>key. vault_pair h key pub \<longrightarrow> openSealedBox h (sc_Enc c) key = Inr v \<and> (sc_Meta c \<noteq> [] \<longrightarrow> openSecretName h (sc_Meta c) key = Inr m))"
proof -
  have "list_all2 (\<lambda>(k, p) rc. \<exists>v m c. first_open h old (wk_Copies w) = Some (v, m) \<and> rc = \<lparr>rc_SecretID = wk_SecretID w, rc_Copy = c\<rparr> \<and> sc_KeyID c = k \<and>
      (\<forall>key. vault_pair h key p \<longrightarrow> openSealedBox h (sc_Enc c) key = Inr v \<and> (sc_Meta c \<noteq> [] \<longrightarrow> openSecretName h (sc_Meta c) key = Inr m)))
      (filter (\<lambda>r. fst r = keyID) (wk_Missing w)) cs"
  proof (rule mapS_all2 [OF assms(1) [unfolded new_copies_def]], clarify)
    fix k p rc u u' assume "(case first_open h old (wk_Copies w) of None \<Rightarrow> failS (Msg ''none of its copies opens with the signing key'')
       | Some (v, m) \<Rightarrow> bindS (sealSecretFor h v m k p) (\<lambda>c. retS \<lparr>rc_SecretID = wk_SecretID w, rc_Copy = c\<rparr>)) u = (Inr rc, u')"
    then obtain v m c where c: "first_open h old (wk_Copies w) = Some (v, m)" "sealSecretFor h v m k p u = (Inr c, u')"
      "rc = \<lparr>rc_SecretID = wk_SecretID w, rc_Copy = c\<rparr>"
      by (auto simp: bindS_Inr split: option.splits)
    moreover have "sc_KeyID c = k" using c(2) by (auto simp: sealSecretFor_def bindS_Inr)
    moreover have "dec_meta h (enc_meta h m) = Some m"
      using first_open_sound [OF c(1)] names_stable by (fastforce simp: openSecretName_def bindE_Inr split: if_splits)
    ultimately show "\<exists>v m c. first_open h old (wk_Copies w) = Some (v, m) \<and> rc = \<lparr>rc_SecretID = wk_SecretID w, rc_Copy = c\<rparr> \<and> sc_KeyID c = k \<and>
      (\<forall>key. vault_pair h key p \<longrightarrow> openSealedBox h (sc_Enc c) key = Inr v \<and> (sc_Meta c \<noteq> [] \<longrightarrow> openSecretName h (sc_Meta c) key = Inr m))"
      using sealSecretFor_opens [OF c(2)] by blast
  qed
  from list_all2_mem [OF this, of "(keyID, pub)"] mem show ?thesis by auto
qed

text \<open>C16. When a new vault key was added without error, the new key got everything: for every secret the server listed as lacking a copy for it there
  is, in the one upload, a copy under the new key's id of the name and value that the old key opens, which whoever holds the key that the server
  named opens to exactly these; as many copies were made as the command reports; and the server then listed no secret without a copy for the new key.\<close>

theorem added_key_opens:
  assumes "addVaultKey h call old newKey label now s = (Inr n, t)" and names_stable: "\<And>j m. dec_meta h j = Some m \<Longrightarrow> dec_meta h (enc_meta h m) = Some m"
  shows "\<exists>keyID ws out left u u' v v'. call_into call (read_key_id h) [] ''addMyVaultKey'' (add_form h old newKey label now) s = (Inr keyID, u) \<and>
    get_work h call u = (Inr ws, u') \<and> n = length out \<and>
    (out \<noteq> [] \<longrightarrow> (\<exists>r. call ''saveResealed'' [''sealed_copies'' \<mapsto> [enc_copies h out]] v = (Inr r, v'))) \<and>
    (\<forall>w \<in> set ws. \<forall>pub. (keyID, pub) \<in> set (wk_Missing w) \<longrightarrow>
       (\<exists>enc meta val m c. (enc, meta) \<in> set (wk_Copies w) \<and> openSealedBox h enc old = Inr val \<and> openSecretName h meta old = Inr m \<and>
          \<lparr>rc_SecretID = wk_SecretID w, rc_Copy = c\<rparr> \<in> set out \<and> sc_KeyID c = keyID \<and>
          (\<forall>key. vault_pair h key pub \<longrightarrow> openSealedBox h (sc_Enc c) key = Inr val \<and>
             (sc_Meta c \<noteq> [] \<longrightarrow> openSecretName h (sc_Meta c) key = Inr m)))) \<and>
    get_work h call v' = (Inr left, t) \<and> (\<forall>w \<in> set left. keyID \<notin> fst ` set (wk_Missing w))"
proof -
  from assms(1) obtain keyID u ws u' cs v v' left where a: "get_work h call u = (Inr ws, u')"
    "mapS (new_copies h old keyID) ws u' = (Inr cs, v)" "concat cs \<noteq> [] \<longrightarrow> call_only call ''saveResealed''
       [''sealed_copies'' \<mapsto> [enc_copies h (concat cs)]] v = (Inr (), v')" "get_work h call v' = (Inr left, t)"
    "\<forall>w \<in> set left. \<forall>r \<in> set (wk_Missing w). fst r \<noteq> keyID" "n = length (concat cs)"
    "call_into call (read_key_id h) [] ''addMyVaultKey'' (add_form h old newKey label now) s = (Inr keyID, u)"
    unfolding addVaultKey_def Let_def by (simp only: bindS_Inr) (force split: if_splits simp: failS_apply retS_apply)
  have each: "list_all2 (\<lambda>w c. \<forall>pub. (keyID, pub) \<in> set (wk_Missing w) \<longrightarrow>
      (\<exists>val m k. first_open h old (wk_Copies w) = Some (val, m) \<and> \<lparr>rc_SecretID = wk_SecretID w, rc_Copy = k\<rparr> \<in> set c \<and> sc_KeyID k = keyID \<and>
        (\<forall>key. vault_pair h key pub \<longrightarrow> openSealedBox h (sc_Enc k) key = Inr val \<and>
           (sc_Meta k \<noteq> [] \<longrightarrow> openSecretName h (sc_Meta k) key = Inr m)))) ws cs"
    by (rule mapS_all2 [OF a(2)], intro allI impI, rule new_copies_Inr, assumption, rule names_stable, assumption+)
  have got: "\<exists>enc meta val m k. (enc, meta) \<in> set (wk_Copies w) \<and> openSealedBox h enc old = Inr val \<and> openSecretName h meta old = Inr m \<and>
      \<lparr>rc_SecretID = wk_SecretID w, rc_Copy = k\<rparr> \<in> set (concat cs) \<and> sc_KeyID k = keyID \<and>
      (\<forall>key. vault_pair h key pub \<longrightarrow> openSealedBox h (sc_Enc k) key = Inr val \<and>
         (sc_Meta k \<noteq> [] \<longrightarrow> openSecretName h (sc_Meta k) key = Inr m))" if "w \<in> set ws" "(keyID, pub) \<in> set (wk_Missing w)" for w pub
  proof -
    from list_all2_mem [OF each that(1)] that(2) obtain c val m k where k: "c \<in> set cs" "first_open h old (wk_Copies w) = Some (val, m)"
      "\<lparr>rc_SecretID = wk_SecretID w, rc_Copy = k\<rparr> \<in> set c" "sc_KeyID k = keyID"
      "\<forall>key. vault_pair h key pub \<longrightarrow> openSealedBox h (sc_Enc k) key = Inr val \<and> (sc_Meta k \<noteq> [] \<longrightarrow> openSecretName h (sc_Meta k) key = Inr m)"
      by blast
    from first_open_sound [OF k(2)] k(1,3-5) show ?thesis by fastforce
  qed
  have sent: "concat cs \<noteq> [] \<longrightarrow> (\<exists>r. call ''saveResealed'' [''sealed_copies'' \<mapsto> [enc_copies h (concat cs)]] v = (Inr r, v'))"
    using a(3) by (auto simp: call_only_def bindS_Inr split: if_splits)
  from a(5) have "\<forall>w \<in> set left. keyID \<notin> fst ` set (wk_Missing w)" by auto
  with a(1,4,6,7) sent got show ?thesis by blast
qed

subsection \<open>An instance\<close>

text \<open>A server that wants one secret copied, until it was.\<close>

definition sample_new :: bytes where "sample_new = replicate 32 0 @ replicate 32 1"

definition sample_work :: resealWork where
  "sample_work = \<lparr>wk_SecretID = ''s'', wk_Missing = [(''k'', b64_encode (public_of sample_new))],
     wk_Copies = [(b64_encode (replicate 32 2 @ [65]), b64_encode (replicate 32 2 @ [66]))]\<rparr>"

definition sample_register :: "(string, bytes, unit) register_host" where
  "sample_register = secret_host.extend (sample_machine\<lparr>read_work := (\<lambda>r. Some (if r = ''w'' then [sample_work] else []))\<rparr>)
     \<lparr>stdin_tty = False, read_keys = (\<lambda>_. None), read_members = (\<lambda>_. None), read_wraps = (\<lambda>_. None), read_ack = (\<lambda>_. None),
      read_user_id = (\<lambda>_. None), read_copy = (\<lambda>_. None), read_copies = (\<lambda>_. None), enc_sealed_copies = (\<lambda>_. []),
      enc_sealed = (\<lambda>_. []), enc_wraps = (\<lambda>_. []), read_key_id = Some\<rparr>"

definition sample_account :: "unit policyCall" where
  "sample_account action extra =
     (if action = ''addMyVaultKey'' then retS ''k''
      else if action = ''getResealWork'' then (\<lambda>s. (Inr (if w_out s = [] then ''w'' else ''n''), s))
      else bindS (print_text ''x'') (\<lambda>_. retS []))"

lemma sample_register_simps:
  "read_work sample_register r = Some (if r = ''w'' then [sample_work] else [])" "read_key_id sample_register = Some"
  "enc_meta sample_register = me_Label" "dec_meta sample_register = (\<lambda>j. Some \<lparr>me_Label = j, me_Provider = []\<rparr>)"
  "ed25519PubToX25519 sample_register = Some" "box_seal_anon sample_register eph m xp = xp @ m"
  "box_open_anon sample_register c xp xk = (if take (length xp) c = xp then Some (drop (length xp) c) else None)"
  by (simp_all add: sample_register_def secret_host.defs sample_machine_simps)

theorem added_key_opens_witness:
  "\<exists>t. addVaultKey sample_register sample_account example_key sample_new ''USB'' 1000 example_world = (Inr 1, t)"
proof -
  have p: "public_of example_key = replicate 32 2" "public_of sample_new = replicate 32 1"
    by (simp_all add: public_of_def example_key_def sample_new_def)
  obtain t where t: "addVaultKey sample_register sample_account example_key sample_new ''USB'' 1000 example_world = (Inr 1, t)"
    by (simp add: addVaultKey_def Let_def call_into_def sample_account_def bindS_def sample_register_simps get_work_def new_copies_def sample_work_def
        openSecretName_def openSealedBox_def openSealedBoxRaw_def p sealSecretFor_def sealForKey_def sealForKeyRaw_def trim_b64 mustRandom_def
        call_only_def print_text_def example_world_def del: b64_encode.simps)
  from added_key_opens [OF t] sample_register_simps(3,4) have "\<exists>out :: resealCopy list. 1 = length out" by auto
  with t show ?thesis by blast
qed

end
