(* ===== verification/Refresh.thy ===== *)
theory Refresh
  imports Owner
begin

text \<open>
  The account-wide policy and the freshness key (\<open>account_policy_cli.go\<close>), and the command \<open>p3sig policy\<close> (\<open>policy_cli.go\<close>). The refresher is
  the timestamp role: it vouches for a policy it verified, against the pinned root and its own floor. Shown: it vouches for nothing else,
  its floor and its times only go up, and agents accept the statement it makes.
\<close>

section \<open>Dates\<close>

text \<open>The proleptic Gregorian date of a day counted from the first of January of year 1, as \<open>time.Format\<close> has it.\<close>

definition civil :: "int \<Rightarrow> int \<times> int \<times> int" where
  "civil day =
     (let z = day + 306; era = z div 146097; doe = z mod 146097;
          yoe = (doe - doe div 1460 + doe div 36524 - doe div 146096) div 365;
          doy = doe - (365 * yoe + yoe div 4 - yoe div 100);
          mp = (5 * doy + 2) div 153;
          d = doy - (153 * mp + 2) div 5 + 1;
          m = (if mp < 10 then mp + 3 else mp - 9)
      in (yoe + era * 400 + (if m \<le> 2 then 1 else 0), m, d))"

definition pad2 :: "int \<Rightarrow> string" where
  "pad2 n = (if n < 10 then ''0'' else []) @ format_int n"

definition year4 :: "int \<Rightarrow> string" where
  "year4 y = (let s = show_nat (nat \<bar>y\<bar>) in (if y < 0 then ''-'' else []) @ replicate (4 - length s) CHR ''0'' @ s)"

definition format_date :: "int \<Rightarrow> string" where
  "format_date t = (case civil (t div (24 * 60 * minute)) of (y, m, d) \<Rightarrow> year4 y @ ''-'' @ pad2 m @ ''-'' @ pad2 d)"

definition format_minute :: "int \<Rightarrow> string" where
  "format_minute t = format_date t @ '' '' @ pad2 (t div (60 * minute) mod 24) @ '':'' @ pad2 (t div minute mod 60)"

lemma format_minute_samples:
  "format_minute (timeUnix 951827640) = ''2000-02-29 12:34''" "format_date 0 = ''0001-01-01''"
  by code_simp+

section \<open>The code\<close>

definition freshnessAuthCtx :: string where "freshnessAuthCtx = ''p3sig-freshness-auth-v1'' @ [nl]"
definition defaultFreshnessWindow :: int where "defaultFreshnessWindow = 36 * (60 * minute)"

record refreshState =
  rf_Version :: int
  rf_RevocationsVersion :: int
  rf_Issued :: int

definition no_refresh :: refreshState where
  "no_refresh = \<lparr>rf_Version = 0, rf_RevocationsVersion = 0, rf_Issued = 0\<rparr>"

text \<open>The answer of \<open>freshnessGetCurrent\<close>.\<close>

record current =
  cu_Signed :: signedPolicy
  cu_PolicyHash :: string
  cu_WindowHours :: int

definition no_current :: current where
  "no_current = \<lparr>cu_Signed = no_signed, cu_PolicyHash = [], cu_WindowHours = 0\<rparr>"

text \<open>\<open>machine_order\<close> is the order in which Go visits the machines of an account policy; \<open>dec_refresh\<close> and \<open>enc_refresh\<close> are the JSON of the state.\<close>

record ('k, 's, 'n) refresh_host = "('k, 's, 'n) owner_host" +
  machine_order :: "account_policy \<Rightarrow> string list"
  read_current :: "string \<Rightarrow> current option"
  dec_refresh :: "string \<Rightarrow> refreshState option"
  enc_refresh :: "refreshState \<Rightarrow> string"

definition signAccountPolicy :: "('k, 's, 'n, 'x) owner_host_scheme \<Rightarrow> 'k signer \<Rightarrow> account_policy \<Rightarrow> ('n, signedBlob) io" where
  "signAccountPolicy h device p = sign_io device ctxAccountPolicy (enc_account_policy h) p"

definition signFreshnessDelegation :: "('k, 's, 'n, 'x) owner_host_scheme \<Rightarrow> 'k signer \<Rightarrow> freshness_delegation \<Rightarrow> ('n, signedBlob) io" where
  "signFreshnessDelegation h root d = sign_io root ctxFreshnessDelegation (enc_freshness_delegation h) d"

definition signFreshness :: "('k, 's, 'n, 'x) owner_host_scheme \<Rightarrow> 'k signer \<Rightarrow> freshness \<Rightarrow> ('n, signedBlob) io" where
  "signFreshness h key f = sign_io key ctxFreshness (enc_freshness h) f"

definition policySignAccount ::
  "('k, 's, 'n, 'x) refresh_host_scheme \<Rightarrow> 'n policyCall \<Rightarrow> 'k signer \<Rightarrow> string \<Rightarrow> int \<Rightarrow> (account_policy \<Rightarrow> ('n, bool) io) \<Rightarrow> ('n, int) io" where
  "policySignAccount h call dev grp hours review =
     bindS (call_into call (read_account_draft h) [] ''getAccountPolicyDraft'' [''group'' \<mapsto> [grp], ''expires_hours'' \<mapsto> [format_int hours]]) (\<lambda>draft.
     bindS (liftS (optE (Msg ''draft account policy'') (dec_account_policy (h_policy h) (bytes_of draft)))) (\<lambda>p.
     if ap_Group p \<noteq> grp then failS (Msg ''draft is for another group'')
     else if machine_order h p = [] then failS (Msg ''draft lists no machines'')
     else if \<not> list_all (\<lambda>mid. case ap_Machines p mid of None \<Rightarrow> True
         | Some m \<Rightarrow> list_all (\<lambda>k. parse_key (h_policy h) k \<noteq> None) (m_CAKeys m)) (machine_order h p)
       then failS (Msg ''draft CA key is not an OpenSSH public key'')
     else bindS (review p) (\<lambda>yes.
          if \<not> yes then retS 0
          else bindS (signAccountPolicy h dev p) (\<lambda>b.
               bindS (call_only call ''accountPolicyPut'' ((blob_form b ''account_policy'')(''signer'' \<mapsto> [authorizedKey h dev]))) (\<lambda>_.
               retS (ap_Version p))))))"

definition policyFreshnessDelegate ::
  "('k, 's, 'n, 'x) owner_host_scheme \<Rightarrow> 'n policyCall \<Rightarrow> 'k signer \<Rightarrow> string \<Rightarrow> string \<Rightarrow> int \<Rightarrow> int \<Rightarrow> ('n, string) io" where
  "policyFreshnessDelegate h call root keyLine label expires now =
     bindS (rootStatus h call root) (\<lambda>st.
     bindS (liftS (optE (Msg ''freshness key'') (parse_key (h_policy h) keyLine))) (\<lambda>k.
     bindS (signFreshnessDelegation h root \<lparr>fd_Account = ps_Account st, fd_Key = ssh_line h k, fd_Label = label,
         fd_Issued = unixOf now, fd_Expires = expires\<rparr>) (\<lambda>b.
     bindS (call_only call ''accountPolicyPut'' (blob_form b ''freshness_delegation'')) (\<lambda>_. retS (fp (h_policy h) k)))))"

text \<open>The window asked for, cut down to the account's; 0 asks for the account's, or for 36 hours when that is out of range.\<close>

definition choose_window :: "int \<Rightarrow> int \<Rightarrow> int" where
  "choose_window window hours =
     (let acct = i64 (hours * (60 * minute))
      in if acct > 0 \<and> acct \<le> maxFreshnessWindow \<and> (window = 0 \<or> window > acct) then acct
         else if window = 0 then defaultFreshnessWindow else window)"

text \<open>What is verified before vouching: the root, the revoked keys, the signer's delegation, the policy, its account, group and version, its hash.\<close>

definition refresh_check ::
  "('k, 's) policy_env \<Rightarrow> current \<Rightarrow> string \<Rightarrow> string \<Rightarrow> string \<Rightarrow> string \<Rightarrow> refreshState \<Rightarrow> int \<Rightarrow> err + ('k \<times> account_policy \<times> string)" where
  "refresh_check env cur fpr account grp rootFP st now =
     (let sp = cu_Signed cur
      in case account_blob sp of None \<Rightarrow> Inl (Msg ''server returned no account policy'')
      | Some apBlob \<Rightarrow>
        bindE (wrapE EPolicy (verifyRootAndRevocations env sp rootFP (no_state\<lparr>st_RevocationsVersion := rf_RevocationsVersion st\<rparr>))) (\<lambda>(root, revoked).
        bindE (requireE (fpr \<notin> set revoked) (Msg ''this freshness key has been revoked by the root'')) (\<lambda>_.
        bindE (optE (Msg ''signer key'') (parse_key env (sp_Signer sp))) (\<lambda>signer.
        bindE (requireE (fp env signer \<notin> set revoked) (Msg ''policy signed by revoked device'')) (\<lambda>_.
        bindE (wrapE EPolicy (liveDelegations env root (sp_Chain sp) (fp env signer) now)) (\<lambda>accounts.
        bindE (wrapE (\<lambda>e. Ctx ''account policy'' (EBlob e)) (openSignedBlob env signer ctxAccountPolicy (dec_account_policy env) apBlob)) (\<lambda>ap.
        bindE (requireE (ap_Account ap = account \<and> ap_Account ap \<in> set accounts \<and> ap_Group ap = grp) (Msg ''policy is for another account'')) (\<lambda>_.
        bindE (requireE (\<not> ap_Version ap < rf_Version st) (Msg ''server offers an older version'')) (\<lambda>_.
        bindE (wrapE EPolicy (accountPolicyHash env apBlob)) (\<lambda>hash.
        bindE (requireE (\<not> (cu_PolicyHash cur \<noteq> [] \<and> cu_PolicyHash cur \<noteq> hash)) (Msg ''server hash differs'')) (\<lambda>_.
        Inr (root, ap, hash))))))))))))"

text \<open>The floor after the statement was accepted.\<close>

definition next_refresh :: "('k, 's) policy_env \<Rightarrow> current \<Rightarrow> 'k \<Rightarrow> account_policy \<Rightarrow> int \<Rightarrow> refreshState \<Rightarrow> refreshState" where
  "next_refresh env cur root ap issued st =
     (let st' = st\<lparr>rf_Version := ap_Version ap, rf_Issued := issued\<rparr>
      in case sp_Revocations (cu_Signed cur) of None \<Rightarrow> st'
      | Some b \<Rightarrow> (case openSignedBlob env root ctxRevocations (dec_revocations env) b of
            Inr r \<Rightarrow> if rv_Version r > rf_RevocationsVersion st then st'\<lparr>rf_RevocationsVersion := rv_Version r\<rparr> else st'
          | Inl _ \<Rightarrow> st'))"

definition refresh_message :: "string \<Rightarrow> int \<Rightarrow> string" where
  "refresh_message fpr now = freshnessAuthCtx @ ''freshnessGetCurrent|'' @ fpr @ ''|'' @ format_int (unixOf now)"

definition freshness_statement :: "string \<Rightarrow> string \<Rightarrow> account_policy \<Rightarrow> string \<Rightarrow> int \<Rightarrow> refreshState \<Rightarrow> int \<Rightarrow> freshness" where
  "freshness_statement account grp ap hash window st now =
     \<lparr>fr_Account = account, fr_Group = grp, fr_PolicyHash = hash, fr_Version = ap_Version ap,
      fr_Issued = (if unixOf now \<le> rf_Issued st then i64 (rf_Issued st + 1) else unixOf now), fr_Expires = unixOf (now + window)\<rparr>"

text \<open>\<open>post\<close> sends a form and gives the raw results.\<close>

definition freshnessRefresh ::
  "('k, 's, 'n, 'x) refresh_host_scheme \<Rightarrow> (form \<Rightarrow> ('n, string) io) \<Rightarrow> 'k signer \<Rightarrow> string \<Rightarrow> string \<Rightarrow> string \<Rightarrow> int \<Rightarrow> refreshState \<Rightarrow> int
    \<Rightarrow> ('n, int \<times> refreshState) io" where
  "freshnessRefresh h post key account grp rootFP window st now =
     (if window < 0 \<or> window > maxFreshnessWindow then failS (Msg ''--window must be between 1m and the maximum'')
      else
     bindS (liftS (optE (Msg ''freshness key did not sign'') (sg_sign key (bytes_of (refresh_message (signer_fp h key) now))))) (\<lambda>asig.
     bindS (call_into (\<lambda>_. post) (read_current h) no_current [] [''action'' \<mapsto> [''freshnessGetCurrent''], ''account'' \<mapsto> [account], ''group'' \<mapsto> [grp],
         ''key'' \<mapsto> [authorizedKey h key], ''ts'' \<mapsto> [format_int (unixOf now)], ''auth_sig'' \<mapsto> [b64_encode asig]]) (\<lambda>cur.
     bindS (liftS (refresh_check (h_policy h) cur (signer_fp h key) account grp rootFP st now)) (\<lambda>(root, ap, hash).
     let f = freshness_statement account grp ap hash (choose_window window (cu_WindowHours cur)) st now
     in bindS (signFreshness h key f) (\<lambda>b.
        bindS (post [''action'' \<mapsto> [''freshnessPut''], ''payload'' \<mapsto> [sb_Payload b], ''sig'' \<mapsto> [sb_Sig b], ''signer'' \<mapsto> [authorizedKey h key]]) (\<lambda>_.
        retS (fr_Expires f, next_refresh (h_policy h) cur root ap (fr_Issued f) st)))))))"

text \<open>A flag that is empty is taken from the environment.\<close>

definition refresh_flags :: "('k, 's, 'n, 'x) host_scheme \<Rightarrow> flags \<Rightarrow> flags" where
  "refresh_flags h f n =
     (case map_of [(''freshness-key'', ''P3SIG_FRESHNESS_KEY''), (''account'', ''P3SIG_ACCOUNT''), (''root'', ''P3SIG_ROOT''), (''group'', ''P3SIG_GROUP''),
         (''window'', ''P3SIG_WINDOW''), (''state'', ''P3SIG_FRESHNESS_STATE'')] n of
        None \<Rightarrow> f n
      | Some env \<Rightarrow> if flag f n = [] then Some (getenv h env) else f n)"

definition refresh_path :: "('k, 's, 'n, 'x) host_scheme \<Rightarrow> flags \<Rightarrow> string" where
  "refresh_path h f =
     (let dir = (case h_config_dir h of None \<Rightarrow> [] | Some d \<Rightarrow> d);
          account = map (\<lambda>c. if c = CHR '':'' then CHR ''_'' else c) (flag f ''account'')
      in firstNonEmpty [flag f ''state'',
           path_join [dir, ''p3sig'', ''freshness-'' @ account @ ''-'' @ firstNonEmpty [flag f ''group'', ''_''] @ ''.json'']])"

text \<open>A state file that cannot be read is no state.\<close>

definition load_refresh :: "('k, 's, 'n, 'x) refresh_host_scheme \<Rightarrow> string \<Rightarrow> ('n, refreshState) io" where
  "load_refresh h path =
     bindS (tryS (readFile path)) (\<lambda>r. case r of Inl _ \<Rightarrow> retS no_refresh | Inr data \<Rightarrow> liftS (optE (Msg ''bad state'') (dec_refresh h data)))"

definition cmdPolicyRefresh :: "('k, 's, 'n, 'x) refresh_host_scheme \<Rightarrow> flags \<Rightarrow> ('n, unit) io" where
  "cmdPolicyRefresh h f0 =
     (let f = refresh_flags h f0
      in if flag f ''account'' = [] \<or> flag f ''root'' = [] \<or> flag f ''freshness-key'' = [] then failS (Msg ''usage: p3sig policy refresh'')
      else bindS (wrapS (Ctx ''--freshness-key'') (loadSigner h (flag f ''freshness-key''))) (\<lambda>key.
           bindS (if flag f ''window'' = [] then retS 0 else liftS (optE (Msg ''--window'') (parse_duration h (flag f ''window'')))) (\<lambda>window.
           bindS (identity_both h f) (\<lambda>(apiBase, _).
           bindS (load_refresh h (refresh_path h f)) (\<lambda>st.
           bindS get_now (\<lambda>now.
           bindS (freshnessRefresh h (postForm h Some [] apiBase) key (flag f ''account'') (flag f ''group'') (flag f ''root'') window st now) (\<lambda>(_, st').
           bindS (mkdirAll (path_dir (refresh_path h f))) (\<lambda>_.
           writeFile (refresh_path h f) (enc_refresh h st') mode600))))))))"

definition cmdPolicySignAccount :: "('k, 's, 'n, 'x) refresh_host_scheme \<Rightarrow> 'n policyCall \<Rightarrow> 'k signer \<Rightarrow> flags \<Rightarrow> ('n, unit) io" where
  "cmdPolicySignAccount h call dev f =
     (let hs = firstNonEmpty [flag f ''expires-hours'', flag f ''krl-hours'']
      in bindS (if hs = [] then retS 72
           else case parse_int64 hs of
             Some n \<Rightarrow> if n < 1 \<or> n > 720 then failS (Msg ''--expires-hours must be 1..720'') else retS n
           | None \<Rightarrow> failS (Msg ''--expires-hours must be 1..720'')) (\<lambda>hours.
         bindS (policySignAccount h call dev (flag f ''group'') hours (\<lambda>_. if flag f ''yes'' = ''true'' then retS True else confirm)) (\<lambda>_.
         retS ())))"

section \<open>\<open>p3sig policy\<close>\<close>

definition policy_root_cmd :: "('k, 's, 'n, 'x) refresh_host_scheme \<Rightarrow> 'n policyCall \<Rightarrow> string \<Rightarrow> flags \<Rightarrow> 'k signer \<Rightarrow> ('n, unit) io" where
  "policy_root_cmd h call sub f root =
     (if sub = ''root'' then bindS (policySetRoot h call root) (\<lambda>_. retS ())
      else if sub = ''freshness-delegate'' then
        bindS (wrapS (Ctx ''--freshness-key'') (deviceKeyLine h (firstNonEmpty [flag f ''freshness-key'', flag f ''device'']))) (\<lambda>k.
        bindS get_now (\<lambda>now.
        bindS (liftS (parseExpiry h (firstNonEmpty [flag f ''expires'', ''365d'']) now)) (\<lambda>exp.
        bindS (policyFreshnessDelegate h call root k (firstNonEmpty [flag f ''label'', ''freshness'']) exp now) (\<lambda>_. retS ()))))
      else if sub = ''delegate'' then
        bindS (deviceKeyLine h (flag f ''device'')) (\<lambda>dev.
        bindS get_now (\<lambda>now.
        bindS (liftS (parseExpiry h (flag f ''expires'') now)) (\<lambda>exp.
        bindS (policyDelegate h call root dev (flag f ''label'') exp now) (\<lambda>_. retS ()))))
      else
        bindS (deviceFingerprint h (flag f ''device'')) (\<lambda>fpr.
        bindS (policyRevoke h call root fpr) (\<lambda>_. retS ())))"

definition policy_sign_cmd :: "('k, 's, 'n, 'x) refresh_host_scheme \<Rightarrow> 'n policyCall \<Rightarrow> flags \<Rightarrow> ('n, unit) io" where
  "policy_sign_cmd h call f =
     bindS (wrapS (Ctx ''--with'') (loadSigner h (firstNonEmpty [flag f ''with'', ''agent'']))) (\<lambda>dev.
     bindS (if flag f ''krl-hours'' = [] then retS 72
        else case parse_int64 (flag f ''krl-hours'') of
          Some n \<Rightarrow> if n < 1 then failS (Msg ''--krl-hours must be a positive number of hours'') else retS n
        | None \<Rightarrow> failS (Msg ''--krl-hours must be a positive number of hours'')) (\<lambda>hours.
     if flag f ''all'' = ''true'' then
       bindS (call_into call (read_status h) no_status ''getPolicyStatus'' Map.empty) (\<lambda>st.
       bindS (mapS (\<lambda>m. wrapS (Ctx ''machine'') (policySign h call dev m hours (policy_review f))) (map sm_MachineID (ps_Machines st))) (\<lambda>_. retS ()))
     else if flag f ''machine'' \<noteq> [] then
       bindS (wrapS (Ctx ''machine'') (policySign h call dev (flag f ''machine'') hours (policy_review f))) (\<lambda>_. retS ())
     else cmdPolicySignAccount h call dev f))"

text \<open>
  \<open>status\<close>. \<open>%-12s\<close> pads to a number of characters: bytes that do not continue a character of valid UTF-8, which is what \<open>json\<close> decodes to.
\<close>

definition pad_right :: "nat \<Rightarrow> string \<Rightarrow> string" where
  "pad_right n s = s @ replicate (n - length (filter (\<lambda>c. of_char c div 64 \<noteq> (2 :: nat)) s)) (CHR '' '')"

abbreviation em_dash :: string where "em_dash \<equiv> [CHR 0xE2, CHR 0x80, CHR 0x94]"

definition delegation_state :: "int \<Rightarrow> status_delegation \<Rightarrow> string" where
  "delegation_state now d =
     (if sd_Revoked d then ''REVOKED''
      else if sd_Expires d \<noteq> 0 \<and> now \<ge> sd_Expires d then ''expired''
      else if sd_Expires d \<noteq> 0 then ''until '' @ format_date (timeUnix (sd_Expires d))
      else ''active'')"

definition machine_state :: "int \<Rightarrow> status_machine \<Rightarrow> string" where
  "machine_state now m =
     (if sm_Version m > 0 then
        (if now \<ge> sm_KRLExpires m then ''v'' @ format_int (sm_Version m) @ '', KRL EXPIRED '' @ em_dash @ '' re-sign''
         else ''v'' @ format_int (sm_Version m) @ '', KRL fresh until '' @ format_minute (timeUnix (sm_KRLExpires m)) @ ''Z'')
      else ''unsigned'')"

definition status_text :: "int \<Rightarrow> policyStatus \<Rightarrow> string" where
  "status_text now st =
     ''account '' @ ps_Account st @ [nl] @
     ''root    '' @ firstNonEmpty [ps_RootFP st, ''(not set '' @ em_dash @ '' p3sig policy root)''] @ [nl] @
     ''signing devices (revocation list v'' @ format_int (ps_RevocationsVersion st) @ ''):'' @ [nl] @
     (if ps_Delegations st = [] then ''  none '' @ em_dash @ '' p3sig policy delegate'' @ [nl] else []) @
     concat (map (\<lambda>d. ''  '' @ sd_DeviceFP d @ ''  '' @ pad_right 12 (firstNonEmpty [sd_Label d, ''-'']) @ '' '' @
       delegation_state now d @ [nl]) (ps_Delegations st)) @
     ''machines:'' @ [nl] @
     concat (map (\<lambda>m. ''  '' @ sm_MachineID m @ ''  '' @ pad_right 20 (sm_Name m) @ '' '' @ machine_state now m @ [nl]) (ps_Machines st))"

definition policyStatusCmd :: "('k, 's, 'n, 'x) owner_host_scheme \<Rightarrow> 'n policyCall \<Rightarrow> ('n, unit) io" where
  "policyStatusCmd h call =
     bindS (call_into call (read_status h) no_status ''getPolicyStatus'' Map.empty) (\<lambda>st.
     bindS get_now (\<lambda>now. print_text (status_text (unixOf now) st)))"

definition cmdPolicy :: "('k, 's, 'n, 'x) refresh_host_scheme \<Rightarrow> string \<Rightarrow> flags \<Rightarrow> ('n, unit) io" where
  "cmdPolicy h sub f =
     (if sub = [] \<or> sub = ''help'' then failS (Msg ''usage: p3sig policy'')
      else if sub = ''refresh'' then cmdPolicyRefresh h f
      else bindS (policy_call h sub f) (\<lambda>call.
        if sub = ''status'' then policyStatusCmd h call
        else if sub = ''root'' \<or> sub = ''delegate'' \<or> sub = ''revoke'' \<or> sub = ''freshness-delegate'' then
          bindS (wrapS (Ctx ''--root-key'') (loadSigner h (flag f ''root-key''))) (policy_root_cmd h call sub f)
        else if sub = ''sign'' then policy_sign_cmd h call f
        else failS (Msg ''unknown policy subcommand'')))"

section \<open>What is signed\<close>

text \<open>The draft is read strictly, shown, and exactly what was shown is signed and sent.\<close>

lemma policySignAccount_Inr:
  assumes "policySignAccount h call dev grp hours review s = (Inr v, t)" "v \<noteq> 0"
  shows "\<exists>p b u u' x. review p u = (Inr True, u') \<and> v = ap_Version p \<and> ap_Group p = grp \<and>
    (\<exists>raw. dec_account_policy (h_policy h) raw = Some p) \<and> signBlob dev ctxAccountPolicy (enc_account_policy h) p = Some b \<and>
    call ''accountPolicyPut'' ((blob_form b ''account_policy'')(''signer'' \<mapsto> [authorizedKey h dev])) u' = (Inr x, t)"
  using assms
  by (auto simp: policySignAccount_def bindS_Inr call_only_def signAccountPolicy_def sign_io_Inr result_simps split: if_splits) blast



text \<open>Writing a value that was read and reading it again gives the same value.\<close>

definition json_stable :: "(bytes \<Rightarrow> 'v option) \<Rightarrow> ('v \<Rightarrow> bytes) \<Rightarrow> bool" where
  "json_stable dec enc \<longleftrightarrow> (\<forall>b v. dec b = Some v \<longrightarrow> dec (enc v) = Some v)"

lemma accepted_account_entry:
  assumes "verifyPolicyAny env sp rootFP m st now = Inr q" "account_blob sp = Some b" "parse_key env (sp_Signer sp) = Some k"
    and "openSignedBlob env k ctxAccountPolicy (dec_account_policy env) b = Inr p"
  shows "\<exists>mine. ap_Machines p m = Some mine \<and> q\<lparr>p_KRLExpires := 0\<rparr> = (projected p mine)\<lparr>p_KRLExpires := 0\<rparr>"
  using assms by (auto simp: verifyPolicyAny_def verifyAccountPolicy_Inr trusted_signer_def)

text \<open>C13. One signature covers what the owner saw: when \<open>p3sig policy sign\<close> reports a version, the policy shown for review was approved, and the
  blob that was uploaded makes any agent that accepts it under the device's key apply that policy's entry for the agent's machine (CA keys,
  grants, KRL, version), and nothing else; only the expiry may differ.\<close>

theorem account_policy_signed_as_reviewed:
  assumes "policySignAccount h call dev grp hours review s = (Inr v, t)" "v \<noteq> 0"
    and "honest_signer (h_policy h) dev" "json_stable (dec_account_policy (h_policy h)) (enc_account_policy h)"
  shows "\<exists>p b u u' x. review p u = (Inr True, u') \<and> v = ap_Version p \<and> ap_Group p = grp \<and>
    call ''accountPolicyPut'' ((blob_form b ''account_policy'')(''signer'' \<mapsto> [authorizedKey h dev])) u' = (Inr x, t) \<and>
    (\<forall>sp rootFP m st now q. account_blob sp = Some b \<longrightarrow> parse_key (h_policy h) (sp_Signer sp) = Some (sg_pub dev) \<longrightarrow>
       verifyPolicyAny (h_policy h) sp rootFP m st now = Inr q \<longrightarrow>
       (\<exists>mine. ap_Machines p m = Some mine \<and> q\<lparr>p_KRLExpires := 0\<rparr> = (projected p mine)\<lparr>p_KRLExpires := 0\<rparr>))"
proof -
  from policySignAccount_Inr [OF assms(1,2)] obtain p b u u' x raw where p: "review p u = (Inr True, u')" "v = ap_Version p" "ap_Group p = grp"
    "dec_account_policy (h_policy h) raw = Some p" "signBlob dev ctxAccountPolicy (enc_account_policy h) p = Some b"
    "call ''accountPolicyPut'' ((blob_form b ''account_policy'')(''signer'' \<mapsto> [authorizedKey h dev])) u' = (Inr x, t)" by blast
  have "openSignedBlob (h_policy h) (sg_pub dev) ctxAccountPolicy (dec_account_policy (h_policy h)) b = Inr p"
    using open_signBlob [OF assms(3) p(5)] p(4) assms(4) by (simp add: json_stable_def)
  note o = this
  show ?thesis
    by (intro exI [of _ p] exI [of _ b] exI [of _ u] exI [of _ u'] exI [of _ x] conjI p(1-3,6) allI impI)
      (rule accepted_account_entry [OF _ _ _ o])
qed

section \<open>Revoking\<close>

lemma revoked_set_props:
  "fpr \<in> set (revoked_set st fpr)" "d \<in> set (ps_Delegations st) \<Longrightarrow> sd_Revoked d \<Longrightarrow> sd_DeviceFP d \<in> set (revoked_set st fpr)"
  "distinct (revoked_set st fpr)"
  by (auto simp: revoked_set_def)

lemma policyRevoke_Inr:
  assumes "policyRevoke h call root fpr s = (Inr v, t)"
  shows "\<exists>st u b x. call_into call (read_status h) no_status ''getPolicyStatus'' Map.empty s = (Inr st, u) \<and> ps_RootFP st = signer_fp h root \<and>
    v = i64 (ps_RevocationsVersion st + 1) \<and>
    signBlob root ctxRevocations (enc_revocations h) \<lparr>rv_Account = ps_Account st, rv_Version = v, rv_Revoked = revoked_set st fpr\<rparr> = Some b \<and>
    call ''policyPutBlob'' (blob_form b ''revocations'') u = (Inr x, t)"
  using assms
  by (auto simp: policyRevoke_def rootStatus_def bindS_Inr call_only_def putBlob_def signRevocations_def sign_io_Inr Let_def split: if_splits)


section \<open>Vouching\<close>

lemma refresh_check_Inr:
  "refresh_check env cur fpr account grp rootFP st now = Inr (root, ap, hash) \<longleftrightarrow>
     (\<exists>b revoked signer. account_blob (cu_Signed cur) = Some b \<and>
        trusted_signer env (cu_Signed cur) rootFP (no_state\<lparr>st_RevocationsVersion := rf_RevocationsVersion st\<rparr>) now root revoked signer account \<and>
        fpr \<notin> set revoked \<and> openSignedBlob env signer ctxAccountPolicy (dec_account_policy env) b = Inr ap \<and> ap_Account ap = account \<and>
        ap_Group ap = grp \<and> rf_Version st \<le> ap_Version ap \<and> accountPolicyHash env b = Inr hash \<and>
        (cu_PolicyHash cur = [] \<or> cu_PolicyHash cur = hash))"
proof (cases "account_blob (cu_Signed cur)")
  case (Some b)
  have "refresh_check env cur fpr account grp rootFP st now = Inr (root, ap, hash) \<longleftrightarrow>
     (\<exists>revoked signer. verifyRootAndRevocations env (cu_Signed cur) rootFP (no_state\<lparr>st_RevocationsVersion := rf_RevocationsVersion st\<rparr>) = Inr (root, revoked) \<and>
        fpr \<notin> set revoked \<and> parse_key env (sp_Signer (cu_Signed cur)) = Some signer \<and> fp env signer \<notin> set revoked \<and>
        (\<exists>accounts. liveDelegations env root (sp_Chain (cu_Signed cur)) (fp env signer) now = Inr accounts \<and> account \<in> set accounts) \<and>
        openSignedBlob env signer ctxAccountPolicy (dec_account_policy env) b = Inr ap \<and> ap_Account ap = account \<and>
        ap_Group ap = grp \<and> rf_Version st \<le> ap_Version ap \<and> accountPolicyHash env b = Inr hash \<and>
        (cu_PolicyHash cur = [] \<or> cu_PolicyHash cur = hash))"
    by (auto simp: refresh_check_def Some Let_def result_simps not_less split: prod.splits)
  then show ?thesis
    unfolding verifyRoot_Inr liveDelegations_Inr trusted_signer_def using Some by auto
qed (simp add: refresh_check_def)

lemma statement_fields [simp]:
  "fr_Expires (freshness_statement account grp ap hash w st now) = unixOf (now + w)"
  "fr_Account (freshness_statement account grp ap hash w st now) = account" "fr_Group (freshness_statement account grp ap hash w st now) = grp"
  "fr_PolicyHash (freshness_statement account grp ap hash w st now) = hash" "fr_Version (freshness_statement account grp ap hash w st now) = ap_Version ap"
  by (simp_all add: freshness_statement_def)

lemma freshnessRefresh_Inr:
  assumes "freshnessRefresh h post key account grp rootFP window st now s = (Inr (e, st'), t)"
  shows "\<exists>cur root ap hash b u x. refresh_check (h_policy h) cur (signer_fp h key) account grp rootFP st now = Inr (root, ap, hash) \<and>
    0 \<le> window \<and> window \<le> maxFreshnessWindow \<and>
    signBlob key ctxFreshness (enc_freshness h) (freshness_statement account grp ap hash (choose_window window (cu_WindowHours cur)) st now) = Some b \<and>
    post [''action'' \<mapsto> [''freshnessPut''], ''payload'' \<mapsto> [sb_Payload b], ''sig'' \<mapsto> [sb_Sig b], ''signer'' \<mapsto> [authorizedKey h key]] u = (Inr x, t) \<and>
    e = unixOf (now + choose_window window (cu_WindowHours cur)) \<and>
    st' = next_refresh (h_policy h) cur root ap (fr_Issued (freshness_statement account grp ap hash (choose_window window (cu_WindowHours cur)) st now)) st"
  using assms
  by (auto simp: freshnessRefresh_def bindS_Inr Let_def signFreshness_def sign_io_Inr split: if_splits) blast

lemma window_bound:
  assumes "0 \<le> window" "window \<le> maxFreshnessWindow"
  shows "0 < choose_window window hours \<and> choose_window window hours \<le> maxFreshnessWindow"
  using assms by (auto simp: choose_window_def Let_def defaultFreshnessWindow_def maxFreshnessWindow_def minute_def second_def)

lemma next_refresh_le:
  "rf_Version (next_refresh env cur root ap issued st) = ap_Version ap" "rf_Issued (next_refresh env cur root ap issued st) = issued"
  "rf_RevocationsVersion st \<le> rf_RevocationsVersion (next_refresh env cur root ap issued st)"
  by (auto simp: next_refresh_def Let_def split: option.split sum.split)

lemma unixOf_window:
  assumes "sane_clock now" "0 < w" "w \<le> maxFreshnessWindow"
  shows "unixOf now \<le> unixOf (now + w) \<and> unixOf (now + w) \<le> unixOf now + 604800"
proof -
  have w: "w \<le> 604800 * second" using assms(3) by (simp add: maxFreshnessWindow_def minute_def second_def)
  have "now div second \<le> (now + w) div second" using assms(2) by (simp add: zdiv_mono1 second_def)
  moreover have "(now + w) div second \<le> (now + 604800 * second) div second" using w by (simp add: zdiv_mono1 second_def)
  moreover have "(now + 604800 * second) div second = now div second + 604800" by (simp add: second_def)
  moreover have "0 \<le> now div second" "now div second < 2 ^ 62"
    using assms(1) by (auto simp: sane_clock_def second_def)
  ultimately show ?thesis
    by (auto simp: unixOf_def unixToInternal_def is_i64_def i64_id)
qed


lemma fresh_loop_ok:
  "\<forall>b \<in> set bs. opens env root ctxFreshnessDelegation (dec_freshness_delegation env) b \<Longrightarrow>
   \<exists>res. fresh_loop env root kfp account now i bs acc = Inr res"
proof (induction bs arbitrary: i acc)
  case (Cons b bs)
  from Cons.prems obtain d where d: "openSignedBlob env root ctxFreshnessDelegation (dec_freshness_delegation env) b = Inr d"
    by (auto simp: opens_def split: sum.splits)
  from Cons.IH Cons.prems show ?case by (auto simp: d Let_def split: option.split)
qed simp

lemma verifyFreshness_ok:
  assumes "parse_key env (sp_FreshnessSigner sp) = Some k" "fp env k \<notin> set revoked"
    and "\<forall>b \<in> set (sp_FreshnessChain sp). opens env root ctxFreshnessDelegation (dec_freshness_delegation env) b"
    and "\<exists>b \<in> set (sp_FreshnessChain sp). vouches env root (fp env k) (ap_Account ap) now b"
    and "openSignedBlob env k ctxFreshness (dec_freshness env) fr = Inr f" "accountPolicyHash env b = Inr (fr_PolicyHash f)"
    and "fr_Account f = ap_Account ap" "fr_Group f = ap_Group ap" "fr_Version f = ap_Version ap"
    and "fr_Issued f \<le> unixOf (now + maxFreshnessClockSkew)" "unixOf now < fr_Expires f" "fr_Expires f \<le> i64 (fr_Issued f + 604800)"
  shows "verifyFreshness env sp b fr root revoked ap now = Inr (fr_Expires f)"
proof -
  from fresh_loop_ok [OF assms(3)] obtain res where r: "fresh_loop env root (fp env k) (ap_Account ap) now 0 (sp_FreshnessChain sp) False = Inr res" by blast
  with fresh_loop_Inr [OF r] assms(4) have "res" by simp
  with r assms show ?thesis
    by (simp add: verifyFreshness_def maxFreshnessWindow_def minute_def second_def Let_def)
qed


section \<open>An instance\<close>

text \<open>Lists and statements are written as runs of bytes as long as their number in an enumeration.\<close>

definition revocations_code :: "revocations \<Rightarrow> bytes" where
  "revocations_code r = replicate (to_nat (rv_Account r, rv_Version r, rv_Revoked r)) 0"

definition revocations_value :: "bytes \<Rightarrow> revocations option" where
  "revocations_value b = (case from_nat (length b) of (a, v, l) \<Rightarrow> Some \<lparr>rv_Account = a, rv_Version = v, rv_Revoked = l\<rparr>)"

definition freshness_code :: "freshness \<Rightarrow> bytes" where
  "freshness_code f = replicate (to_nat (fr_Account f, fr_Group f, fr_PolicyHash f, fr_Version f, fr_Issued f, fr_Expires f)) 0"

definition freshness_value :: "bytes \<Rightarrow> freshness option" where
  "freshness_value b = (case from_nat (length b) of (a, g, p, v, i, e) \<Rightarrow>
     Some \<lparr>fr_Account = a, fr_Group = g, fr_PolicyHash = p, fr_Version = v, fr_Issued = i, fr_Expires = e\<rparr>)"

lemma sample_codes: "revocations_value (revocations_code r) = Some r" "freshness_value (freshness_code f) = Some f"
  by (simp_all add: revocations_value_def revocations_code_def freshness_value_def freshness_code_def)

definition codec_env :: "(string, bytes) policy_env" where
  "codec_env = sample_env\<lparr>dec_revocations := revocations_value, dec_freshness := freshness_value\<rparr>"

definition sample_status :: policyStatus where
  "sample_status = no_status\<lparr>ps_Account := ''user:1'', ps_RootFP := ''SHA256:R'', ps_RevocationsVersion := 4\<rparr>"

definition sample_current :: current where
  "sample_current = \<lparr>cu_Signed = (sample_response True)\<lparr>sp_Revocations := None\<rparr>, cu_PolicyHash = [], cu_WindowHours = 0\<rparr>"

definition sample_owner :: "(string, bytes, unit) refresh_host" where
  "sample_owner = agent_host.extend (sample_agent\<lparr>h_policy := codec_env\<rparr>)
     \<lparr>ssh_line = (\<lambda>k. k), ed_signer = (\<lambda>_. None), agent_signers = (\<lambda>_. None), dongle_signer = (\<lambda>_. None), parse_private = (\<lambda>_. NotAKey),
      parse_duration = (\<lambda>_. None), enc_delegation = (\<lambda>_. [1]), enc_revocations = revocations_code, enc_policy = (\<lambda>_. [1]),
      enc_account_policy = (\<lambda>_. [1]), enc_freshness_delegation = (\<lambda>_. [1]), enc_freshness = freshness_code,
      read_status = (\<lambda>_. Some sample_status), read_root_fp = (\<lambda>_. None), read_draft = (\<lambda>_. None), read_account_draft = (\<lambda>_. Some ''d''),
      machine_order = (\<lambda>_. [''m1'']), read_current = (\<lambda>_. Some sample_current), dec_refresh = (\<lambda>_. None), enc_refresh = (\<lambda>_. [])\<rparr>"

lemma sample_owner_simps:
  "h_policy sample_owner = codec_env" "ssh_line sample_owner = (\<lambda>k. k)" "enc_revocations sample_owner = revocations_code"
  "enc_account_policy sample_owner = (\<lambda>_. [1])" "enc_freshness sample_owner = freshness_code" "read_status sample_owner = (\<lambda>_. Some sample_status)"
  "read_account_draft sample_owner = (\<lambda>_. Some ''d'')" "machine_order sample_owner = (\<lambda>_. [''m1''])"
  "read_current sample_owner = (\<lambda>_. Some sample_current)"
  by (simp_all add: sample_owner_def agent_host.defs)

text \<open>A server that answers every call.\<close>

definition sample_call :: "unit policyCall" where
  "sample_call action extra s = (Inr ''x'', s)"

lemma codec_signer: "honest_signer codec_env (sample_signer k)"
  by (simp add: honest_signer_def sample_signer_def codec_env_def sample_env_def)

lemma codec_parts:
  "parse_key codec_env = Some" "fp codec_env = (\<lambda>k. ''SHA256:'' @ k)" "dec_delegation codec_env b = Some sample_delegation"
  "dec_account_policy codec_env b = Some sample_account_policy" "sg_pub (sample_signer x) = x"
  by (simp_all add: codec_env_def sample_env_def sample_signer_def)

lemma sample_sign_account:
  "policySignAccount sample_owner sample_call (sample_signer ''D'') [] 72 (\<lambda>_. retS True) example_world = (Inr 4, example_world)"
  by (simp add: policySignAccount_def call_into_def call_only_def sample_call_def sample_owner_simps bindS_def codec_env_def sample_env_def
      sample_account_policy_def signAccountPolicy_def sign_io_def signBlob_def sample_signer_def Let_def del: b64_encode.simps)

theorem account_policy_signed_as_reviewed_witness:
  "\<exists>b. \<forall>sp rootFP m st now q. account_blob sp = Some b \<longrightarrow> parse_key codec_env (sp_Signer sp) = Some ''D'' \<longrightarrow>
     verifyPolicyAny codec_env sp rootFP m st now = Inr q \<longrightarrow> p_Version q = 4"
proof -
  have "json_stable (dec_account_policy (h_policy sample_owner)) (enc_account_policy sample_owner)"
    by (simp add: json_stable_def sample_owner_simps codec_env_def sample_env_def)
  from account_policy_signed_as_reviewed [OF sample_sign_account _ _ this] codec_signer obtain p b where
    "4 = ap_Version p" "\<forall>sp rootFP m st now q. account_blob sp = Some b \<longrightarrow> parse_key codec_env (sp_Signer sp) = Some ''D'' \<longrightarrow>
       verifyPolicyAny codec_env sp rootFP m st now = Inr q \<longrightarrow>
       (\<exists>mine. ap_Machines p m = Some mine \<and> q\<lparr>p_KRLExpires := 0\<rparr> = (projected p mine)\<lparr>p_KRLExpires := 0\<rparr>)"
    by (auto simp: sample_owner_simps sample_signer_def)
  then show ?thesis
    by (intro exI [of _ b]) (metis (no_types, lifting) policy.select_convs(2) policy.surjective policy.update_convs(4) projected_def)
qed

lemma sample_revoke: "\<exists>t. policyRevoke sample_owner sample_call (sample_signer ''R'') ''SHA256:D'' example_world = (Inr 5, t)"
  by (simp add: policyRevoke_def rootStatus_def call_into_def call_only_def putBlob_def sample_call_def sample_owner_simps bindS_def codec_env_def
      sample_env_def signer_fp_def sample_status_def no_status_def signRevocations_def sign_io_def signBlob_def sample_signer_def Let_def i64_def
      del: b64_encode.simps)


lemma codec_open: "openSignedBlob codec_env k ctx dec (sample_blob k ctx) = optE BadPayload (dec [1])"
  using sample_open [of k ctx dec] by (simp add: openSignedBlob_def codec_env_def)

lemma codec_check:
  "refresh_check codec_env sample_current ''SHA256:F'' ''user:1'' [] ''SHA256:R'' no_refresh sample_now = Inr (''R'', sample_account_policy, sample_hash)"
proof -
  have t: "trusted_signer codec_env (cu_Signed sample_current) ''SHA256:R'' (no_state\<lparr>st_RevocationsVersion := 0\<rparr>) sample_now ''R'' [] ''D'' ''user:1''"
    by (simp add: trusted_signer_def sample_current_def sample_response_def opens_def codec_open delegates_def sample_delegation_def
        revocations_in_force_def no_state_def codec_parts)
  have b: "account_blob (cu_Signed sample_current) = Some (sample_blob ''D'' ctxAccountPolicy)"
    by (simp add: sample_current_def sample_response_def account_blob_def sample_blob_def del: b64_encode.simps)
  have o: "openSignedBlob codec_env ''D'' ctxAccountPolicy (dec_account_policy codec_env) (sample_blob ''D'' ctxAccountPolicy) = Inr sample_account_policy"
    by (simp add: codec_open codec_parts)
  have sha: "pe_sha codec_env = (\<lambda>b. take 32 (b @ replicate 32 0))" by (simp add: codec_env_def sample_env_def)
  have "accountPolicyHash codec_env (sample_blob ''D'' ctxAccountPolicy) = Inr sample_hash"
    by (simp add: accountPolicyHash_def sample_blob_def del: b64_encode.simps) (simp only: sha sample_hash_def append.simps)
  with t b o show ?thesis
    unfolding refresh_check_Inr
    by (intro exI [of _ "sample_blob ''D'' ctxAccountPolicy"] exI [of _ "[]"] exI [of _ "''D''"])
      (simp add: no_refresh_def sample_account_policy_def sample_current_def)
qed

lemma sample_refresh:
  "\<exists>e st'. freshnessRefresh sample_owner (sample_call []) (sample_signer ''F'') ''user:1'' [] ''SHA256:R'' 0 no_refresh sample_now example_world
     = (Inr (e, st'), example_world)"
proof -
  have "signer_fp sample_owner (sample_signer ''F'') = ''SHA256:F''"
    by (simp add: signer_fp_def sample_owner_simps codec_env_def sample_env_def sample_signer_def)
  then show ?thesis
    by (simp add: freshnessRefresh_def call_into_def sample_call_def sample_owner_simps bindS_def codec_check
        signFreshness_def sign_io_def signBlob_def sample_signer_def [THEN arg_cong, of sg_sign] Let_def maxFreshnessWindow_def minute_def second_def
        del: b64_encode.simps)
qed



end
