(* ===== verification/Review.thy ===== *)
theory Review
  imports Refresh
begin

text \<open>
  What the owner sees before signing: \<open>describePolicy\<close> (\<open>policy_cli.go\<close>) and \<open>describeAccountPolicy\<close> (\<open>account_policy_cli.go\<close>). Shown: the text identifies
  the account, the version, the trusted CAs and every grant, as long as the server's values contain no line break and no principal
  contains the arrow; the revocation list is shown by the number of its entries only, so drafts that revoke different keys look the same.
\<close>

section \<open>The code\<close>

text \<open>\<open>key_comment\<close> is the comment of a line that \<open>ssh.ParseAuthorizedKey\<close> accepts, \<open>changed_order\<close> the order in which Go visits the changed machines.\<close>

record machine_change =
  mc_CAAdded :: "string list"
  mc_CARemoved :: "string list"
  mc_GrantsAdded :: "string list"
  mc_GrantsRemoved :: "string list"

record accountDiff =
  ad_SinceVersion :: int
  ad_MachinesAdded :: "string list"
  ad_MachinesRemoved :: "string list"
  ad_Changed :: "string \<rightharpoonup> machine_change"
  ad_KRLAdded :: "string list"
  ad_KRLRemoved :: "string list"

record ('k, 's, 'n) review_host = "('k, 's, 'n) refresh_host" +
  key_comment :: "string \<Rightarrow> string"
  changed_order :: "accountDiff \<Rightarrow> string list"

abbreviation arrow :: string where "arrow \<equiv> [CHR 0xE2, CHR 0x86, CHR 0x92]"

definition krl_entries :: "string \<Rightarrow> nat" where
  "krl_entries spec = (if trim_space spec = [] then 0 else length (filter (\<lambda>c. c = nl) (trim_space spec)) + 1)"

definition ca_line :: "('k, 's, 'n, 'x) review_host_scheme \<Rightarrow> string \<Rightarrow> string" where
  "ca_line h k =
     (case parse_key (h_policy h) k of
        Some pk \<Rightarrow> ''    '' @ fp (h_policy h) pk @ '' '' @ key_comment h k
      | None \<Rightarrow> ''    '' @ ''?'' @ '' '')"

definition grant_line :: "policy_grant \<Rightarrow> string" where
  "grant_line g = ''    '' @ g_Principal g @ '' '' @ arrow @ '' '' @ g_LoginUser g"

definition krl_line :: "policy \<Rightarrow> string" where
  "krl_line p = ''  KRL: '' @ show_nat (krl_entries (p_KRLSpec p)) @ '' revoked entr(ies), must be re-signed by '' @
     format_minute (timeUnix (p_KRLExpires p)) @ ''Z''"

definition policy_head :: "string \<Rightarrow> policy \<Rightarrow> string" where
  "policy_head machine p = ''machine '' @ machine @ '' '' @ em_dash @ '' policy v'' @ format_int (p_Version p) @ '' for '' @ p_Account p"

definition policy_lines :: "('k, 's, 'n, 'x) review_host_scheme \<Rightarrow> string \<Rightarrow> policy \<Rightarrow> string list" where
  "policy_lines h machine p =
     [[], policy_head machine p, ''  trusted CAs:''] @
     (if p_CAKeys p = [] then [''    (none)''] else map (ca_line h) (p_CAKeys p)) @
     [''  principals:''] @ map grant_line (p_Grants p) @ [krl_line p]"

definition describePolicy :: "('k, 's, 'n, 'x) review_host_scheme \<Rightarrow> string \<Rightarrow> policy \<Rightarrow> string" where
  "describePolicy h machine p = concat (map (\<lambda>l. l @ [nl]) (policy_lines h machine p))"

definition keyFP :: "('k, 's, 'n, 'x) review_host_scheme \<Rightarrow> string \<Rightarrow> string" where
  "keyFP h line = (case parse_key (h_policy h) line of Some pk \<Rightarrow> fp (h_policy h) pk | None \<Rightarrow> ''?'')"

text \<open>The changes the server reports, then the machines as they are in the policy.\<close>

definition change_lines :: "('k, 's, 'n, 'x) review_host_scheme \<Rightarrow> accountDiff \<Rightarrow> string \<Rightarrow> string list" where
  "change_lines h d m =
     (case ad_Changed d m of None \<Rightarrow> []
      | Some c \<Rightarrow> map (\<lambda>k. m @ '' + CA '' @ keyFP h k) (mc_CAAdded c) @ map (\<lambda>k. m @ '' - CA '' @ keyFP h k) (mc_CARemoved c) @
          map (\<lambda>g. m @ '' + '' @ g) (mc_GrantsAdded c) @ map (\<lambda>g. m @ '' - '' @ g) (mc_GrantsRemoved c))"

definition diff_lines :: "('k, 's, 'n, 'x) review_host_scheme \<Rightarrow> accountDiff \<Rightarrow> string list" where
  "diff_lines h d =
     map (\<lambda>m. ''+ machine '' @ m) (ad_MachinesAdded d) @ map (\<lambda>m. ''- machine '' @ m) (ad_MachinesRemoved d) @
     concat (map (change_lines h d) (changed_order h d)) @
     map (\<lambda>k. ''+ revoke '' @ k) (ad_KRLAdded d) @ map (\<lambda>k. ''- un-revoke '' @ k) (ad_KRLRemoved d)"

definition machine_line :: "('k, 's, 'n, 'x) review_host_scheme \<Rightarrow> account_policy \<Rightarrow> string \<Rightarrow> string" where
  "machine_line h p mid =
     (case ap_Machines p mid of None \<Rightarrow> []
      | Some m \<Rightarrow> ''  '' @ mid @ '':'' @ concat (map (\<lambda>k. '' CA '' @ keyFP h k) (m_CAKeys m)) @
          concat (map (\<lambda>g. '' '' @ [CHR 0xC2, CHR 0xB7] @ '' '' @ g_Principal g @ '' '' @ arrow @ '' '' @ g_LoginUser g) (m_Grants m)))"

definition describeAccountPolicy :: "('k, 's, 'n, 'x) review_host_scheme \<Rightarrow> account_policy \<Rightarrow> accountDiff \<Rightarrow> string" where
  "describeAccountPolicy h p d =
     concat (map (\<lambda>l. l @ [nl])
       ([[], ''account policy v'' @ format_int (ap_Version p) @ '' for '' @ ap_Account p @ '' ('' @ firstNonEmpty [ap_Group p, ''whole account''] @
          '') '' @ em_dash @ '' '' @ show_nat (length (machine_order h p)) @ '' machine(s), one signature''] @
        (if ad_SinceVersion d = 0 then [''  first account policy '' @ em_dash @ '' everything below is new'']
         else (''  changes since v'' @ format_int (ad_SinceVersion d) @ '':'') #
           (if diff_lines h d = [] then [''    (none '' @ em_dash @ '' re-signing the same content)'']
            else map (\<lambda>l. ''    '' @ l) (diff_lines h d))) @
        map (machine_line h p) (machine_order h p) @
        [''  KRL: '' @ show_nat (krl_entries (ap_KRLSpec p)) @ '' revoked entr(ies); valid until '' @ format_minute (timeUnix (ap_Expires p)) @
          ''Z unless the freshness key extends it'']))"

section \<open>What the text shows\<close>

text \<open>The values of the draft that the text can be trusted to show: no line breaks, and no arrow in a principal.\<close>

definition plain_draft :: "('k, 's, 'n, 'x) review_host_scheme \<Rightarrow> policy \<Rightarrow> bool" where
  "plain_draft h p \<longleftrightarrow> nl \<notin> set (p_Account p) \<and>
     (\<forall>g \<in> set (p_Grants p). nl \<notin> set (g_Principal g) \<and> nl \<notin> set (g_LoginUser g) \<and> CHR 0xE2 \<notin> set (g_Principal g)) \<and>
     (\<forall>k \<in> set (p_CAKeys p). nl \<notin> set (ca_line h k))"

lemma unlines_inject:
  assumes "concat (map (\<lambda>l. l @ [nl]) xs) = concat (map (\<lambda>l. l @ [nl]) ys)" "\<forall>l \<in> set xs. nl \<notin> set l" "\<forall>l \<in> set ys. nl \<notin> set l"
  shows "xs = ys"
  using assms
proof (induction xs arbitrary: ys)
  case Nil
  then show ?case by (cases ys) auto
next
  case (Cons x xs)
  then obtain y ys' where ys: "ys = y # ys'" by (cases ys) auto
  from Cons.prems(1) have "x @ nl # concat (map (\<lambda>l. l @ [nl]) xs) = y @ nl # concat (map (\<lambda>l. l @ [nl]) ys')" by (simp add: ys)
  from first_field [OF this] Cons.prems(2,3) have "x = y" "concat (map (\<lambda>l. l @ [nl]) xs) = concat (map (\<lambda>l. l @ [nl]) ys')" by (auto simp: ys)
  with Cons.IH [of ys'] Cons.prems(2,3) show ?case by (auto simp: ys)
qed

lemma first_mark:
  assumes "xs @ m # us = ys @ m # vs" "m \<notin> set xs" "m \<notin> set ys"
  shows "xs = ys \<and> us = vs"
  using assms
proof (induction xs arbitrary: ys)
  case Nil
  then show ?case by (cases ys) auto
next
  case (Cons x xs)
  then show ?case by (cases ys) auto
qed

lemma grant_line_inject:
  assumes "grant_line g = grant_line g'" "CHR 0xE2 \<notin> set (g_Principal g)" "CHR 0xE2 \<notin> set (g_Principal g')"
  shows "g = g'"
proof -
  from assms(1) have "(g_Principal g @ '' '') @ CHR 0xE2 # [CHR 0x86, CHR 0x92] @ '' '' @ g_LoginUser g =
      (g_Principal g' @ '' '') @ CHR 0xE2 # [CHR 0x86, CHR 0x92] @ '' '' @ g_LoginUser g'" by (simp add: grant_line_def)
  from first_field [OF this] assms(2,3) show ?thesis by (cases g, cases g') simp
qed

lemma map_inject:
  "map f xs = map f ys \<Longrightarrow> (\<And>x y. x \<in> set xs \<Longrightarrow> y \<in> set ys \<Longrightarrow> f x = f y \<Longrightarrow> x = y) \<Longrightarrow> xs = ys"
  by (induction xs arbitrary: ys) (auto simp: Cons_eq_map_conv)

lemma choice_inject:
  "(if xs = [] then [n] else map f xs) = (if ys = [] then [n] else map f ys) \<Longrightarrow> (\<And>k. f k \<noteq> n) \<Longrightarrow> map f xs = map f ys"
  by (cases xs; cases ys) (auto dest: sym)

lemma plain_lines:
  assumes "plain_draft h p" "nl \<notin> set machine"
  shows "\<forall>l \<in> set (policy_lines h machine p). nl \<notin> set l"
proof -
  have int: "nl \<notin> set (format_int z)" for z by (rule format_int_excludes) (simp_all add: digit_val_def)
  have nat: "nl \<notin> set (show_nat n)" for n using int [of "int n"] by (simp add: format_int_def)
  have "nl \<notin> set (format_minute u)" for u
    by (auto simp: format_minute_def format_date_def year4_def pad2_def Let_def int nat split: prod.split)
  with assms int nat show ?thesis
    by (auto simp: policy_lines_def plain_draft_def policy_head_def krl_line_def grant_line_def)
qed

lemma policy_head_inject:
  "policy_head machine p = policy_head machine q \<Longrightarrow> p_Version p = p_Version q \<and> p_Account p = p_Account q"
proof -
  assume "policy_head machine p = policy_head machine q"
  then have "format_int (p_Version p) @ CHR '' '' # (''for '' @ p_Account p) = format_int (p_Version q) @ CHR '' '' # (''for '' @ p_Account q)"
    by (simp add: policy_head_def)
  from first_field [OF this] format_int_excludes [of "CHR '' ''"] show ?thesis
    by (simp add: digit_val_def format_int_inject)
qed


text \<open>C14. What the owner reviews before a device signs identifies what is signed: two drafts for a machine that are shown by the same text have the same version,
  account and grants, in the same order, the same trusted CAs by fingerprint and comment, and as many revocation entries. This holds for drafts whose values
  contain no line break and whose principals contain no arrow; of the revocation entries it says only how many there are.\<close>

theorem review_identifies:
  assumes same: "describePolicy h machine p = describePolicy h machine q" and plain: "plain_draft h p" "plain_draft h q" "nl \<notin> set machine"
  shows "p_Version p = p_Version q \<and> p_Account p = p_Account q \<and> p_Grants p = p_Grants q \<and>
    map (ca_line h) (p_CAKeys p) = map (ca_line h) (p_CAKeys q) \<and> krl_entries (p_KRLSpec p) = krl_entries (p_KRLSpec q)"
proof -
  let ?ca = "\<lambda>p. if p_CAKeys p = [] then [''    (none)''] else map (ca_line h) (p_CAKeys p)"
  let ?tail = "\<lambda>p. map grant_line (p_Grants p) @ [krl_line p]"
  have mark: "''  principals:'' \<notin> set (?ca r)" for r
    by (auto simp: ca_line_def split: option.splits)
  have "policy_lines h machine p = policy_lines h machine q"
    by (rule unlines_inject [OF same [unfolded describePolicy_def] plain_lines [OF plain(1,3)] plain_lines [OF plain(2,3)]])
  then have lines: "policy_head machine p = policy_head machine q" "?ca p @ ''  principals:'' # ?tail p = ?ca q @ ''  principals:'' # ?tail q"
    by (simp_all add: policy_lines_def)
  from first_mark [OF lines(2) mark mark] have ca: "?ca p = ?ca q" and rest: "?tail p = ?tail q" by blast+
  from rest have grants: "map grant_line (p_Grants p) = map grant_line (p_Grants q)" and krl: "krl_line p = krl_line q" by simp_all
  have same_grants: "p_Grants p = p_Grants q"
    by (rule map_inject [OF grants]) (use plain(1,2) grant_line_inject in \<open>auto simp: plain_draft_def\<close>)
  have none: "ca_line h k \<noteq> ''    (none)''" for k
  proof
    assume e: "ca_line h k = ''    (none)''"
    have "CHR '' '' \<in> set (drop 4 (ca_line h k))" by (simp add: ca_line_def split: option.split)
    then show False unfolding e by simp
  qed
  have "map (ca_line h) (p_CAKeys p) = map (ca_line h) (p_CAKeys q)"
    by (rule choice_inject [OF ca none])
  moreover have "krl_entries (p_KRLSpec p) = krl_entries (p_KRLSpec q)"
  proof -
    have field: "show_nat m @ CHR '' '' # x = show_nat n @ CHR '' '' # y \<Longrightarrow> m = n" for m n x y
      using first_field [of "show_nat m" "CHR '' ''" x "show_nat n" y] format_int_excludes [of "CHR '' ''" "int m"]
        format_int_excludes [of "CHR '' ''" "int n"] show_nat_inject [of m n] by (simp add: format_int_def digit_val_def)
    show ?thesis
      by (rule field, use krl in \<open>simp add: krl_line_def\<close>)
  qed
  ultimately show ?thesis using policy_head_inject [OF lines(1)] same_grants by blast
qed

text \<open>Which keys are revoked is not shown: a server can put other entries into the draft of the same length.\<close>

lemma review_hides_revocations:
  "krl_entries spec = krl_entries (p_KRLSpec p) \<Longrightarrow> describePolicy h machine (p\<lparr>p_KRLSpec := spec\<rparr>) = describePolicy h machine p"
  by (simp add: describePolicy_def policy_lines_def policy_head_def krl_line_def)

lemma account_review_hides_revocations:
  "krl_entries spec = krl_entries (ap_KRLSpec p) \<Longrightarrow> machine_order h (p\<lparr>ap_KRLSpec := spec\<rparr>) = machine_order h p \<Longrightarrow>
   describeAccountPolicy h (p\<lparr>ap_KRLSpec := spec\<rparr>) d = describeAccountPolicy h p d"
  by (simp add: describeAccountPolicy_def machine_line_def cong: option.case_cong map_cong)

text \<open>A line break in a principal makes one grant look like two.\<close>

lemma review_ambiguous:
  "describePolicy h machine (p\<lparr>p_Grants := [\<lparr>g_Principal = ''a '' @ arrow @ '' root'' @ [nl] @ ''    b'', g_LoginUser = ''u''\<rparr>]\<rparr>) =
   describePolicy h machine (p\<lparr>p_Grants := [\<lparr>g_Principal = ''a'', g_LoginUser = ''root''\<rparr>, \<lparr>g_Principal = ''b'', g_LoginUser = ''u''\<rparr>]\<rparr>)"
  by (simp add: describePolicy_def policy_lines_def policy_head_def krl_line_def grant_line_def)

definition sample_reviewer :: "(string, bytes, unit) review_host" where
  "sample_reviewer = refresh_host.extend sample_owner \<lparr>key_comment = (\<lambda>_. ''c''), changed_order = (\<lambda>_. [])\<rparr>"

definition sample_draft :: policy where
  "sample_draft = \<lparr>p_Account = ''user:1'', p_Version = 3, p_Issued = 0, p_KRLExpires = 2000, p_CAKeys = [],
     p_Grants = [\<lparr>g_Principal = ''a'', g_LoginUser = ''root''\<rparr>], p_KRLSpec = ''serial: 1''\<rparr>"

text \<open>Two drafts with different revocations, shown alike.\<close>

theorem review_identifies_witness:
  "describePolicy sample_reviewer ''m'' sample_draft = describePolicy sample_reviewer ''m'' (sample_draft\<lparr>p_KRLSpec := ''serial: 2''\<rparr>) \<and>
   p_Grants sample_draft = p_Grants (sample_draft\<lparr>p_KRLSpec := ''serial: 2''\<rparr>)"
proof -
  have one: "krl_entries ''serial: 1'' = 1" "krl_entries ''serial: 2'' = 1" by code_simp+
  have same: "describePolicy sample_reviewer ''m'' sample_draft = describePolicy sample_reviewer ''m'' (sample_draft\<lparr>p_KRLSpec := ''serial: 2''\<rparr>)"
    by (rule review_hides_revocations [symmetric]) (simp add: sample_draft_def one)
  have "plain_draft sample_reviewer sample_draft" "plain_draft sample_reviewer (sample_draft\<lparr>p_KRLSpec := ''serial: 2''\<rparr>)"
    by (simp_all add: plain_draft_def sample_draft_def)
  from review_identifies [OF same this] same show ?thesis by simp
qed

end
