(* ===== verification/Vault.thy ===== *)
theory Vault
  imports UsbVault
begin

text \<open>
  \<open>p3sig vault verify\<close> (\<open>vault.go\<close>): the signed release of the browser vault. Shown: when the command reports no bad file, the
  manifest was signed with the pinned release key and every file it lists is, under a path of scripts that stays inside the
  site, served with the signed hash; and a release the holder of the release key signed, served unchanged, passes.
\<close>

section \<open>The code\<close>

definition vaultReleaseKey :: string where "vaultReleaseKey = ''Lwy+VorFzquDdGr5JGSMdM3t3/tyveagyjLvXiPRDnM=''"

record vaultRelease =
  vr_V :: int
  vr_Kind :: string
  vr_Commit :: string
  vr_BuiltAt :: string
  vr_Files :: "string \<rightharpoonup> string"

text \<open>\<open>^assets/js/[A-Za-z0-9_./-]+\\.js$\<close>\<close>

definition path_char :: "char \<Rightarrow> bool" where
  "path_char c \<longleftrightarrow> (CHR ''A'' \<le> c \<and> c \<le> CHR ''Z'') \<or> (CHR ''a'' \<le> c \<and> c \<le> CHR ''z'') \<or> (CHR ''0'' \<le> c \<and> c \<le> CHR ''9'') \<or>
     c \<in> {CHR ''_'', CHR ''.'', CHR ''/'', CHR ''-''}"

definition vaultPathRe :: "string \<Rightarrow> bool" where
  "vaultPathRe p \<longleftrightarrow> prefix ''assets/js/'' p \<and>
     (let w = drop (length ''assets/js/'') p in suffix ''.js'' w \<and> length w > 3 \<and> list_all path_char w)"

definition siteBase :: "string \<Rightarrow> string" where
  "siteBase api = trim_suffix (trim_suffix (trim_right api ''/'') ''/index.php'') ''/api''"

text \<open>
  \<open>h_get\<close> is the server's answer to a GET: status and body, or none. \<open>h_ed_verify\<close> is \<open>ed25519.Verify\<close>, \<open>h_sha384\<close> SHA-384, \<open>dec_release_env\<close>
  the JSON of the envelope (manifest and signature), \<open>dec_release\<close> the strict JSON of the manifest, \<open>h_files_order\<close> the order in which
  Go visits the files.
\<close>

record ('k, 's, 'n) vault_host = "('k, 's, 'n) usb_host" +
  h_get :: "'n \<Rightarrow> string \<Rightarrow> (int \<times> string) option \<times> 'n"
  h_ed_verify :: "bytes \<Rightarrow> bytes \<Rightarrow> bytes \<Rightarrow> bool"
  h_sha384 :: "bytes \<Rightarrow> bytes"
  dec_release_env :: "string \<Rightarrow> (string \<times> string) option"
  dec_release :: "string \<Rightarrow> vaultRelease option"
  h_files_order :: "vaultRelease \<Rightarrow> string list"

definition max_body :: nat where "max_body = 16 * 2 ^ 20"

definition http_get :: "('k, 's, 'n, 'x) vault_host_scheme \<Rightarrow> string \<Rightarrow> string \<Rightarrow> ('n, string) io" where
  "http_get h base path s =
     (case h_get h (w_net s) (base @ ''/'' @ path) of
        (None, n) \<Rightarrow> (Inl Transport, s\<lparr>w_net := n\<rparr>)
      | (Some (status, body), n) \<Rightarrow>
          (if status \<noteq> 200 then Inl (Msg ''GET: HTTP status'') else Inr (take max_body body), s\<lparr>w_net := n\<rparr>))"

definition file_hash :: "('k, 's, 'n, 'x) vault_host_scheme \<Rightarrow> string \<Rightarrow> string" where
  "file_hash h body = ''sha384-'' @ b64_encode (h_sha384 h (bytes_of body))"

text \<open>What is recorded for one file: nothing when it matches.\<close>

datatype bad_file = UnexpectedPath | NotServed err | WrongHash string string

definition check_file ::
  "('k, 's, 'n, 'x) vault_host_scheme \<Rightarrow> (string \<Rightarrow> ('n, string) io) \<Rightarrow> vaultRelease \<Rightarrow> (string \<rightharpoonup> bad_file) \<Rightarrow> string \<Rightarrow> ('n, string \<rightharpoonup> bad_file) io" where
  "check_file h get rel bad p =
     (if \<not> vaultPathRe p \<or> sublist ''..'' p then retS (bad(p \<mapsto> UnexpectedPath))
      else bindS (tryS (get p)) (\<lambda>r. case r of
             Inl e \<Rightarrow> retS (bad(p \<mapsto> NotServed e))
           | Inr body \<Rightarrow>
               (if vr_Files rel p \<noteq> Some (file_hash h body)
                then retS (bad(p \<mapsto> WrongHash (file_hash h body) (the (vr_Files rel p)))) else retS bad)))"

definition verifyVaultRelease ::
  "('k, 's, 'n, 'x) vault_host_scheme \<Rightarrow> (string \<Rightarrow> ('n, string) io) \<Rightarrow> string \<Rightarrow> ('n, vaultRelease \<times> (string \<rightharpoonup> bad_file)) io" where
  "verifyVaultRelease h get pubB64 =
     (case b64_decode pubB64 of
        None \<Rightarrow> failS (Msg ''bad pinned vault release key'')
      | Some pub \<Rightarrow>
     if length pub \<noteq> 32 then failS (Msg ''bad pinned vault release key'')
     else bindS (wrapS (Ctx ''fetch signed release'') (get ''vault-release.json'')) (\<lambda>raw.
     bindS (liftS (optE (Ctx ''vault-release.json is not JSON'' BadJSON) (dec_release_env h raw))) (\<lambda>(manifest, sigB64).
     case b64_decode sigB64 of
        None \<Rightarrow> failS (Msg ''vault-release.json signature does NOT verify'')
      | Some sig \<Rightarrow>
     if \<not> h_ed_verify h pub (bytes_of manifest) sig then failS (Msg ''vault-release.json signature does NOT verify'')
     else bindS (liftS (optE (Ctx ''signed manifest'' BadJSON) (dec_release h manifest))) (\<lambda>rel.
     if vr_V rel \<noteq> 1 \<or> vr_Kind rel \<noteq> ''p3sig-vault-release-v1'' \<or> h_files_order h rel = []
     then failS (Msg ''signed manifest has an unknown kind/version or no files'')
     else bindS (foldS (check_file h get rel) Map.empty (h_files_order h rel)) (\<lambda>bad. retS (rel, bad))))))"

text \<open>The command; the list it prints is left out.\<close>

definition cmdVault :: "('k, 's, 'n, 'x) vault_host_scheme \<Rightarrow> string \<Rightarrow> flags \<Rightarrow> ('n, unit) io" where
  "cmdVault h sub f =
     (if sub \<noteq> ''verify'' then failS (Msg ''unknown vault subcommand'')
      else let base = siteBase (firstNonEmpty [flag f ''url'', getenv h ''P3SIG_URL'', defaultAPI])
        in bindS (verifyVaultRelease h (http_get h base) vaultReleaseKey) (\<lambda>(rel, bad).
           if list_ex (\<lambda>p. bad p \<noteq> None) (h_files_order h rel) then failS (Msg ''vault file(s) do not match the signed release'')
           else retS ()))"

section \<open>Paths\<close>

lemma join_sublist: "c \<in> set ys \<Longrightarrow> sublist c (join_with d ys)"
proof (induction d ys rule: join_with.induct)
  case (3 d w v ws)
  have "sublist (join_with d (v # ws)) (w @ d @ join_with d (v # ws))" "sublist w (w @ d @ join_with d (v # ws))"
    using sublist_append_leftI [of "join_with d (v # ws)" "w @ d"] by simp_all
  then show ?case
    using 3 by (auto intro: sublist_order.order_trans)
qed simp_all

lemma vault_path_inside:
  assumes "vaultPathRe p" "\<not> sublist ''..'' p"
  shows "prefix ''assets/js/'' p \<and> ''..'' \<notin> set (split_on slash p)"
  using assms join_sublist [of "''..''" "split_on slash p" "[slash]"] by (auto simp: vaultPathRe_def join_split)

section \<open>What the report means\<close>

text \<open>A site that answers each address always in the same way.\<close>

definition static_site :: "('k, 's, 'n, 'x) vault_host_scheme \<Rightarrow> (string \<Rightarrow> (int \<times> string) option) \<Rightarrow> bool" where
  "static_site h site \<longleftrightarrow> (\<forall>n u. h_get h n u = (site u, n))"

definition served_file :: "(string \<Rightarrow> (int \<times> string) option) \<Rightarrow> string \<Rightarrow> string \<Rightarrow> err + string" where
  "served_file site base p =
     (case site (base @ ''/'' @ p) of None \<Rightarrow> Inl Transport
      | Some (status, body) \<Rightarrow> if status \<noteq> 200 then Inl (Msg ''GET: HTTP status'') else Inr (take max_body body))"

lemma served_file_Inr:
  "served_file site base p = Inr body \<longleftrightarrow> (\<exists>b. site (base @ ''/'' @ p) = Some (200, b) \<and> body = take max_body b)"
  by (auto simp: served_file_def split: option.splits)

lemma http_get_static: "static_site h site \<Longrightarrow> http_get h base p s = (served_file site base p, s)"
  by (auto simp: static_site_def http_get_def served_file_def split: option.split)

text \<open>A file of the release is as signed.\<close>

definition file_good :: "('k, 's, 'n, 'x) vault_host_scheme \<Rightarrow> (string \<Rightarrow> (int \<times> string) option) \<Rightarrow> string \<Rightarrow> vaultRelease \<Rightarrow> string \<Rightarrow> bool" where
  "file_good h site base rel p \<longleftrightarrow> vaultPathRe p \<and> \<not> sublist ''..'' p \<and>
     (\<exists>body. site (base @ ''/'' @ p) = Some (200, body) \<and> vr_Files rel p = Some (file_hash h (take max_body body)))"

lemma check_file_static:
  assumes "static_site h site"
  shows "\<exists>bad'. check_file h (http_get h base) rel bad p s = (Inr bad', s) \<and>
    (\<forall>q. bad' q = None \<longleftrightarrow> bad q = None \<and> (q = p \<longrightarrow> file_good h site base rel p))"
proof (cases "\<not> vaultPathRe p \<or> sublist ''..'' p")
  case True
  then show ?thesis by (auto simp: check_file_def file_good_def)
next
  case False
  then show ?thesis
    by (cases "served_file site base p")
      (auto simp: check_file_def bindS_def tryS_def http_get_static [OF assms] file_good_def served_file_Inr
        served_file_def split: option.splits if_splits)
qed

lemma check_files_static:
  assumes "static_site h site"
  shows "\<exists>bad'. foldS (check_file h (http_get h base) rel) bad ps s = (Inr bad', s) \<and>
    (\<forall>q. bad' q = None \<longleftrightarrow> bad q = None \<and> (q \<in> set ps \<longrightarrow> file_good h site base rel q))"
proof (induction ps arbitrary: bad)
  case (Cons p ps)
  obtain b1 where b1: "check_file h (http_get h base) rel bad p s = (Inr b1, s)"
    "\<forall>q. b1 q = None \<longleftrightarrow> bad q = None \<and> (q = p \<longrightarrow> file_good h site base rel p)"
    using check_file_static [OF assms] by blast
  obtain b2 where "foldS (check_file h (http_get h base) rel) b1 ps s = (Inr b2, s)"
    "\<forall>q. b2 q = None \<longleftrightarrow> b1 q = None \<and> (q \<in> set ps \<longrightarrow> file_good h site base rel q)"
    using Cons.IH by blast
  with b1 show ?case by (auto simp: bindS_def)
qed simp

lemma release_key_bytes: "vaultReleaseKey = b64_encode [47, 12, 190, 86, 138, 197, 206, 171, 131, 116, 106, 249, 36, 100, 140, 116, 205, 237, 223, 251, 114, 189, 230, 160, 202, 50, 239, 94, 35, 209, 14, 115]"
  by (simp add: vaultReleaseKey_def quantum_def sextet_def low6_def Let_def b64_char_def char_of_def bit_Suc_0_iff)

lemma release_key_decodes: "\<exists>pub. b64_decode vaultReleaseKey = Some pub \<and> length pub = 32"
  unfolding release_key_bytes b64_decode_encode by (simp del: b64_encode.simps)

lemma verify_static:
  assumes site: "static_site h site" and pub: "b64_decode key = Some pub" "length pub = 32"
  shows "verifyVaultRelease h (http_get h base) key s = (Inr (rel, bad), t) \<longleftrightarrow>
    (\<exists>raw manifest sigB64 sig. served_file site base ''vault-release.json'' = Inr raw \<and>
      dec_release_env h raw = Some (manifest, sigB64) \<and> b64_decode sigB64 = Some sig \<and> h_ed_verify h pub (bytes_of manifest) sig \<and>
      dec_release h manifest = Some rel \<and> vr_V rel = 1 \<and> vr_Kind rel = ''p3sig-vault-release-v1'' \<and> h_files_order h rel \<noteq> [] \<and>
      foldS (check_file h (http_get h base) rel) Map.empty (h_files_order h rel) s = (Inr bad, t))"
    (is "?L \<longleftrightarrow> ?R")
proof
  assume ?L
  then show ?R
    unfolding verifyVaultRelease_def pub option.case
    by (cases "served_file site base ''vault-release.json''")
      (auto simp: pub(2) bindS_Inr http_get_static [OF site] wrapS_def split: option.splits if_splits prod.splits)
next
  assume ?R
  then show ?L
    unfolding verifyVaultRelease_def pub option.case
    by (elim exE conjE) (simp add: pub(2) bindS_def http_get_static [OF site] wrapS_def)
qed

text \<open>C15. \<open>p3sig vault verify\<close> succeeds on a site exactly when the site serves a manifest that the pinned release key signed, of the
  known kind and with at least one file, and serves each of its files, under \<open>assets/js/\<close> and without \<open>..\<close> in the path, with the
  signed hash: a site that changed a script, or lists no script, cannot pass, and one that serves the signed release does.\<close>

theorem vault_verify_iff:
  assumes site: "static_site h site" and order: "\<And>m rel. dec_release h m = Some rel \<Longrightarrow> enumerates (h_files_order h rel) (dom (vr_Files rel))"
    and base: "base = siteBase (firstNonEmpty [flag f ''url'', getenv h ''P3SIG_URL'', defaultAPI])"
  shows "(\<exists>t. cmdVault h ''verify'' f s = (Inr (), t)) \<longleftrightarrow>
    (\<exists>raw manifest sigB64 sig pub rel. site (base @ ''/'' @ ''vault-release.json'') = Some (200, raw) \<and>
       dec_release_env h (take max_body raw) = Some (manifest, sigB64) \<and> b64_decode sigB64 = Some sig \<and>
       b64_decode vaultReleaseKey = Some pub \<and> h_ed_verify h pub (bytes_of manifest) sig \<and> dec_release h manifest = Some rel \<and>
       vr_V rel = 1 \<and> vr_Kind rel = ''p3sig-vault-release-v1'' \<and> vr_Files rel \<noteq> Map.empty \<and>
       (\<forall>p \<in> dom (vr_Files rel). vaultPathRe p \<and> \<not> sublist ''..'' p \<and>
         (\<exists>body. site (base @ ''/'' @ p) = Some (200, body) \<and> vr_Files rel p = Some (file_hash h (take max_body body)))))"
    (is "?L \<longleftrightarrow> ?R")
proof -
  obtain pub where pub: "b64_decode vaultReleaseKey = Some pub" "length pub = 32" using release_key_decodes by blast
  have files: "set (h_files_order h rel) = dom (vr_Files rel)" if "dec_release h m = Some rel" for m rel
    using order [OF that] by (simp add: enumerates_def)
  have none: "h_files_order h rel = [] \<longleftrightarrow> vr_Files rel = Map.empty" if "dec_release h m = Some rel" for m rel
    using files [OF that] by (metis dom_eq_empty_conv set_empty)
  note verified = verify_static [OF site pub, of base s]
  have cmd: "cmdVault h ''verify'' f s = bindS (verifyVaultRelease h (http_get h base) vaultReleaseKey) (\<lambda>(rel, bad).
      if list_ex (\<lambda>p. bad p \<noteq> None) (h_files_order h rel) then failS (Msg ''vault file(s) do not match the signed release'')
      else retS ()) s"
    unfolding base by (simp add: cmdVault_def Let_def del: firstNonEmpty.simps)
  show ?thesis
  proof
    assume ?L
    then obtain t rel bad where v: "verifyVaultRelease h (http_get h base) vaultReleaseKey s = (Inr (rel, bad), t)"
      "\<not> list_ex (\<lambda>p. bad p \<noteq> None) (h_files_order h rel)"
      by (auto simp: cmd bindS_Inr split: if_splits)
    from v(1) obtain raw manifest sigB64 sig where r: "served_file site base ''vault-release.json'' = Inr raw"
      "dec_release_env h raw = Some (manifest, sigB64)" "b64_decode sigB64 = Some sig" "h_ed_verify h pub (bytes_of manifest) sig"
      "dec_release h manifest = Some rel" "vr_V rel = 1" "vr_Kind rel = ''p3sig-vault-release-v1''" "h_files_order h rel \<noteq> []"
      "foldS (check_file h (http_get h base) rel) Map.empty (h_files_order h rel) s = (Inr bad, t)"
      unfolding verified by blast
    have "\<forall>p \<in> dom (vr_Files rel). file_good h site base rel p"
      using check_files_static [OF site, of base rel Map.empty "h_files_order h rel" s] r(9) v(2)
      by (auto simp: list_ex_iff files [OF r(5)])
    then show ?R using r(1-7) r(8) [unfolded none [OF r(5)]] unfolding served_file_Inr file_good_def pub(1)
      by (elim exE conjE) (intro exI conjI; (assumption | simp))
  next
    assume ?R
    then obtain raw manifest sigB64 sig rel where r: "site (base @ ''/'' @ ''vault-release.json'') = Some (200, raw)"
      "dec_release_env h (take max_body raw) = Some (manifest, sigB64)" "b64_decode sigB64 = Some sig"
      "h_ed_verify h pub (bytes_of manifest) sig" "dec_release h manifest = Some rel" "vr_V rel = 1"
      "vr_Kind rel = ''p3sig-vault-release-v1''" "vr_Files rel \<noteq> Map.empty" "\<forall>p \<in> dom (vr_Files rel). file_good h site base rel p"
      unfolding file_good_def pub(1) option.inject by blast
    have raw: "served_file site base ''vault-release.json'' = Inr (take max_body raw)" using r(1) by (auto simp: served_file_Inr)
    obtain bad where bad: "foldS (check_file h (http_get h base) rel) Map.empty (h_files_order h rel) s = (Inr bad, s)"
      "\<forall>p \<in> set (h_files_order h rel). bad p = None"
      using check_files_static [OF site, of base rel Map.empty "h_files_order h rel" s] r(9) by (auto simp: files [OF r(5)])
    have "verifyVaultRelease h (http_get h base) vaultReleaseKey s = (Inr (rel, bad), s)"
      unfolding verified using raw r(2-7) r(8) [folded none [OF r(5)]] bad(1) by blast
    with bad(2) show ?L by (auto simp: cmd bindS_def list_ex_iff)
  qed
qed

section \<open>A site that passes\<close>

definition sample_release :: vaultRelease where
  "sample_release = \<lparr>vr_V = 1, vr_Kind = ''p3sig-vault-release-v1'', vr_Commit = ''c'', vr_BuiltAt = ''t'',
     vr_Files = [''assets/js/v.js'' \<mapsto> ''sha384-'' @ b64_encode (bytes_of ''x'')]\<rparr>"

definition sample_site :: "string \<Rightarrow> (int \<times> string) option" where
  "sample_site u = (if suffix ''/vault-release.json'' u then Some (200, ''M'') else if suffix ''/assets/js/v.js'' u then Some (200, ''x'') else None)"

definition sample_vault :: "(string, bytes, unit) vault_host" where
  "sample_vault = usb_host.extend example_host
     \<lparr>h_get = (\<lambda>n u. (sample_site u, n)), h_ed_verify = (\<lambda>k m sig. sig = m), h_sha384 = (\<lambda>b. b),
      dec_release_env = (\<lambda>x. Some (x, b64_encode (bytes_of x))), dec_release = (\<lambda>_. Some sample_release),
      h_files_order = (\<lambda>_. [''assets/js/v.js''])\<rparr>"

theorem vault_verify_iff_witness:
  "\<exists>t. cmdVault sample_vault ''verify'' Map.empty example_world = (Inr (), t)"
proof -
  obtain pub where pub: "b64_decode vaultReleaseKey = Some pub" using release_key_decodes by blast
  have site: "static_site sample_vault sample_site"
    by (simp add: static_site_def sample_vault_def usb_host.defs)
  have order: "dec_release sample_vault m = Some rel \<Longrightarrow> enumerates (h_files_order sample_vault rel) (dom (vr_Files rel))" for m rel
    by (auto simp: sample_vault_def usb_host.defs enumerates_def sample_release_def split: if_splits)
  have at: "sample_site (base @ ''/'' @ ''vault-release.json'') = Some (200, ''M'')"
    "sample_site (base @ ''/'' @ ''assets/js/v.js'') = Some (200, ''x'')" for base
    by (simp_all add: sample_site_def suffix_def)
  have short: "take max_body ''M'' = ''M''" "take max_body ''x'' = ''x''" by (simp_all add: max_body_def)
  have path: "vaultPathRe ''assets/js/v.js'' \<and> \<not> sublist ''..'' ''assets/js/v.js''" by code_simp
  have good: "\<forall>p \<in> dom (vr_Files sample_release). vaultPathRe p \<and> \<not> sublist ''..'' p \<and>
      (\<exists>body. sample_site (base @ ''/'' @ p) = Some (200, body) \<and> vr_Files sample_release p = Some (file_hash sample_vault (take max_body body)))" for base
    using path at(2) [of base] short(2) by (simp add: sample_release_def file_hash_def sample_vault_def usb_host.defs del: b64_encode.simps)
  show ?thesis
    by (rule iffD2 [OF vault_verify_iff [OF site order refl]], assumption, intro exI conjI, rule at(1), unfold short(1), simp add: sample_vault_def usb_host.defs, rule b64_decode_encode, rule pub,
      simp add: sample_vault_def usb_host.defs, simp add: sample_vault_def usb_host.defs, simp add: sample_release_def, simp add: sample_release_def,
      simp add: sample_release_def fun_eq_iff, rule good)
qed

end
