(* ===== verification/Keyserver.thy ===== *)
theory Keyserver
  imports Wrap Base64 GoTime GoStrings
begin

text \<open>
  The key server (\<open>keyserver.go\<close>): its configuration, the checks of \<open>unwrap\<close> in the order
  of the code, the replay guard and rate limit of \<open>admit\<close>, the HTTP handler with its event log,
  the reload on SIGHUP, the statistics, and \<open>seal\<close>. Cryptography, JSON and IP parsing are
  parameters.
\<close>

section \<open>The code\<close>

definition ksSigContext :: string where "ksSigContext = ''p3sig-ks-v1''"
definition ksBundleAAD :: string where "ksBundleAAD = ''p3sig-bundle-v1''"
definition ksMaxBody :: nat where "ksMaxBody = 16384"
definition ksClockSkew :: int where "ksClockSkew = 60 * second"
definition ksDefaultLabel :: string where "ksDefaultLabel = ''keyserver''"
definition ksRatePerMin :: nat where "ksRatePerMin = 30"

record ksApp =
  a_Key :: string
  a_IPs :: "string list"

record ksConfig =
  c_Label :: string
  c_ClientIPHeader :: string
  c_EventsFile :: string
  c_Apps :: "string \<rightharpoonup> ksApp"

record ksRequest =
  r_App :: string
  r_TS :: int
  r_Wrap :: string
  r_Reply :: string
  r_Sig :: string
  r_Why :: string

record ksEvent =
  e_T :: int
  e_App :: string
  e_IP :: string
  e_OK :: bool
  e_Why :: string
  e_Err :: string

text \<open>\<open>ksRefusal\<close> and the other errors \<open>unwrap\<close> can return.\<close>

datatype ks_error = KsRefusal nat string | KsOther string

text \<open>
  What the server calls outside \<open>src/\<close>: SHA-256, Ed25519 verification, \<open>net.ParseIP\<close> (in its
  16-byte form), \<open>IP.IsLoopback\<close>, the host of \<open>net.SplitHostPort\<close>, the JSON decoder of requests
  (with the value it leaves behind on failure), the chip, and the sealed box with the
  randomness it draws.
\<close>

record ks_env =
  k_sha :: "bytes \<Rightarrow> bytes"
  k_verify :: "bytes \<Rightarrow> bytes \<Rightarrow> bytes \<Rightarrow> bool"
  k_parse_ip :: "string \<Rightarrow> bytes option"
  k_loopback :: "bytes \<Rightarrow> bool"
  k_split_host :: "string \<Rightarrow> string option"
  k_parse_req :: "bytes \<Rightarrow> ksRequest \<times> bool"
  k_wrap :: wrap_crypto
  k_agree :: "string \<Rightarrow> bytes \<Rightarrow> wrap_error + bytes"
  k_box :: "bytes \<Rightarrow> bytes \<Rightarrow> bytes \<Rightarrow> bytes"
  k_events_open :: "string \<Rightarrow> bool"

text \<open>
  The fields of \<open>keyServer\<close> that change and the events appended to the file, in order. A missing key of \<open>rate\<close> reads as the empty slice.
\<close>

record ks_state =
  s_cfg :: ksConfig
  s_seen :: "string \<rightharpoonup> int"
  s_rate :: "string \<Rightarrow> int list"
  s_events :: "ksEvent list"

definition newKeyServer :: "ksConfig \<Rightarrow> ks_state" where
  "newKeyServer cfg = \<lparr>s_cfg = cfg, s_seen = Map.empty, s_rate = (\<lambda>_. []), s_events = []\<rparr>"

subsection \<open>Configuration\<close>

datatype ks_cfg_error = KsBadJson | KsBadKey string | KsBadIP string string

definition check_app :: "ks_env \<Rightarrow> string \<Rightarrow> ksApp \<Rightarrow> ks_cfg_error + unit" where
  "check_app env aid a =
     (case b64_decode (a_Key a) of
        None \<Rightarrow> Inl (KsBadKey aid)
      | Some k \<Rightarrow> if length k \<noteq> 32 then Inl (KsBadKey aid)
          else foldE (\<lambda>_ ip. if k_parse_ip env ip = None then Inl (KsBadIP aid ip) else Inr ()) () (a_IPs a))"

text \<open>\<open>parsed\<close> is what \<open>json.Unmarshal\<close> made of the file, \<open>order\<close> the order in which the apps are visited.\<close>

definition loadKSConfig :: "ks_env \<Rightarrow> string list \<Rightarrow> ksConfig option \<Rightarrow> ks_cfg_error + ksConfig" where
  "loadKSConfig env order parsed =
     bindE (optE KsBadJson parsed) (\<lambda>c.
       let c = (if c_Label c = [] then c\<lparr>c_Label := ksDefaultLabel\<rparr> else c)
       in bindE (foldE (\<lambda>_ aid. case c_Apps c aid of None \<Rightarrow> Inr () | Some a \<Rightarrow> check_app env aid a) () order)
            (\<lambda>_. Inr c))"

text \<open>SIGHUP: \<open>label0\<close> is the label the server was started with.\<close>

definition ks_reload :: "string \<Rightarrow> ks_cfg_error + ksConfig \<Rightarrow> ks_state \<Rightarrow> ks_state" where
  "ks_reload label0 next s =
     (case next of Inl _ \<Rightarrow> s
      | Inr c \<Rightarrow> if c_Label c \<noteq> label0 then s else s\<lparr>s_cfg := c\<rparr>)"

subsection \<open>The client's address\<close>

text \<open>\<open>header\<close> is the value of the configured header, \<open>''''\<close> when absent.\<close>

definition clientIP :: "ks_env \<Rightarrow> ksConfig \<Rightarrow> string \<Rightarrow> string \<Rightarrow> string" where
  "clientIP env cfg remoteAddr header =
     (let host = (case k_split_host env remoteAddr of Some h \<Rightarrow> h | None \<Rightarrow> remoteAddr)
      in if c_ClientIPHeader cfg \<noteq> [] then
           (case k_parse_ip env host of
              Some ip \<Rightarrow> (let v = trim_space (hd (split_on CHR '','' header))
                in if k_loopback env ip \<and> v \<noteq> [] then v else host)
            | None \<Rightarrow> host)
         else host)"

definition ksIPAllowed :: "ks_env \<Rightarrow> string list \<Rightarrow> string \<Rightarrow> bool" where
  "ksIPAllowed env allowed ip =
     (let got = k_parse_ip env ip in list_ex (\<lambda>a. got \<noteq> None \<and> got = k_parse_ip env a) allowed)"

subsection \<open>The signed request\<close>

definition ksSigMessage :: "ks_env \<Rightarrow> string \<Rightarrow> int \<Rightarrow> bytes \<Rightarrow> string \<Rightarrow> bytes" where
  "ksSigMessage env app ts wrap reply =
     bytes_of (ksSigContext @ ''|'' @ app @ ''|'' @ format_int ts @ ''|'' @ hex_encode (k_sha env wrap)
       @ ''|'' @ reply)"

subsection \<open>Replay guard and rate limit\<close>

definition purge_seen :: "int \<Rightarrow> (string \<rightharpoonup> int) \<Rightarrow> (string \<rightharpoonup> int)" where
  "purge_seen now m = (\<lambda>k. case m k of None \<Rightarrow> None | Some exp \<Rightarrow> if now > exp then None else Some exp)"

text \<open>
  \<open>recent := s.rate[app][:0]\<close> and the loop that appends to it: the writes go into the array
  that is being read. \<open>arr\<close> is that array, \<open>i\<close> the index read next, \<open>w\<close> the length of \<open>recent\<close>.
\<close>

function compact :: "int \<Rightarrow> nat \<Rightarrow> nat \<Rightarrow> int list \<Rightarrow> int list \<times> nat" where
  "compact now i w arr =
     (if i < length arr then
        (if timeSub now (arr ! i) < minute then compact now (i + 1) (w + 1) (arr[w := arr ! i])
         else compact now (i + 1) w arr)
      else (arr, w))"
  by pat_completeness auto
termination by (relation "measure (\<lambda>(now, i, w, arr). length arr - i)") auto

declare compact.simps [simp del]

definition admit :: "ks_env \<Rightarrow> string \<Rightarrow> bytes \<Rightarrow> int \<Rightarrow> (ks_state, ks_error, unit) act" where
  "admit env app sig now s =
     (let s = s\<lparr>s_seen := purge_seen now (s_seen s)\<rparr>;
          key = hex_encode (k_sha env sig)
      in if s_seen s key \<noteq> None then (Inl (KsRefusal 403 ''replayed request''), s)
         else case compact now 0 0 (s_rate s app) of (arr, w) \<Rightarrow>
           let recent = take w arr
           in if length recent \<ge> ksRatePerMin
              then (Inl (KsRefusal 429 ''rate limit''), s\<lparr>s_rate := (s_rate s)(app := recent)\<rparr>)
              else (Inr (), s\<lparr>s_rate := (s_rate s)(app := recent @ [now]),
                             s_seen := (s_seen s)(key \<mapsto> now + 2 * ksClockSkew)\<rparr>))"

subsection \<open>\<open>unwrap\<close>\<close>

definition wrap_error_text :: "wrap_error \<Rightarrow> string" where
  "wrap_error_text e = (case e of
       ErrBadFormat \<Rightarrow> ''wrap: malformed blob''
     | ErrUnsupportedScheme \<Rightarrow> ''wrap: unsupported scheme''
     | ErrVersion \<Rightarrow> ''wrap: unsupported version''
     | ErrUnwrap \<Rightarrow> ''wrap: unwrap failed''
     | ErrAgree t \<Rightarrow> t)"

text \<open>Everything before \<open>admit\<close>: the key, the fields and the address are checked, nothing changes.\<close>

definition precheck :: "ks_env \<Rightarrow> ksConfig \<Rightarrow> int \<Rightarrow> ksRequest \<Rightarrow> string \<Rightarrow> ks_error + (bytes \<times> bytes \<times> bytes)" where
  "precheck env cfg now req ip =
     (case c_Apps cfg (r_App req) of
        None \<Rightarrow> Inl (KsRefusal 403 ''unknown app'')
      | Some app \<Rightarrow>
         (let d = timeSub now (timeUnix (r_TS req))
          in if d > ksClockSkew \<or> d < - ksClockSkew then Inl (KsRefusal 403 ''timestamp outside 60s'')
          else case (b64_decode (r_Wrap req), b64_decode (r_Reply req), b64_decode (r_Sig req)) of
            (Some wrap, Some reply, Some sig) \<Rightarrow>
              if length reply \<noteq> 32 \<or> length sig \<noteq> 64 then Inl (KsRefusal 400 ''malformed fields'')
              else let pub = (case b64_decode (a_Key app) of Some k \<Rightarrow> k | None \<Rightarrow> [])
                in if \<not> k_verify env pub (ksSigMessage env (r_App req) (r_TS req) wrap (r_Reply req)) sig
                   then Inl (KsRefusal 403 ''bad signature'')
                   else if length (a_IPs app) > 0 \<and> \<not> ksIPAllowed env (a_IPs app) ip
                   then Inl (KsRefusal 403 ''address not allowed for this app (stolen key?)'')
                   else Inr (wrap, reply, sig)
          | _ \<Rightarrow> Inl (KsRefusal 400 ''malformed fields'')))"

text \<open>\<open>rnd\<close> is what \<open>box.SealAnonymous\<close> draws.\<close>

definition ks_unwrap :: "ks_env \<Rightarrow> bytes \<Rightarrow> int \<Rightarrow> ksRequest \<Rightarrow> string \<Rightarrow> (ks_state, ks_error, bytes) act" where
  "ks_unwrap env rnd now req ip s =
     (case precheck env (s_cfg s) now req ip of
        Inl e \<Rightarrow> (Inl e, s)
      | Inr (wrap, reply, sig) \<Rightarrow>
          bindS (admit env (r_App req) sig now) (\<lambda>_ s.
            case UnwrapECDH (k_wrap env) wrap (k_agree env (c_Label (s_cfg s))) of
              Inl e \<Rightarrow> (Inl (KsRefusal 403 (''wrap does not open with this key server's chip: ''
                           @ wrap_error_text e)), s)
            | Inr bundleKey \<Rightarrow> (Inr (k_box env rnd bundleKey reply), s)) s)"

subsection \<open>Events and the HTTP handler\<close>

text \<open>\<open>^[a-z][a-z-]{0,15}$\<close>\<close>

definition ksWhyOK :: "string \<Rightarrow> bool" where
  "ksWhyOK w \<longleftrightarrow> w \<noteq> [] \<and> length w \<le> 16 \<and> (CHR ''a'' \<le> hd w \<and> hd w \<le> CHR ''z'')
     \<and> list_all (\<lambda>c. (CHR ''a'' \<le> c \<and> c \<le> CHR ''z'') \<or> c = CHR ''-'') (tl w)"

definition ksWhy :: "string \<Rightarrow> string" where
  "ksWhy w = (if ksWhyOK w then w else ''unknown'')"

text \<open>\<open>record\<close>: one event, unless there is no events file or it cannot be opened.\<close>

definition ks_record :: "ks_env \<Rightarrow> int \<Rightarrow> ksEvent \<Rightarrow> ks_state \<Rightarrow> ks_state" where
  "ks_record env now e s =
     (let path = c_EventsFile (s_cfg s)
      in if path = [] then s
         else if \<not> k_events_open env path then s
         else s\<lparr>s_events := s_events s @ [e\<lparr>e_T := unixOf now\<rparr>]\<rparr>)"

text \<open>The response: a status other than 200 has no body of its own.\<close>

datatype ks_response = KsStatus nat | KsSealed string

definition ks_refuse :: "ks_env \<Rightarrow> int \<Rightarrow> string \<Rightarrow> string \<Rightarrow> nat \<Rightarrow> string \<Rightarrow> string \<Rightarrow> ks_state
    \<Rightarrow> ks_response \<times> ks_state" where
  "ks_refuse env now ip reqWhy code app why s =
     (KsStatus code,
      if c_Apps (s_cfg s) app \<noteq> None
      then ks_record env now \<lparr>e_T = 0, e_App = app, e_IP = ip, e_OK = False, e_Why = ksWhy reqWhy, e_Err = why\<rparr> s
      else s)"

text \<open>
  \<open>body\<close> is \<open>None\<close> when reading it fails. \<open>now1\<close> is the clock in \<open>unwrap\<close>, \<open>now2\<close> the later reading in
  \<open>record\<close>. The JSON decoder may leave part of a value behind when it fails; the code then still
  passes its \<open>Why\<close> to \<open>refuse\<close>.
\<close>

definition handleUnwrap ::
  "ks_env \<Rightarrow> bytes \<Rightarrow> int \<Rightarrow> int \<Rightarrow> string \<Rightarrow> string \<Rightarrow> string \<Rightarrow> bytes option \<Rightarrow> ks_state
    \<Rightarrow> ks_response \<times> ks_state" where
  "handleUnwrap env rnd now1 now2 method remoteAddr header body s =
     (let ip = clientIP env (s_cfg s) remoteAddr header
      in if method \<noteq> ''POST'' then ks_refuse env now2 ip [] 405 [] (''method '' @ method) s
         else case map_option (take (ksMaxBody + 1)) body of
           None \<Rightarrow> ks_refuse env now2 ip [] 413 [] ''body too large or unreadable'' s
         | Some b \<Rightarrow>
             if length b > ksMaxBody then ks_refuse env now2 ip [] 413 [] ''body too large or unreadable'' s
             else case k_parse_req env b of (req, ok) \<Rightarrow>
               if \<not> ok then ks_refuse env now2 ip (r_Why req) 400 [] ''bad json'' s
               else case ks_unwrap env rnd now1 req ip s of
                 (Inl (KsRefusal code why), s) \<Rightarrow> ks_refuse env now2 ip (r_Why req) code (r_App req) why s
               | (Inl (KsOther _), s) \<Rightarrow> (KsStatus 500, s)
               | (Inr sealed, s) \<Rightarrow>
                   (KsSealed (b64_encode sealed),
                    ks_record env now2 \<lparr>e_T = 0, e_App = r_App req, e_IP = ip, e_OK = True,
                      e_Why = ksWhy (r_Why req), e_Err = []\<rparr> s))"

subsection \<open>Statistics\<close>

record ks_row =
  w_cold :: nat
  w_refresh :: nat
  w_other :: nat
  w_refused :: nat

definition zero_row :: ks_row where
  "zero_row = \<lparr>w_cold = 0, w_refresh = 0, w_other = 0, w_refused = 0\<rparr>"

record ks_stats =
  p_per :: "string \<times> int \<Rightarrow> ks_row option"
  p_lastCold :: "string \<Rightarrow> int"
  p_refusedWhy :: "string \<times> string \<Rightarrow> nat"

definition day_ns :: int where "day_ns = 24 * 60 * minute"

text \<open>
  The rows are keyed by the app and the UTC day number instead of its date. \<open>AddDate\<close> and \<open>Truncate\<close> on
  UTC days are arithmetic on days.
\<close>

definition stats_since :: "int \<Rightarrow> int \<Rightarrow> int" where
  "stats_since now days = (now + (1 - days) * day_ns) div day_ns * day_ns"

definition count_event :: "ksEvent \<Rightarrow> ks_row \<Rightarrow> ks_row" where
  "count_event e r =
     (if \<not> e_OK e then r\<lparr>w_refused := w_refused r + 1\<rparr>
      else if prefix ''cold'' (e_Why e) then r\<lparr>w_cold := w_cold r + 1\<rparr>
      else if prefix ''refresh'' (e_Why e) then r\<lparr>w_refresh := w_refresh r + 1\<rparr>
      else r\<lparr>w_other := w_other r + 1\<rparr>)"

definition stats_event :: "int \<Rightarrow> ks_stats \<Rightarrow> ksEvent \<Rightarrow> ks_stats" where
  "stats_event since st e =
     (let t = timeUnix (e_T e);
          st = (if prefix ''cold'' (e_Why e) \<and> e_OK e \<and> t > p_lastCold st (e_App e)
                then st\<lparr>p_lastCold := (p_lastCold st)(e_App e := t)\<rparr> else st)
      in if t < since then st
         else let k = (e_App e, t div day_ns);
                  r = (case p_per st k of None \<Rightarrow> zero_row | Some r \<Rightarrow> r);
                  st = st\<lparr>p_per := (p_per st)(k \<mapsto> count_event e r)\<rparr>
           in if e_OK e then st
              else let w = (e_App e, e_Err e)
                in st\<lparr>p_refusedWhy := (p_refusedWhy st)(w := p_refusedWhy st w + 1)\<rparr>)"

text \<open>The events are the lines of the file that parse.\<close>

definition ks_count :: "(string \<Rightarrow> ksEvent option) \<Rightarrow> string \<Rightarrow> int \<Rightarrow> int \<Rightarrow> ks_stats" where
  "ks_count parse b now days =
     foldl (stats_event (stats_since now days))
       \<lparr>p_per = Map.empty, p_lastCold = (\<lambda>_. 0), p_refusedWhy = (\<lambda>_. 0)\<rparr>
       (List.map_filter (\<lambda>ln. if ln = [] then None else parse ln) (split_on nl b))"

subsection \<open>\<open>seal\<close>\<close>

record ksBundle =
  b_V :: int
  b_Wraps :: "string \<rightharpoonup> string"
  b_Nonce :: string
  b_CT :: string

definition ksServerID :: "ks_env \<Rightarrow> bytes \<Rightarrow> string" where
  "ksServerID env point = take 16 (b64rawurl_encode (k_sha env point))"

text \<open>
  \<open>xseal\<close> is XChaCha20-Poly1305, \<open>valid\<close> what \<open>NewPublicKey\<close> accepts; \<open>draws\<close> gives for each point the ephemeral
  key and nonce \<open>WrapECDH\<close> draws.
\<close>

definition seal_to ::
  "ks_env \<Rightarrow> (bytes \<Rightarrow> bool) \<Rightarrow> bytes \<Rightarrow> (string \<rightharpoonup> string) \<Rightarrow> bytes \<times> bytes \<times> bytes \<Rightarrow> ks_error + (string \<rightharpoonup> string)" where
  "seal_to env valid key wraps d =
     (case d of (p, eph, n) \<Rightarrow>
        if \<not> valid p then Inl (KsOther ''key server point'')
        else case wrapECDHWith (k_wrap env) key p eph n of
          Inl e \<Rightarrow> Inl (KsOther (wrap_error_text e))
        | Inr w \<Rightarrow> Inr (wraps(ksServerID env p \<mapsto> b64_encode w)))"

definition sealKSBundle ::
  "ks_env \<Rightarrow> (bytes \<Rightarrow> bool) \<Rightarrow> (bytes \<Rightarrow> bytes \<Rightarrow> bytes \<Rightarrow> bytes \<Rightarrow> bytes) \<Rightarrow> bytes \<Rightarrow> (bytes \<times> bytes) list \<Rightarrow> bytes
    \<Rightarrow> bytes \<Rightarrow> bytes list \<Rightarrow> ks_error + ksBundle" where
  "sealKSBundle env valid xseal key draws nonce values points =
     bindE (foldE (seal_to env valid key)
            Map.empty (zip points draws))
       (\<lambda>wraps. Inr \<lparr>b_V = 1, b_Wraps = wraps, b_Nonce = b64_encode nonce,
          b_CT = b64_encode (xseal key nonce values (bytes_of ksBundleAAD))\<rparr>)"

text \<open>The flags of \<open>keyserver seal\<close>: the points, \<open>--in\<close> and \<open>--out\<close>.\<close>

datatype ks_seal_error = NeedsValue string | BadPub | UnknownFlag string | SealUsage

fun seal_flags :: "string list \<Rightarrow> bytes list \<times> string \<times> string \<Rightarrow> ks_seal_error + (bytes list \<times> string \<times> string)" where
  "seal_flags [] acc = Inr acc"
| "seal_flags [a] acc = Inl (NeedsValue a)"
| "seal_flags (a # v # rest) (points, inp, out) =
     (if a = ''--pub'' then
        (case b64_decode v of None \<Rightarrow> Inl BadPub | Some p \<Rightarrow> seal_flags rest (points @ [p], inp, out))
      else if a = ''--in'' then seal_flags rest (points, v, out)
      else if a = ''--out'' then seal_flags rest (points, inp, v)
      else Inl (UnknownFlag a))"

definition seal_args :: "string list \<Rightarrow> ks_seal_error + (bytes list \<times> string \<times> string)" where
  "seal_args args =
     bindE (seal_flags args ([], [], [])) (\<lambda>(points, inp, out).
       if points = [] \<or> inp = [] \<or> out = [] then Inl SealUsage else Inr (points, inp, out))"

section \<open>The loop over the shared array is a filter\<close>

definition recent_of :: "int \<Rightarrow> int list \<Rightarrow> int list" where
  "recent_of now ts = filter (\<lambda>t. now - t < minute) ts"

lemma timeSub_minute: "timeSub now t < minute \<longleftrightarrow> now - t < minute"
  by (rule timeSub_less) (simp_all add: minute_def second_def)

lemma compact_filter:
  "w \<le> i \<Longrightarrow> i \<le> length arr \<Longrightarrow>
   (case compact now i w arr of (arr', w') \<Rightarrow> take w' arr') = take w arr @ recent_of now (drop i arr)"
proof (induction now i w arr rule: compact.induct)
  case (1 now i w arr)
  show ?case
  proof (cases "i < length arr")
    case True
    let ?arr = "arr[w := arr ! i]"
    have d: "drop i arr = arr ! i # drop (Suc i) arr" using True by (rule Cons_nth_drop_Suc [symmetric])
    have "take (Suc w) ?arr = take w arr @ [arr ! i]" "drop (Suc i) ?arr = drop (Suc i) arr"
      using True 1(3) by (simp_all add: take_Suc_conv_app_nth)
    then show ?thesis
      using 1 True by (subst compact.simps) (auto simp: d recent_of_def timeSub_minute)
  next
    case False
    then show ?thesis using 1(4) by (subst compact.simps) (simp add: recent_of_def)
  qed
qed

lemma compact_recent: "(case compact now 0 0 arr of (arr', w) \<Rightarrow> take w arr') = recent_of now arr"
  using compact_filter [of 0 0 arr now] by simp

lemma admit_eq:
  "admit env app sig now s =
     (let seen = purge_seen now (s_seen s); key = hex_encode (k_sha env sig); recent = recent_of now (s_rate s app)
      in if seen key \<noteq> None then (Inl (KsRefusal 403 ''replayed request''), s\<lparr>s_seen := seen\<rparr>)
         else if 30 \<le> length recent
         then (Inl (KsRefusal 429 ''rate limit''), s\<lparr>s_seen := seen, s_rate := (s_rate s)(app := recent)\<rparr>)
         else (Inr (), s\<lparr>s_rate := (s_rate s)(app := recent @ [now]), s_seen := seen(key \<mapsto> now + 2 * ksClockSkew)\<rparr>))"
  using compact_recent [of now "s_rate s app"]
  by (simp add: admit_def Let_def ksRatePerMin_def case_prod_unfold del: length_take)

section \<open>The server as a state machine\<close>

text \<open>
  A run of the server: requests, events and reloads, with the log of the requests \<open>admit\<close> let
  through. Requests take the clock in the order in which they reach \<open>admit\<close>; times do not go back.
\<close>

definition ks_admits :: "ks_env \<Rightarrow> int \<Rightarrow> ksRequest \<Rightarrow> string \<Rightarrow> ks_state \<Rightarrow> bool" where
  "ks_admits env now req ip s =
     (case precheck env (s_cfg s) now req ip of
        Inl _ \<Rightarrow> False
      | Inr (wrap, reply, sig) \<Rightarrow> (case fst (admit env (r_App req) sig now s) of Inl _ \<Rightarrow> False | Inr _ \<Rightarrow> True))"

inductive ks_run :: "ks_env \<Rightarrow> ksConfig \<Rightarrow> ks_state \<Rightarrow> int \<Rightarrow> (int \<times> ksRequest) list \<Rightarrow> bool"
  for env :: ks_env and cfg0 :: ksConfig where
  start: "ks_run env cfg0 (newKeyServer cfg0) clock []"
| request: "ks_run env cfg0 s clock log \<Longrightarrow> clock \<le> now \<Longrightarrow>
    ks_run env cfg0 (snd (ks_unwrap env rnd now req ip s)) now
      (if ks_admits env now req ip s then log @ [(now, req)] else log)"
| event: "ks_run env cfg0 s clock log \<Longrightarrow> ks_run env cfg0 (ks_record env now e s) clock log"
| reload: "ks_run env cfg0 s clock log \<Longrightarrow> (\<And>c. parsed = Some c \<Longrightarrow> enumerates order (dom (c_Apps c))) \<Longrightarrow>
    ks_run env cfg0 (ks_reload (c_Label cfg0) (loadKSConfig env order parsed) s) clock log"

lemma admit_keeps [simp]: "s_cfg (snd (admit env app sig now s)) = s_cfg s"
  by (simp add: admit_eq Let_def)

lemma unwrap_state:
  "snd (ks_unwrap env rnd now req ip s) =
     (case precheck env (s_cfg s) now req ip of
        Inl _ \<Rightarrow> s | Inr (wrap, reply, sig) \<Rightarrow> snd (admit env (r_App req) sig now s))"
  by (auto simp: ks_unwrap_def bindS_def split: sum.splits prod.splits)

lemma record_keeps [simp]: "s_seen (ks_record env now e s) = s_seen s" "s_rate (ks_record env now e s) = s_rate s"
  "s_cfg (ks_record env now e s) = s_cfg s"
  by (simp_all add: ks_record_def Let_def)

lemma reload_keeps [simp]: "s_seen (ks_reload l n s) = s_seen s" "s_rate (ks_reload l n s) = s_rate s"
  by (simp_all add: ks_reload_def split: sum.splits)

text \<open>A run keeps the label of the chip key.\<close>

lemma run_label: "ks_run env cfg0 s clock log \<Longrightarrow> c_Label (s_cfg s) = c_Label cfg0"
  by (induction rule: ks_run.induct)
    (auto simp: newKeyServer_def unwrap_state ks_reload_def split: sum.splits)

lemma precheck_Inr:
  "precheck env cfg now req ip = Inr (wrap, reply, sig) \<longleftrightarrow>
     (\<exists>app. c_Apps cfg (r_App req) = Some app \<and>
        timeSub now (timeUnix (r_TS req)) \<le> ksClockSkew \<and> - ksClockSkew \<le> timeSub now (timeUnix (r_TS req)) \<and>
        b64_decode (r_Wrap req) = Some wrap \<and> b64_decode (r_Reply req) = Some reply \<and>
        b64_decode (r_Sig req) = Some sig \<and> length reply = 32 \<and> length sig = 64 \<and>
        k_verify env (case b64_decode (a_Key app) of Some k \<Rightarrow> k | None \<Rightarrow> [])
          (ksSigMessage env (r_App req) (r_TS req) wrap (r_Reply req)) sig \<and>
        (a_IPs app = [] \<or> ksIPAllowed env (a_IPs app) ip))"
  by (auto simp: precheck_def Let_def split: option.splits)

lemma skew_iff:
  "timeSub now u \<le> ksClockSkew \<longleftrightarrow> now - u \<le> ksClockSkew"
  "- ksClockSkew \<le> timeSub now u \<longleftrightarrow> - ksClockSkew \<le> now - u"
  by (rule timeSub_le timeSub_ge; simp add: ksClockSkew_def second_def)+

lemma admits_iff:
  "ks_admits env now req ip s \<longleftrightarrow> (\<exists>wrap reply sig. precheck env (s_cfg s) now req ip = Inr (wrap, reply, sig) \<and>
     purge_seen now (s_seen s) (hex_encode (k_sha env sig)) = None \<and> length (recent_of now (s_rate s (r_App req))) < 30)"
  by (auto simp: ks_admits_def admit_eq Let_def split: sum.splits)

definition sig_key :: "ks_env \<Rightarrow> ksRequest \<Rightarrow> string" where
  "sig_key env req = (case b64_decode (r_Sig req) of Some sig \<Rightarrow> hex_encode (k_sha env sig) | None \<Rightarrow> [])"

lemma admits_props:
  assumes "ks_admits env now req ip s"
  shows "purge_seen now (s_seen s) (sig_key env req) = None"
    "length (recent_of now (s_rate s (r_App req))) < 30"
    "\<bar>now - timeUnix (r_TS req)\<bar> \<le> ksClockSkew"
    "snd (ks_unwrap env rnd now req ip s) =
       s\<lparr>s_rate := (s_rate s)(r_App req := recent_of now (s_rate s (r_App req)) @ [now]),
         s_seen := (purge_seen now (s_seen s))(sig_key env req \<mapsto> now + 2 * ksClockSkew)\<rparr>"
proof -
  from assms obtain wrap reply sig where c: "precheck env (s_cfg s) now req ip = Inr (wrap, reply, sig)"
    "purge_seen now (s_seen s) (hex_encode (k_sha env sig)) = None"
    "length (recent_of now (s_rate s (r_App req))) < 30"
    by (auto simp: admits_iff)
  then have k: "sig_key env req = hex_encode (k_sha env sig)"
    by (auto simp: precheck_Inr sig_key_def)
  show "purge_seen now (s_seen s) (sig_key env req) = None"
    "length (recent_of now (s_rate s (r_App req))) < 30"
    using c by (simp_all add: k)
  show "\<bar>now - timeUnix (r_TS req)\<bar> \<le> ksClockSkew"
    using c(1) by (auto simp: precheck_Inr skew_iff)
  show "snd (ks_unwrap env rnd now req ip s) =
       s\<lparr>s_rate := (s_rate s)(r_App req := recent_of now (s_rate s (r_App req)) @ [now]),
         s_seen := (purge_seen now (s_seen s))(sig_key env req \<mapsto> now + 2 * ksClockSkew)\<rparr>"
    using c by (simp add: unwrap_state admit_eq Let_def k)
qed

lemma not_admits_state:
  assumes "\<not> ks_admits env now req ip s"
  shows "s_seen (snd (ks_unwrap env rnd now req ip s)) \<in> {s_seen s, purge_seen now (s_seen s)}"
    "s_rate (snd (ks_unwrap env rnd now req ip s)) a \<in> {s_rate s a, recent_of now (s_rate s a)}"
  using assms
  by (auto simp: ks_admits_def unwrap_state admit_eq Let_def split: sum.splits if_splits)

definition times_of :: "string \<Rightarrow> (int \<times> ksRequest) list \<Rightarrow> int list" where
  "times_of a log = map fst (filter (\<lambda>e. r_App (snd e) = a) log)"

text \<open>What the state knows about the log.\<close>

definition ks_inv :: "ks_env \<Rightarrow> ks_state \<Rightarrow> int \<Rightarrow> (int \<times> ksRequest) list \<Rightarrow> bool" where
  "ks_inv env s clock log \<longleftrightarrow>
     (\<forall>(t, req) \<in> set log. t \<le> clock \<and> \<bar>t - timeUnix (r_TS req)\<bar> \<le> ksClockSkew \<and>
        (clock \<le> t + 2 * ksClockSkew \<longrightarrow>
           (case s_seen s (sig_key env req) of None \<Rightarrow> False | Some exp \<Rightarrow> t + 2 * ksClockSkew \<le> exp))) \<and>
     (\<forall>a. recent_of clock (times_of a log) = recent_of clock (s_rate s a))"

lemma recent_recent: "clock \<le> now \<Longrightarrow> recent_of now (recent_of clock ts) = recent_of now ts"
  by (auto simp: recent_of_def intro!: filter_cong)

lemma recent_mono:
  "clock \<le> now \<Longrightarrow> recent_of clock xs = recent_of clock ys \<Longrightarrow> recent_of now xs = recent_of now ys"
  by (metis recent_recent)

lemma times_of_snoc: "times_of a (log @ [(t, req)]) = times_of a log @ (if r_App req = a then [t] else [])"
  by (simp add: times_of_def)

lemma recent_snoc: "recent_of now (ts @ [now]) = recent_of now ts @ [now]"
  by (simp add: recent_of_def minute_def second_def)

lemma purge_keeps: "purge_seen now m k = (if (case m k of None \<Rightarrow> True | Some e \<Rightarrow> now > e) then None else m k)"
  by (simp add: purge_seen_def split: option.splits)

lemma run_inv: "ks_run env cfg0 s clock log \<Longrightarrow> ks_inv env s clock log"
proof (induction rule: ks_run.induct)
  case (start clock)
  then show ?case by (simp add: ks_inv_def newKeyServer_def times_of_def)
next
  case (request s clock log now rnd req ip)
  let ?s' = "snd (ks_unwrap env rnd now req ip s)"
  show ?case
  proof (cases "ks_admits env now req ip s")
    case True
    note p = admits_props [OF True]
    have old: "t \<le> now \<and> \<bar>t - timeUnix (r_TS r)\<bar> \<le> ksClockSkew \<and>
        (now \<le> t + 2 * ksClockSkew \<longrightarrow>
           (case s_seen ?s' (sig_key env r) of None \<Rightarrow> False | Some exp \<Rightarrow> t + 2 * ksClockSkew \<le> exp))"
      if "(t, r) \<in> set log" for t r
      using request.IH request.hyps(2) that
      by (fastforce simp: ks_inv_def p(4) purge_keeps split: option.splits)
    have rates: "recent_of now (times_of a (log @ [(now, req)])) = recent_of now (s_rate ?s' a)" for a
      using request.IH request.hyps(2) recent_mono [of clock now "times_of a log" "s_rate s a"]
      by (auto simp: ks_inv_def p(4) times_of_snoc recent_snoc recent_recent)
    have new: "case s_seen ?s' (sig_key env req) of None \<Rightarrow> False | Some exp \<Rightarrow> now + 2 * ksClockSkew \<le> exp"
      by (simp add: p(4))
    have "case e of (t, r) \<Rightarrow> t \<le> now \<and> \<bar>t - timeUnix (r_TS r)\<bar> \<le> ksClockSkew \<and>
        (now \<le> t + 2 * ksClockSkew \<longrightarrow>
           (case s_seen ?s' (sig_key env r) of None \<Rightarrow> False | Some exp \<Rightarrow> t + 2 * ksClockSkew \<le> exp))"
      if "e \<in> set (log @ [(now, req)])" for e
    proof -
      from that consider "(fst e, snd e) \<in> set log" | "e = (now, req)" by auto
      then show ?thesis
      proof cases
        case 1
        from old [OF this] show ?thesis by (simp add: case_prod_unfold)
      next
        case 2
        with new p(3) show ?thesis by simp
      qed
    qed
    with rates True show ?thesis
      unfolding ks_inv_def if_P [OF True] by blast
  next
    case False
    note q = not_admits_state [OF False, of rnd]
    have "t \<le> now \<and> \<bar>t - timeUnix (r_TS r)\<bar> \<le> ksClockSkew \<and>
        (now \<le> t + 2 * ksClockSkew \<longrightarrow>
           (case s_seen ?s' (sig_key env r) of None \<Rightarrow> False | Some exp \<Rightarrow> t + 2 * ksClockSkew \<le> exp))"
      if "(t, r) \<in> set log" for t r
      using request.IH request.hyps(2) that q(1)
      by (fastforce simp: ks_inv_def purge_keeps split: option.splits)
    moreover have "recent_of now (times_of a log) = recent_of now (s_rate ?s' a)" for a
      using request.IH request.hyps(2) q(2) [of a] recent_mono [of clock now "times_of a log" "s_rate s a"]
      by (auto simp: ks_inv_def recent_recent)
    ultimately show ?thesis using False by (auto simp: ks_inv_def)
  qed
qed (simp_all add: ks_inv_def)

section \<open>What a run guarantees\<close>

lemma inv_same_signature:
  assumes "ks_inv env s clock log" "clock \<le> now" "purge_seen now (s_seen s) (sig_key env req) = None"
    "(t, r) \<in> set log" "sig_key env r = sig_key env req"
  shows "t + 2 * ksClockSkew < now"
proof (rule ccontr)
  assume h: "\<not> t + 2 * ksClockSkew < now"
  with assms(1,2,4) obtain e where e: "s_seen s (sig_key env r) = Some e" "t + 2 * ksClockSkew \<le> e"
    by (fastforce simp: ks_inv_def split: option.splits)
  with h assms(3,5) show False by (simp add: purge_keeps split: if_splits)
qed

text \<open>A signature that comes again does so more than two minutes later.\<close>

definition spaced :: "ks_env \<Rightarrow> (int \<times> ksRequest) list \<Rightarrow> bool" where
  "spaced env log \<longleftrightarrow> sorted_wrt (\<lambda>(t, r) (t', r').
     sig_key env r = sig_key env r' \<longrightarrow> t + 2 * ksClockSkew < t') log"

lemma run_spaced: "ks_run env cfg0 s clock log \<Longrightarrow> spaced env log"
proof (induction rule: ks_run.induct)
  case (request s clock log now rnd req ip)
  note inv = run_inv [OF request.hyps(1)]
  show ?case
  proof (cases "ks_admits env now req ip s")
    case True
    have "t + 2 * ksClockSkew < now" if "(t, r) \<in> set log" "sig_key env r = sig_key env req" for t r
      using inv_same_signature [OF inv request.hyps(2) admits_props(1) [OF True]] that by blast
    with request.IH True show ?thesis
      by (auto simp: spaced_def sorted_wrt_append)
  qed (use request.IH in simp)
qed (simp_all add: spaced_def)

definition in_window :: "int \<Rightarrow> string \<Rightarrow> int \<times> ksRequest \<Rightarrow> bool" where
  "in_window T a e \<longleftrightarrow> r_App (snd e) = a \<and> T \<le> fst e \<and> fst e < T + minute"

lemma window_recent:
  assumes "T \<le> now" "now < T + minute"
  shows "length (filter (in_window T a) log) \<le> length (recent_of now (times_of a log))"
proof -
  have "length (recent_of now (times_of a log)) = length (filter (\<lambda>e. r_App (snd e) = a \<and> now - fst e < minute) log)"
    by (induction log) (simp_all add: recent_of_def times_of_def)
  moreover have "length (filter (in_window T a) log) \<le> length (filter (\<lambda>e. r_App (snd e) = a \<and> now - fst e < minute) log)"
    using assms by (induction log) (auto simp: in_window_def)
  ultimately show ?thesis by simp
qed

lemma run_rate: "ks_run env cfg0 s clock log \<Longrightarrow> length (filter (in_window T a) log) \<le> 30"
proof (induction rule: ks_run.induct)
  case (request s clock log now rnd req ip)
  show ?case
  proof (cases "ks_admits env now req ip s \<and> in_window T a (now, req)")
    case True
    then have w: "r_App req = a" "T \<le> now" "now < T + minute" by (simp_all add: in_window_def)
    from run_inv [OF request.hyps(1)] have "recent_of clock (times_of a log) = recent_of clock (s_rate s a)"
      by (simp add: ks_inv_def)
    from recent_mono [OF request.hyps(2) this] True admits_props(2) [of env now req ip s] w(1)
    have "length (recent_of now (times_of a log)) < 30" by simp
    with window_recent [OF w(2,3), of a log] True show ?thesis by simp
  next
    case False
    with request.IH show ?thesis by auto
  qed
qed simp_all

lemma log_skew: "ks_run env cfg0 s clock log \<Longrightarrow> (t, r) \<in> set log \<Longrightarrow> \<bar>t - timeUnix (r_TS r)\<bar> \<le> ksClockSkew"
  using run_inv [of env cfg0 s clock log] by (auto simp: ks_inv_def)

lemma unwrap_success_admits:
  assumes "ks_unwrap env rnd now req ip s = (Inr sealed, s')"
  shows "ks_admits env now req ip s"
  using assms by (auto simp: ks_unwrap_def ks_admits_def bindS_def split: sum.splits prod.splits)

section \<open>The configuration\<close>

definition config_ok :: "ks_env \<Rightarrow> ksConfig \<Rightarrow> bool" where
  "config_ok env cfg \<longleftrightarrow> (\<forall>aid a. c_Apps cfg aid = Some a \<longrightarrow>
     (\<exists>k. b64_decode (a_Key a) = Some k \<and> length k = 32) \<and> (\<forall>ip \<in> set (a_IPs a). k_parse_ip env ip \<noteq> None))"

lemma check_app_Inr:
  "check_app env aid a = Inr u \<longleftrightarrow> (\<exists>k. b64_decode (a_Key a) = Some k \<and> length k = 32) \<and>
     (\<forall>ip \<in> set (a_IPs a). k_parse_ip env ip \<noteq> None)"
proof -
  have "foldE (\<lambda>_ ip. if k_parse_ip env ip = None then Inl (KsBadIP aid ip) else Inr ()) () ips = Inr u
      \<longleftrightarrow> (\<forall>ip \<in> set ips. k_parse_ip env ip \<noteq> None)" for ips
    by (induction ips) auto
  then show ?thesis by (auto simp: check_app_def split: option.splits)
qed

lemma load_config_ok:
  assumes "loadKSConfig env order (Some c0) = Inr c" "enumerates order (dom (c_Apps c0))"
  shows "config_ok env c \<and> c_Label c \<noteq> []"
proof -
  have loop: "foldE (\<lambda>_ aid. case apps aid of None \<Rightarrow> Inr () | Some a \<Rightarrow> check_app env aid a) () ids = Inr u
      \<longleftrightarrow> (\<forall>aid \<in> set ids. \<forall>a. apps aid = Some a \<longrightarrow> check_app env aid a = Inr ())" for ids apps u
  proof (induction ids)
    case (Cons a ids)
    show ?case
      by (cases "apps a"; cases "check_app env a (the (apps a))") (use Cons in auto)
  qed simp
  have label: "c_Label c \<noteq> []" and apps: "c_Apps c = c_Apps c0"
    using assms(1) by (auto simp: loadKSConfig_def Let_def result_simps ksDefaultLabel_def split: if_splits)
  have "\<forall>aid \<in> dom (c_Apps c0). \<forall>a. c_Apps c0 aid = Some a \<longrightarrow> check_app env aid a = Inr ()"
    using assms by (auto simp: loadKSConfig_def Let_def result_simps enumerates_def loop split: if_splits)
  then have "check_app env aid a = Inr ()" if "c_Apps c aid = Some a" for aid a
    using that by (auto simp: apps)
  with label show ?thesis
    by (auto simp: config_ok_def check_app_Inr)
qed

lemma run_config_ok: "ks_run env cfg0 s clock log \<Longrightarrow> config_ok env cfg0 \<Longrightarrow> config_ok env (s_cfg s)"
proof (induction rule: ks_run.induct)
  case (reload s clock log parsed order)
  show ?case
  proof (cases "loadKSConfig env order parsed")
    case (Inr c)
    then obtain c0 where "parsed = Some c0" by (auto simp: loadKSConfig_def result_simps)
    with Inr reload.hyps(2) load_config_ok [of env order c0 c] have "config_ok env c" by simp
    with reload Inr show ?thesis by (simp add: ks_reload_def)
  qed (use reload in \<open>simp add: ks_reload_def\<close>)
qed (auto simp: newKeyServer_def unwrap_state split: sum.splits)

section \<open>The signed message\<close>

lemma ks_message_fields:
  assumes "ksSigMessage env a t w r = ksSigMessage env a' t' w' r'" "CHR ''|'' \<notin> set r" "CHR ''|'' \<notin> set r'"
  shows "a = a' \<and> t = t' \<and> k_sha env w = k_sha env w' \<and> r = r'"
proof -
  have no_bar: "CHR ''|'' \<notin> set (format_int z)" "CHR ''|'' \<notin> set (hex_encode b)" for z b
    by (rule format_int_excludes, simp_all add: digit_val_def) (rule hex_encode_excludes, simp)
  from assms(1) have "(a @ ''|'' @ format_int t @ ''|'' @ hex_encode (k_sha env w)) @ CHR ''|'' # r
      = (a' @ ''|'' @ format_int t' @ ''|'' @ hex_encode (k_sha env w')) @ CHR ''|'' # r'"
    by (simp add: ksSigMessage_def ksSigContext_def)
  from last_field [OF this assms(2,3)]
  have 1: "(a @ ''|'' @ format_int t) @ CHR ''|'' # hex_encode (k_sha env w)
      = (a' @ ''|'' @ format_int t') @ CHR ''|'' # hex_encode (k_sha env w')" and r: "r = r'" by simp_all
  from last_field [OF 1 no_bar(2) no_bar(2)]
  have 2: "a @ CHR ''|'' # format_int t = a' @ CHR ''|'' # format_int t'"
    and h: "hex_encode (k_sha env w) = hex_encode (k_sha env w')" by simp_all
  from last_field [OF 2 no_bar(1) no_bar(1)] h r show ?thesis
    by (simp add: format_int_inject hex_encode_inject)
qed

section \<open>The handler\<close>

text \<open>The status code, or the sealed key, for a request that reaches \<open>unwrap\<close>.\<close>

definition well_formed_post :: "ks_env \<Rightarrow> string \<Rightarrow> bytes option \<Rightarrow> ksRequest \<Rightarrow> bool" where
  "well_formed_post env method body req \<longleftrightarrow> method = ''POST'' \<and>
     (case body of None \<Rightarrow> False | Some b \<Rightarrow> length b \<le> ksMaxBody \<and> k_parse_req env b = (req, True))"

lemma handler_unwraps:
  assumes "well_formed_post env method body req"
  shows "handleUnwrap env rnd now1 now2 method addr header body s =
    (let ip = clientIP env (s_cfg s) addr header in
     case ks_unwrap env rnd now1 req ip s of
       (Inl (KsRefusal code why), s) \<Rightarrow> ks_refuse env now2 ip (r_Why req) code (r_App req) why s
     | (Inl (KsOther _), s) \<Rightarrow> (KsStatus 500, s)
     | (Inr sealed, s) \<Rightarrow>
         (KsSealed (b64_encode sealed),
          ks_record env now2 \<lparr>e_T = 0, e_App = r_App req, e_IP = ip, e_OK = True,
            e_Why = ksWhy (r_Why req), e_Err = []\<rparr> s))"
proof -
  from assms obtain b where "body = Some b" "take (ksMaxBody + 1) b = b" "length b \<le> ksMaxBody"
      "k_parse_req env b = (req, True)" "method = ''POST''"
    by (auto simp: well_formed_post_def split: option.splits)
  then show ?thesis by (simp add: handleUnwrap_def Let_def)
qed

lemma take_longer: "length (take (n + 1) b) \<le> n \<longleftrightarrow> length b \<le> n"
  by auto

lemma handler_sealed:
  assumes "fst (handleUnwrap env rnd now1 now2 method addr header body s) = KsSealed x"
  shows "\<exists>req. well_formed_post env method body req"
proof (cases body)
  case None
  then show ?thesis using assms by (auto simp: handleUnwrap_def ks_refuse_def Let_def split: if_splits)
next
  case (Some b)
  obtain req ok where r: "k_parse_req env (take (ksMaxBody + 1) b) = (req, ok)" by fastforce
  from assms have "method = ''POST''" "length (take (ksMaxBody + 1) b) \<le> ksMaxBody" ok
    unfolding handleUnwrap_def Some option.map option.case r prod.case Let_def
    by (simp_all add: ks_refuse_def not_less del: length_take split: if_splits)
  then have "length b \<le> ksMaxBody" by (simp only: take_longer)
  with r \<open>method = ''POST''\<close> \<open>ok\<close> Some have "well_formed_post env method body req"
    by (simp add: well_formed_post_def)
  then show ?thesis ..
qed

lemma refuse_status: "fst (ks_refuse env now ip w code app why s) = KsStatus code"
  by (simp add: ks_refuse_def)

lemma ks_unwrap_Inr:
  "ks_unwrap env rnd now req ip s = (Inr sealed, s') \<longleftrightarrow>
     (\<exists>wrap reply sig key. precheck env (s_cfg s) now req ip = Inr (wrap, reply, sig) \<and>
        admit env (r_App req) sig now s = (Inr (), s') \<and>
        UnwrapECDH (k_wrap env) wrap (k_agree env (c_Label (s_cfg s))) = Inr key \<and>
        sealed = k_box env rnd key reply)"
proof -
  have cfg: "s_cfg u = s_cfg s" if "admit env a g n s = (r, u)" for a g n r u
    using admit_keeps [of env a g n s] that by simp
  show ?thesis
    by (auto simp: ks_unwrap_def bindS_def cfg split: sum.splits prod.splits)
qed

section \<open>Properties\<close>

text \<open>An instance of the parameters, with one app and one request it accepts.\<close>

definition ex_wrap :: wrap_crypto where
  "ex_wrap = \<lparr>hkdf = (\<lambda>z. z), gcm_seal = (\<lambda>k n m a. m @ replicate 16 7),
     gcm_open = (\<lambda>k n c a. if drop (length c - 16) c = replicate 16 7 then Some (take (length c - 16) c) else None),
     argon = (\<lambda>p s t m q. replicate 32 1), eph_pub = (\<lambda>e. replicate 65 4), ecdh = (\<lambda>e p. Some (replicate 32 9))\<rparr>"

definition ex_env :: ks_env where
  "ex_env = \<lparr>k_sha = (\<lambda>b. replicate 32 (hd (b @ [0]))), k_verify = (\<lambda>k m sig. sig = replicate 64 (hd (sig @ [0]))),
     k_parse_ip = (\<lambda>s. Some (bytes_of s)), k_loopback = (\<lambda>_. True), k_split_host = Some,
     k_parse_req = (\<lambda>b. (\<lparr>r_App = ''web'', r_TS = 1000, r_Wrap = string_of b, r_Reply = b64_encode (replicate 32 5),
        r_Sig = b64_encode (replicate 64 3), r_Why = ''cold''\<rparr>, True)),
     k_wrap = ex_wrap, k_agree = (\<lambda>l p. Inr (replicate 32 9)), k_box = (\<lambda>r k p. k @ p), k_events_open = (\<lambda>_. True)\<rparr>"

definition ex_app :: ksApp where
  "ex_app = \<lparr>a_Key = b64_encode (replicate 32 8), a_IPs = [''10.0.0.1'']\<rparr>"

definition ex_config :: ksConfig where
  "ex_config = \<lparr>c_Label = ''keyserver'', c_ClientIPHeader = [], c_EventsFile = [], c_Apps = [''web'' \<mapsto> ex_app]\<rparr>"

definition ex_blob :: bytes where
  "ex_blob = [1, 1] @ replicate 65 4 @ replicate 12 6 @ replicate 32 2 @ replicate 16 7"

definition ex_request :: "string \<Rightarrow> byte \<Rightarrow> ksRequest" where
  "ex_request wrap b = \<lparr>r_App = ''web'', r_TS = 1000, r_Wrap = wrap, r_Reply = b64_encode (replicate 32 5),
     r_Sig = b64_encode (replicate 64 b), r_Why = ''cold''\<rparr>"

definition ex_now :: int where "ex_now = (62135596800 + 1000) * second"

lemma ex_timeUnix: "timeUnix 1000 = ex_now"
  by (simp add: timeUnix_def ex_now_def unixToInternal_def i64_def)

lemma ex_precheck:
  "0 \<le> d \<Longrightarrow> d \<le> ksClockSkew \<Longrightarrow>
   precheck ex_env ex_config (ex_now + d) (ex_request (b64_encode w) b) ''10.0.0.1''
     = Inr (w, replicate 32 5, replicate 64 b)"
  using skew_iff [of "ex_now + d" ex_now]
  by (simp add: precheck_Inr ex_request_def ex_env_def ex_config_def ex_app_def ksIPAllowed_def ex_timeUnix)

lemma ex_admits: "0 \<le> d \<Longrightarrow> d \<le> ksClockSkew \<Longrightarrow>
  ks_admits ex_env (ex_now + d) (ex_request (b64_encode w) b) ''10.0.0.1'' (newKeyServer ex_config)"
  using ex_precheck [of d w b] by (simp add: admits_iff newKeyServer_def purge_keeps recent_of_def)

lemma ex_run: "\<exists>s. ks_run ex_env ex_config s ex_now [(ex_now, ex_request (b64_encode ex_blob) 3)]"
  using ks_run.request [OF ks_run.start [of ex_env ex_config ex_now] order_refl, of "[]" "ex_request (b64_encode ex_blob) 3" "''10.0.0.1''"]
    ex_admits [of 0 ex_blob 3]
  by (auto simp: ksClockSkew_def second_def)

lemma distinct_sorted_wrt: "sorted_wrt (\<noteq>) xs \<longleftrightarrow> distinct xs"
  by (induction xs) auto





text \<open>C6. The handler answers with a sealed key exactly when the request is a POST of at most 16 KiB
  that parses, the app is known, the timestamp is within a minute, the signature over the
  app, time, wrap and reply key verifies under the app's key, the address is allowed, the
  signature is not remembered, the app is below its rate, and the wrap opens with the chip; what it
  answers is then the bundle key sealed to the reply key.\<close>

theorem ks_unlock_iff:
  "fst (handleUnwrap env rnd now1 now2 method addr header body s) = KsSealed x \<longleftrightarrow>
   (\<exists>req app wrap reply sig key.
      well_formed_post env method body req \<and>
      c_Apps (s_cfg s) (r_App req) = Some app \<and>
      \<bar>now1 - timeUnix (r_TS req)\<bar> \<le> ksClockSkew \<and>
      b64_decode (r_Wrap req) = Some wrap \<and> b64_decode (r_Reply req) = Some reply \<and>
      b64_decode (r_Sig req) = Some sig \<and> length reply = 32 \<and> length sig = 64 \<and>
      k_verify env (case b64_decode (a_Key app) of Some k \<Rightarrow> k | None \<Rightarrow> [])
        (ksSigMessage env (r_App req) (r_TS req) wrap (r_Reply req)) sig \<and>
      (a_IPs app = [] \<or> ksIPAllowed env (a_IPs app) (clientIP env (s_cfg s) addr header)) \<and>
      purge_seen now1 (s_seen s) (hex_encode (k_sha env sig)) = None \<and>
      length (recent_of now1 (s_rate s (r_App req))) < ksRatePerMin \<and>
      UnwrapECDH (k_wrap env) wrap (k_agree env (c_Label (s_cfg s))) = Inr key \<and>
      x = b64_encode (k_box env rnd key reply))" (is "?sealed \<longleftrightarrow> ?ok")
proof -
  have step: "fst (handleUnwrap env rnd now1 now2 method addr header body s) = KsSealed x \<longleftrightarrow>
      (\<exists>y s'. ks_unwrap env rnd now1 req (clientIP env (s_cfg s) addr header) s = (Inr y, s') \<and> x = b64_encode y)"
    if "well_formed_post env method body req" for req
    unfolding handler_unwraps [OF that] Let_def
    by (auto simp: refuse_status split: prod.splits sum.splits ks_error.splits)
  have adm: "(\<exists>s'. admit env a sig now1 s = (Inr (), s')) \<longleftrightarrow>
      purge_seen now1 (s_seen s) (hex_encode (k_sha env sig)) = None \<and> length (recent_of now1 (s_rate s a)) < ksRatePerMin" for a sig
    by (auto simp: admit_eq Let_def ksRatePerMin_def)
  have abs: "\<bar>d\<bar> \<le> ksClockSkew \<longleftrightarrow> d \<le> ksClockSkew \<and> - ksClockSkew \<le> d" for d by auto
  have "?sealed \<longleftrightarrow> (\<exists>req. well_formed_post env method body req \<and> ?sealed)"
    using handler_sealed by blast
  also have "\<dots> \<longleftrightarrow> (\<exists>req. well_formed_post env method body req \<and>
      (\<exists>wrap reply sig key. precheck env (s_cfg s) now1 req (clientIP env (s_cfg s) addr header) = Inr (wrap, reply, sig) \<and>
        (\<exists>s'. admit env (r_App req) sig now1 s = (Inr (), s')) \<and>
        UnwrapECDH (k_wrap env) wrap (k_agree env (c_Label (s_cfg s))) = Inr key \<and> x = b64_encode (k_box env rnd key reply)))"
    using step by (simp add: ks_unwrap_Inr cong: conj_cong) blast
  also have "\<dots> \<longleftrightarrow> ?ok"
    unfolding adm precheck_Inr skew_iff abs by blast
  finally show ?thesis .
qed

text \<open>The signed message determines the app, the timestamp, the hash of the wrap and the reply
  key: two requests that are signed alike agree in all four, so none can be altered under the
  same signature.\<close>

lemma ks_message_binding:
  assumes "b64_decode r \<noteq> None" "b64_decode r' \<noteq> None"
    and "ksSigMessage env a t w r = ksSigMessage env a' t' w' r'"
  shows "a = a' \<and> t = t' \<and> k_sha env w = k_sha env w' \<and> r = r'"
proof -
  have "CHR ''|'' \<notin> set q" if "b64_decode q \<noteq> None" for q
    using that b64_decode_chars [of q] alphabet_no_newline by fastforce
  with assms show ?thesis by (intro ks_message_fields)
qed

lemma ks_message_binding_instance:
  "''web'' = ''web'' \<and> (7 :: int) = 7 \<and> k_sha ex_env [1] = k_sha ex_env [1, 2] \<and> b64_encode [0] = b64_encode [0]"
  by (rule ks_message_binding [of "b64_encode [0]" "b64_encode [0]" ex_env "''web''" 7 "[1]" "''web''" 7 "[1, 2]"])
    (simp_all add: ksSigMessage_def ex_env_def del: b64_encode.simps)

text \<open>C40. Every key the server verifies a signature with has 32 bytes and every allowlisted
  address parses, through any number of reloads (\<open>ed25519.Verify\<close> panics on a key of
  another length).\<close>

theorem ks_keys_wellformed:
  assumes "enumerates order (dom (c_Apps c0))" "loadKSConfig env order (Some c0) = Inr cfg0"
    and "ks_run env cfg0 s clock log" "c_Apps (s_cfg s) a = Some app"
  shows "(\<exists>k. b64_decode (a_Key app) = Some k \<and> length k = 32) \<and>
    (\<forall>ip \<in> set (a_IPs app). k_parse_ip env ip \<noteq> None)"
proof -
  have "config_ok env (s_cfg s)"
    using run_config_ok [OF assms(3)] load_config_ok [OF assms(2,1)] by blast
  with assms(4) show ?thesis
    unfolding config_ok_def by blast
qed

lemma ex_app_ok: "check_app ex_env aid ex_app = Inr ()"
  by (simp add: check_app_def ex_app_def ex_env_def del: b64_encode.simps)

lemma ex_loads: "loadKSConfig ex_env [''web''] (Some ex_config) = Inr ex_config"
  by (simp add: loadKSConfig_def ex_app_ok ex_config_def)

theorem ks_keys_wellformed_witness:
  "\<exists>k. b64_decode (a_Key ex_app) = Some k \<and> length k = 32"
proof -
  have "enumerates [''web''] (dom (c_Apps ex_config))" "c_Apps (s_cfg (newKeyServer ex_config)) ''web'' = Some ex_app"
    by (simp_all add: enumerates_def ex_config_def newKeyServer_def)
  from ks_keys_wellformed [OF this(1) ex_loads ks_run.start this(2)] show ?thesis by blast
qed

section \<open>Sealing for the server\<close>

definition chip_agrees :: "ks_env \<Rightarrow> string \<Rightarrow> bytes \<Rightarrow> bool" where
  "chip_agrees env label p \<longleftrightarrow> (\<forall>e z. ecdh (k_wrap env) e p = Some z \<longrightarrow>
     length z = 32 \<and> k_agree env label (eph_pub (k_wrap env) e) = Inr z)"

lemma seal_fold:
  assumes "foldE (seal_to env valid key) m pds = Inr m'"
    and "distinct (map (\<lambda>(p, _). ksServerID env p) pds)"
  shows "(\<forall>(p, eph, n) \<in> set pds. \<exists>w. wrapECDHWith (k_wrap env) key p eph n = Inr w \<and> m' (ksServerID env p) = Some (b64_encode w)) \<and>
    (\<forall>k. k \<notin> (\<lambda>(p, _). ksServerID env p) ` set pds \<longrightarrow> m' k = m k)"
  using assms
proof (induction pds arbitrary: m)
  case (Cons a pds)
  obtain p e n where a: "a = (p, e, n)" by (cases a)
  from Cons.prems(1) obtain w where w: "wrapECDHWith (k_wrap env) key p e n = Inr w"
    by (auto simp: a seal_to_def result_simps split: if_splits sum.splits)
  have new: "ksServerID env p \<notin> (\<lambda>(p, _). ksServerID env p) ` set pds" using Cons.prems(2) by (simp add: a)
  from Cons.prems(1) have "valid p" by (auto simp: a seal_to_def split: if_splits)
  with w have "seal_to env valid key m a = Inr (m(ksServerID env p \<mapsto> b64_encode w))"
    by (simp add: a seal_to_def)
  with Cons.prems(1) have rest: "foldE (seal_to env valid key) (m(ksServerID env p \<mapsto> b64_encode w)) pds = Inr m'"
    by simp
  have "distinct (map (\<lambda>(p, _). ksServerID env p) pds)" using Cons.prems(2) by simp
  note IH = Cons.IH [OF rest this]
  from IH new have "m' (ksServerID env p) = Some (b64_encode w)" by auto
  moreover from IH have "m' k = m k" if "k \<notin> (\<lambda>(p, _). ksServerID env p) ` set (a # pds)" for k
    using that by (auto simp: a)
  ultimately show ?case
    using IH w by (simp add: a)
qed simp

lemma seal_then_unwrap:
  assumes "sealKSBundle env valid xseal key draws nonce values points = Inr b"
    and "gcm_correct (k_wrap env)" "point_length (k_wrap env)"
    and "length draws = length points" "list_all (\<lambda>(e, n). length n = 12) draws"
    and "distinct (map (ksServerID env) points)" "p \<in> set points" "chip_agrees env label p"
  shows "\<exists>w. b_Wraps b (ksServerID env p) = Some (b64_encode w) \<and> UnwrapECDH (k_wrap env) w (k_agree env label) = Inr key"
proof -
  from assms(1) obtain m where m: "foldE (seal_to env valid key) Map.empty (zip points draws) = Inr m"
    and b: "b_Wraps b = m"
    by (auto simp: sealKSBundle_def result_simps)
  have ids: "map (\<lambda>(p, _). ksServerID env p) (zip points draws) = map (ksServerID env) points"
    using assms(4) by (simp add: case_prod_unfold map_fst_zip [symmetric] flip: map_map [unfolded comp_def])
  from assms(4,7) obtain e n where en: "(p, e, n) \<in> set (zip points draws)"
    by (metis in_set_impl_in_set_zip1 surj_pair)
  then have "length n = 12" using assms(5) by (auto simp: list_all_iff dest: set_zip_rightD)
  from seal_fold [OF m] assms(6) en obtain w
    where w: "wrapECDHWith (k_wrap env) key p e n = Inr w" "m (ksServerID env p) = Some (b64_encode w)"
    by (fastforce simp: ids)
  then obtain z where "ecdh (k_wrap env) e p = Some z" by (auto simp: wrapECDHWith_def result_simps)
  moreover from this assms(8) have "length z = 32" "k_agree env label (eph_pub (k_wrap env) e) = Inr z"
    by (simp_all add: chip_agrees_def)
  ultimately have "UnwrapECDH (k_wrap env) w (k_agree env label) = Inr key"
    using unwrap_wrap_ecdh(1) [OF assms(2,3) \<open>length n = 12\<close> _ _ _ w(1)] by blast
  with w(2) b show ?thesis by blast
qed


lemma ex_seal: "sealKSBundle ex_env (\<lambda>_. True) (\<lambda>k n v a. v) (replicate 32 2) [([], replicate 12 6)] [] [] [[4]]
  = Inr \<lparr>b_V = 1, b_Wraps = [ksServerID ex_env [4] \<mapsto> b64_encode ex_blob], b_Nonce = b64_encode [],
      b_CT = b64_encode []\<rparr>"
  by (simp add: sealKSBundle_def seal_to_def wrapECDHWith_def ex_env_def ex_wrap_def ecdh_header_def ex_blob_def
      wrapVersion_def schemeECDH_def Let_def del: b64_encode.simps)


text \<open>The replay guard needs the requests to reach it in the order of their clock readings. The
  clock is read before the lock is taken: when a later request overtakes with a clock more
  than two minutes after the first use, it purges the memory, and the delayed replay, at most
  two minutes after that use, is admitted again.\<close>

lemma ks_replay_overtaken:
  assumes "hex_encode (k_sha env sig) \<noteq> hex_encode (k_sha env sig')" "app \<noteq> app'"
  shows "\<exists>s1 s2 s3.
    admit env app sig t (newKeyServer cfg) = (Inr (), s1) \<and>
    admit env app' sig' (t + 2 * ksClockSkew + 1) s1 = (Inr (), s2) \<and>
    admit env app sig (t + 2 * ksClockSkew) s2 = (Inr (), s3)"
  using assms
  by (simp add: admit_eq Let_def newKeyServer_def purge_keeps recent_of_def minute_def ksClockSkew_def second_def)

lemma ks_replay_overtaken_instance:
  "\<exists>s1 s2 s3.
    admit ex_env ''web'' [1] 0 (newKeyServer ex_config) = (Inr (), s1) \<and>
    admit ex_env ''api'' [2] (0 + 2 * ksClockSkew + 1) s1 = (Inr (), s2) \<and>
    admit ex_env ''web'' [1] (0 + 2 * ksClockSkew) s2 = (Inr (), s3)"
  by (rule ks_replay_overtaken) (simp_all add: ex_env_def hex_encode_inject)

definition row_total :: "ks_row \<Rightarrow> nat" where
  "row_total r = w_cold r + w_refresh r + w_other r + w_refused r"

lemma count_event_total: "row_total (count_event e r) = row_total r + 1"
  by (simp add: row_total_def count_event_def)

lemma stats_fold:
  "p_per (foldl (stats_event since) st es) k =
     (case filter (\<lambda>e. since \<le> timeUnix (e_T e) \<and> (e_App e, timeUnix (e_T e) div day_ns) = k) es of
        [] \<Rightarrow> p_per st k
      | es' \<Rightarrow> Some (foldl (\<lambda>r e. count_event e r) (case p_per st k of None \<Rightarrow> zero_row | Some r \<Rightarrow> r) es'))"
proof (induction es arbitrary: st)
  case (Cons e es)
  show ?case
    unfolding foldl_Cons Cons.IH
    by (auto simp: stats_event_def Let_def split: list.splits option.splits)
qed simp

text \<open>The statistics count every recorded request of the period once: the four columns of an
  app's row for a day add up to the number of its events on that day.\<close>

lemma ks_stats_total:
  "(case p_per (ks_count parse b now days) (app, day) of None \<Rightarrow> 0 | Some r \<Rightarrow> row_total r) =
   length (filter (\<lambda>e. e_App e = app \<and> timeUnix (e_T e) div day_ns = day \<and> stats_since now days \<le> timeUnix (e_T e))
     (List.map_filter (\<lambda>ln. if ln = [] then None else parse ln) (split_on nl b)))"
proof -
  have zero: "row_total zero_row = 0" by (simp add: row_total_def zero_row_def)
  have fold: "row_total (foldl (\<lambda>r e. count_event e r) r es) = row_total r + length es" for r es
    by (induction es arbitrary: r) (simp_all add: count_event_total)
  have eq: "filter (\<lambda>e. since \<le> timeUnix (e_T e) \<and> (e_App e, timeUnix (e_T e) div day_ns) = (app, day)) es =
      filter (\<lambda>e. e_App e = app \<and> timeUnix (e_T e) div day_ns = day \<and> since \<le> timeUnix (e_T e)) es" for since es
    by (rule filter_cong) auto
  show ?thesis
    unfolding ks_count_def stats_fold eq
    by (simp add: fold zero count_event_total split: list.split)
qed

end
