(* ===== verification/Ecdsa.thy ===== *)
theory Ecdsa
  imports Prelude
begin

text \<open>
  ECDSA signatures as a chip or a dongle returns them (\<open>normalizeECDSASig\<close> of \<open>agent.go\<close>, the fixed-width numbers of
  \<open>keystore_linux.go\<close>): \<open>math/big\<close>'s big-endian numbers, and \<open>asn1.Unmarshal\<close> of a sequence of two integers. Shown: a
  fixed-width pair is read back; a DER signature is read back exactly when its length is odd or above 66.
\<close>

section \<open>Big-endian numbers\<close>

text \<open>\<open>SetBytes\<close> and \<open>FillBytes\<close>, which panics (\<open>None\<close>) when the buffer is too small.\<close>

definition set_bytes :: "bytes \<Rightarrow> nat" where
  "set_bytes b = foldl (\<lambda>a x. a * 256 + unat x) 0 b"

fun be_fixed :: "nat \<Rightarrow> nat \<Rightarrow> bytes" where
  "be_fixed 0 v = []"
| "be_fixed (Suc n) v = be_fixed n (v div 256) @ [word_of_nat (v mod 256)]"

definition fill_bytes :: "nat \<Rightarrow> nat \<Rightarrow> bytes option" where
  "fill_bytes n v = (if v < 256 ^ n then Some (be_fixed n v) else None)"

lemma set_bytes_nil [simp]: "set_bytes [] = 0"
  by (simp add: set_bytes_def)

lemma set_bytes_snoc [simp]: "set_bytes (b @ [x]) = set_bytes b * 256 + unat x"
  by (simp add: set_bytes_def)

lemma set_bytes_append: "set_bytes (a @ b) = set_bytes a * 256 ^ length b + set_bytes b"
  by (induction b rule: rev_induct) (simp_all add: append_assoc [symmetric] algebra_simps del: append_assoc)

lemma set_bytes_Cons: "set_bytes (x # b) = unat x * 256 ^ length b + set_bytes b"
  using set_bytes_append [of "[x]" b] by (simp add: set_bytes_def)

lemma set_bytes_bound: "set_bytes b < 256 ^ length b"
proof (induction b rule: rev_induct)
  case (snoc x b)
  from snoc have "set_bytes b * 256 + 255 < 256 ^ length b * 256" by linarith
  moreover have "unat x \<le> 255" using unat_byte_less [of x] by linarith
  ultimately show ?case by simp
qed simp

lemma be_fixed_length [simp]: "length (be_fixed n v) = n"
  by (induction n arbitrary: v) simp_all

lemma set_be_fixed [simp]: "v < 256 ^ n \<Longrightarrow> set_bytes (be_fixed n v) = v"
proof (induction n arbitrary: v)
  case (Suc n)
  then have "v div 256 < 256 ^ n" by (simp add: less_mult_imp_div_less mult.commute)
  with Suc.IH show ?case by (simp add: unat_of_nat)
qed simp

lemma be_fixed_set: "length b = n \<Longrightarrow> be_fixed n (set_bytes b) = b"
proof (induction n arbitrary: b)
  case (Suc n)
  then obtain a x where b: "b = a @ [x]" by (cases b rule: rev_cases) auto
  have "(set_bytes a * 256 + unat x) mod 256 = unat x" "(set_bytes a * 256 + unat x) div 256 = set_bytes a"
    using unat_byte_less [of x] by (simp_all del: unat_byte_less)
  with Suc b show ?case by simp
qed simp

lemma fill_bytes_Some: "fill_bytes n v = Some b \<longleftrightarrow> v < 256 ^ n \<and> b = be_fixed n v"
  by (auto simp: fill_bytes_def)

lemma set_bytes_high:
  assumes "k < length b" "b ! (length b - Suc k) \<noteq> 0"
  shows "256 ^ k \<le> set_bytes b"
proof -
  let ?i = "length b - Suc k"
  have b: "b = take ?i b @ b ! ?i # drop (Suc ?i) b" using assms(1) by (simp add: id_take_nth_drop)
  have "length (drop (Suc ?i) b) = k" using assms(1) by simp
  then have "unat (b ! ?i) * 256 ^ k \<le> set_bytes (b ! ?i # drop (Suc ?i) b)" by (simp add: set_bytes_Cons)
  also have "\<dots> \<le> set_bytes b" by (subst (2) b) (simp add: set_bytes_append)
  finally have "unat (b ! ?i) * 256 ^ k \<le> set_bytes b" .
  moreover have "0 < unat (b ! ?i)" using assms(2) by (simp add: unat_gt_0)
  ultimately show ?thesis using mult_le_mono1 [of 1 "unat (b ! ?i)" "256 ^ k"] by linarith
qed

section \<open>\<open>asn1.Unmarshal\<close> into \<open>struct{R, S *big.Int}\<close>\<close>

text \<open>Lengths in DER: the short form below 128, otherwise the fewest bytes, at most four.\<close>

fun long_length :: "nat \<Rightarrow> nat \<Rightarrow> bytes \<Rightarrow> (nat \<times> bytes) option" where
  "long_length 0 acc bs = Some (acc, bs)"
| "long_length (Suc n) acc [] = None"
| "long_length (Suc n) acc (b # bs) =
     (if acc \<ge> 2 ^ 23 then None
      else let acc' = acc * 256 + unat b in if acc' = 0 then None else long_length n acc' bs)"

fun parse_len :: "bytes \<Rightarrow> (nat \<times> bytes) option" where
  "parse_len [] = None"
| "parse_len (b # bs) =
     (if unat b < 128 then Some (unat b, bs)
      else if unat b = 128 then None
      else case long_length (unat b - 128) 0 bs of
          None \<Rightarrow> None
        | Some (n, r) \<Rightarrow> if n < 128 then None else Some (n, r))"

text \<open>An element with the given identifier byte: its contents and what follows.\<close>

fun der_element :: "byte \<Rightarrow> bytes \<Rightarrow> (bytes \<times> bytes) option" where
  "der_element tag [] = None"
| "der_element tag (t # bs) =
     (if t \<noteq> tag then None
      else case parse_len bs of
          None \<Rightarrow> None
        | Some (n, r) \<Rightarrow> if length r < n then None else Some (take n r, drop n r))"

fun minimal_int :: "bytes \<Rightarrow> bool" where
  "minimal_int [] \<longleftrightarrow> False"
| "minimal_int [b] \<longleftrightarrow> True"
| "minimal_int (b # c # bs) \<longleftrightarrow> \<not> (b = 0 \<and> unat c < 128 \<or> b = 255 \<and> 128 \<le> unat c)"

definition parse_bigint :: "bytes \<Rightarrow> int option" where
  "parse_bigint b =
     (if \<not> minimal_int b then None
      else if 128 \<le> unat (hd b) then Some (int (set_bytes b) - 256 ^ length b) else Some (int (set_bytes b)))"

text \<open>Bytes after the second integer of the sequence are allowed; those after the sequence are returned.\<close>

definition unmarshal_rs :: "bytes \<Rightarrow> ((int \<times> int) \<times> bytes) option" where
  "unmarshal_rs raw =
     (case der_element 0x30 raw of None \<Rightarrow> None | Some (inner, rest) \<Rightarrow>
      (case der_element 0x02 inner of None \<Rightarrow> None | Some (rb, inner') \<Rightarrow>
      (case parse_bigint rb of None \<Rightarrow> None | Some r \<Rightarrow>
      (case der_element 0x02 inner' of None \<Rightarrow> None | Some (sb, _) \<Rightarrow>
      (case parse_bigint sb of None \<Rightarrow> None | Some s \<Rightarrow> Some ((r, s), rest))))))"

definition normalizeECDSASig :: "bytes \<Rightarrow> (int \<times> int) option" where
  "normalizeECDSASig raw =
     (let n = length raw
      in if 0 < n \<and> even n \<and> n \<le> 66
         then Some (int (set_bytes (take (n div 2) raw)), int (set_bytes (drop (n div 2) raw)))
         else map_option fst (unmarshal_rs raw))"

section \<open>The DER encoding of a signature\<close>

text \<open>What X.690 prescribes for two non-negative integers whose sequence is shorter than 128 bytes.\<close>

fun be_bytes :: "nat \<Rightarrow> bytes" where
  "be_bytes v = (if v < 256 then [word_of_nat v] else be_bytes (v div 256) @ [word_of_nat (v mod 256)])"

declare be_bytes.simps [simp del]

definition int_content :: "nat \<Rightarrow> bytes" where
  "int_content v = (let b = be_bytes v in if 128 \<le> unat (hd b) then 0 # b else b)"

definition der_int :: "nat \<Rightarrow> bytes" where
  "der_int v = 0x02 # word_of_nat (length (int_content v)) # int_content v"

definition der_sig :: "nat \<Rightarrow> nat \<Rightarrow> bytes" where
  "der_sig r s = 0x30 # word_of_nat (length (der_int r @ der_int s)) # der_int r @ der_int s"

lemma be_bytes_nonempty [simp]: "be_bytes v \<noteq> []"
  by (subst be_bytes.simps) simp

lemma set_be_bytes [simp]: "set_bytes (be_bytes v) = v"
  by (induction v rule: be_bytes.induct, subst be_bytes.simps) (auto simp: set_bytes_def unat_of_nat)

lemma be_bytes_head: "0 < v \<Longrightarrow> hd (be_bytes v) \<noteq> 0"
proof (induction v rule: be_bytes.induct)
  case (1 v)
  show ?case
  proof (cases "v < 256")
    case True
    then have "unat (word_of_nat v :: byte) = v" by (simp add: unat_of_nat)
    with 1 True have "(word_of_nat v :: byte) \<noteq> 0" by (metis unsigned_0 less_numeral_extra(3))
    with True show ?thesis by (subst be_bytes.simps) simp
  next
    case False
    with 1 show ?thesis by (subst be_bytes.simps) simp
  qed
qed

lemma be_bytes_length: "v < 256 ^ n \<Longrightarrow> 0 < n \<Longrightarrow> length (be_bytes v) \<le> n"
proof (induction v arbitrary: n rule: be_bytes.induct)
  case (1 v)
  show ?case
  proof (cases "v < 256")
    case False
    with 1 obtain m where n: "n = Suc m" "0 < m" by (cases n; cases "n - 1") auto
    with 1 have "v div 256 < 256 ^ m" by (simp add: less_mult_imp_div_less mult.commute)
    from 1(1) [OF False this n(2)] False n show ?thesis by (subst be_bytes.simps) simp
  qed (use 1 in \<open>subst be_bytes.simps, simp\<close>)
qed

lemma set_int_content [simp]: "set_bytes (int_content v) = v"
  by (simp add: int_content_def Let_def set_bytes_Cons)

lemma int_content_length: "v < 256 ^ 32 \<Longrightarrow> 0 < length (int_content v) \<and> length (int_content v) \<le> 33"
  using be_bytes_length [of v 32] by (simp add: int_content_def Let_def)

lemma parse_int_content: "parse_bigint (int_content v) = Some (int v)"
proof -
  obtain b bs where b: "be_bytes v = b # bs" by (meson be_bytes_nonempty neq_Nil_conv)
  have min: "minimal_int (int_content v)"
  proof (cases "128 \<le> unat b")
    case True
    then show ?thesis by (simp add: int_content_def b)
  next
    case False
    have "b \<noteq> 255" using False by auto
    moreover have "b \<noteq> 0" if "bs \<noteq> []"
    proof -
      have "0 < v"
      proof (rule ccontr)
        assume "\<not> 0 < v"
        then have "be_bytes v = [0]" by (subst be_bytes.simps) simp
        with b that show False by simp
      qed
      from be_bytes_head [OF this] b show ?thesis by simp
    qed
    ultimately show ?thesis using False by (cases bs) (auto simp: int_content_def b)
  qed
  have "\<not> 128 \<le> unat (hd (int_content v))"
    by (simp add: int_content_def Let_def)
  with min show ?thesis by (simp add: parse_bigint_def)
qed

lemma element_der:
  assumes "length content < 128"
  shows "der_element tag (tag # word_of_nat (length content) # content @ rest) = Some (content, rest)"
  using assms by (simp add: unat_of_nat)

lemma der_sig_length:
  "length (der_sig r s) = 6 + length (int_content r) + length (int_content s)"
  by (simp add: der_sig_def der_int_def)

lemma unmarshal_der_sig:
  assumes "r < 256 ^ 32" "s < 256 ^ 32"
  shows "unmarshal_rs (der_sig r s @ rest) = Some ((int r, int s), rest)"
proof -
  have l: "length (int_content r) \<le> 33" "length (int_content s) \<le> 33"
    using int_content_length assms by blast+
  then have "length (der_int r @ der_int s) < 128" by (simp add: der_int_def)
  from element_der [OF this, of "0x30" rest] element_der [of "int_content r" "0x02" "der_int s"]
    element_der [of "int_content s" "0x02" "[]"] l
  show ?thesis
    by (simp add: unmarshal_rs_def der_sig_def der_int_def parse_int_content del: der_element.simps)
qed

section \<open>What is read back\<close>

lemma normalize_fixed:
  assumes "length a = length b" "0 < length a" "length a \<le> 33"
  shows "normalizeECDSASig (a @ b) = Some (int (set_bytes a), int (set_bytes b))"
  using assms by (simp add: normalizeECDSASig_def Let_def)

text \<open>A DER signature of an even length of at most 66 is split in the middle, and the halves are never its numbers.\<close>

lemma short_der_misread:
  assumes "even (length (der_sig r s))" "length (der_sig r s) \<le> 66"
  shows "normalizeECDSASig (der_sig r s) \<noteq> Some (int r, int s)"
proof
  let ?raw = "der_sig r s" and ?lr = "length (int_content r)" and ?ls = "length (int_content s)"
  let ?h = "length ?raw div 2"
  assume "normalizeECDSASig ?raw = Some (int r, int s)"
  with assms have eq: "set_bytes (take ?h ?raw) = r" "set_bytes (drop ?h ?raw) = s"
    by (simp_all add: normalizeECDSASig_def Let_def der_sig_length)
  have len: "length ?raw = 6 + ?lr + ?ls" by (rule der_sig_length)
  have small: "r < 256 ^ ?lr" "s < 256 ^ ?ls"
    using set_bytes_bound [of "int_content r"] set_bytes_bound [of "int_content s"] by simp_all
  show False
  proof (cases "?ls \<le> ?lr + 2")
    case True
    with len have h: "?h \<le> 4 + ?lr" by linarith
    have two: "?raw ! (4 + ?lr) = 2" by (simp add: der_sig_def der_int_def nth_append)
    have "length (drop ?h ?raw) - Suc (Suc ?ls) = 4 + ?lr - ?h" using len h by simp
    then have "drop ?h ?raw ! (length (drop ?h ?raw) - Suc (Suc ?ls)) \<noteq> 0" using two h len by simp
    moreover have "Suc ?ls < length (drop ?h ?raw)" using len h by simp
    ultimately have "256 ^ Suc ?ls \<le> s" using set_bytes_high [of "Suc ?ls" "drop ?h ?raw"] eq(2) by simp
    with small(2) show False by simp
  next
    case False
    with len have h: "?lr < ?h" "?h \<le> length ?raw" by linarith+
    have "take ?h ?raw ! 0 = 0x30" using h by (simp add: der_sig_def)
    with set_bytes_high [of "?h - 1" "take ?h ?raw"] h eq(1) have "256 ^ (?h - 1) \<le> r" by simp
    moreover have "(256 :: nat) ^ ?lr \<le> 256 ^ (?h - 1)" by (rule power_increasing) (use h in auto)
    ultimately show False using small(1) by linarith
  qed
qed

text \<open>C32. A DER signature over two 256-bit numbers, which a macOS chip returns, is read back as these numbers exactly when
  its length is odd or above 66; every shorter one of even length is taken for a fixed-width pair and yields other numbers.\<close>

theorem normalize_der_iff:
  assumes "r < 256 ^ 32" "s < 256 ^ 32"
  shows "normalizeECDSASig (der_sig r s) = Some (int r, int s) \<longleftrightarrow> odd (length (der_sig r s)) \<or> 66 < length (der_sig r s)"
proof (cases "odd (length (der_sig r s)) \<or> 66 < length (der_sig r s)")
  case True
  with unmarshal_der_sig [OF assms, of "[]"] show ?thesis
    by (auto simp: normalizeECDSASig_def Let_def)
qed (use short_der_misread [of r s] in auto)

theorem normalize_der_iff_witness:
  "normalizeECDSASig (der_sig 1 5) = Some (1, 5) \<longleftrightarrow> False"
  using normalize_der_iff [of 1 5]
  by (simp add: der_sig_length, simp add: int_content_def Let_def be_bytes.simps)

end
