(* ===== verification/Chip.thy ===== *)
theory Chip
  imports Keyserver UsbVault Ecdsa
begin

text \<open>
  Chip-backed keys: the \<open>Keystore\<close> interface (\<open>keystore.go\<close>), its Linux implementation over a TPM (\<open>keystore_linux.go\<close>), the
  ssh-agent that serves one of them (\<open>agent.go\<close>) and the commands \<open>setup\<close> and \<open>keyserver init\<close>. The TPM and the go-tpm
  library are parameters. What the store, the agent and the commands are shown to do is in the theory \<open>KeyStore\<close>.
\<close>

section \<open>The interface\<close>

record 'n keystore =
  ks_Create :: "string \<Rightarrow> ('n, string) io"
  ks_PublicKey :: "string \<Rightarrow> ('n, string) io"
  ks_Sign :: "string \<Rightarrow> bytes \<Rightarrow> ('n, bytes) io"
  ks_CreateAgreementKey :: "string \<Rightarrow> ('n, bytes) io"
  ks_Agree :: "string \<Rightarrow> bytes \<Rightarrow> ('n, bytes) io"
  ks_Delete :: "string \<Rightarrow> ('n, unit) io"

text \<open>
  The TPM behind go-tpm: opening the device, the storage root key, and the commands on a handle; \<open>None\<close> is a failed command.
  The public and private areas are kept as the library's opaque values; \<open>t_contents\<close> parses a public area, to \<open>Some None\<close> when
  it is not an ECC key; likewise \<open>t_sign\<close> for a signature that is not ECDSA and \<open>t_zgen\<close> for an unreadable point.
\<close>

record tpm_template =
  tm_FixedTPM :: bool
  tm_FixedParent :: bool
  tm_SensitiveDataOrigin :: bool
  tm_UserWithAuth :: bool
  tm_NoDA :: bool
  tm_SignEncrypt :: bool
  tm_Decrypt :: bool
  tm_Curve :: string
  tm_Scheme :: string

record 'n tpm =
  t_open :: "string \<Rightarrow> 'n \<Rightarrow> bool \<times> 'n"
  t_close :: "'n \<Rightarrow> 'n"
  t_primary :: "'n \<Rightarrow> nat option \<times> 'n"
  t_flush :: "nat \<Rightarrow> 'n \<Rightarrow> 'n"
  t_create :: "nat \<Rightarrow> tpm_template \<Rightarrow> 'n \<Rightarrow> (bytes \<times> bytes) option \<times> 'n"
  t_load :: "nat \<Rightarrow> bytes \<Rightarrow> bytes \<Rightarrow> 'n \<Rightarrow> nat option \<times> 'n"
  t_sign :: "nat \<Rightarrow> bytes \<Rightarrow> 'n \<Rightarrow> (bytes \<times> bytes) option option \<times> 'n"
  t_zgen :: "nat \<Rightarrow> bytes \<times> bytes \<Rightarrow> 'n \<Rightarrow> bytes option option \<times> 'n"
  t_contents :: "bytes \<Rightarrow> (bytes \<times> bytes) option option"
  t_marshal_pub :: "bytes \<Rightarrow> bytes"
  t_unmarshal_pub :: "bytes \<Rightarrow> bytes option"
  t_marshal_priv :: "bytes \<Rightarrow> bytes"
  t_unmarshal_priv :: "bytes \<Rightarrow> bytes option"

text \<open>
  \<open>h_ec_line\<close> is the authorized-keys line of a P-256 point, \<open>h_authorized_key\<close> the type and wire form a line parses to,
  \<open>h_mpints\<close> the SSH encoding of two integers.
\<close>

record ('k, 's, 'n) chip_host = "('k, 's, 'n) usb_host" +
  h_tpm :: "'n tpm"
  h_ec_line :: "bytes \<Rightarrow> string option"
  h_authorized_key :: "string \<Rightarrow> (string \<times> bytes) option"
  h_mpints :: "int \<times> int \<Rightarrow> bytes"

section \<open>P-256 points\<close>

text \<open>\<open>elliptic.Unmarshal(elliptic.P256(), \<dots>)\<close> accepts an uncompressed point on the curve with reduced coordinates.\<close>

definition p256_p :: nat where
  "p256_p = 0xffffffff00000001000000000000000000000000ffffffffffffffffffffffff"

definition p256_b :: nat where
  "p256_b = 0x5ac635d8aa3a93e7b3ebbd55769886bc651d06b0cc53b0f63bce3c3e27d2604b"

definition on_p256 :: "nat \<Rightarrow> nat \<Rightarrow> bool" where
  "on_p256 x y \<longleftrightarrow> x < p256_p \<and> y < p256_p \<and> (y * y) mod p256_p = (x * x * x + (p256_p - 3) * x + p256_b) mod p256_p"

definition p256_point :: "bytes \<Rightarrow> bool" where
  "p256_point b \<longleftrightarrow> length b = 65 \<and> hd b = 4 \<and> on_p256 (set_bytes (take 32 (drop 1 b))) (set_bytes (drop 33 b))"

section \<open>The key file of a label\<close>

definition tpmDevice :: "('k, 's, 'n, 'x) chip_host_scheme \<Rightarrow> string" where
  "tpmDevice h = (let d = getenv h ''P3SIG_TPM_DEVICE'' in if d \<noteq> [] then d else ''/dev/tpmrm0'')"

definition tpmKeyDir :: "('k, 's, 'n, 'x) chip_host_scheme \<Rightarrow> err + string" where
  "tpmKeyDir h =
     (let d = getenv h ''P3SIG_TPM_DIR''
      in if d \<noteq> [] then Inr d
         else if h_home h = [] then Inl (Msg ''$HOME is not defined'') else Inr (path_join [h_home h, ''.p3sig'', ''tpm'']))"

definition label_char :: "char \<Rightarrow> bool" where
  "label_char c \<longleftrightarrow> (let n = (of_char c :: nat)
     in (65 \<le> n \<and> n \<le> 90) \<or> (97 \<le> n \<and> n \<le> 122) \<or> (48 \<le> n \<and> n \<le> 57) \<or> c = CHR ''.'' \<or> c = CHR ''_'' \<or> c = CHR ''-'')"

definition tpmLabelOK :: "string \<Rightarrow> bool" where
  "tpmLabelOK l \<longleftrightarrow> 1 \<le> length l \<and> length l \<le> 64 \<and> list_all label_char l"

definition tpmKeyPath :: "('k, 's, 'n, 'x) chip_host_scheme \<Rightarrow> string \<Rightarrow> err + string" where
  "tpmKeyPath h label =
     (if \<not> tpmLabelOK label \<or> prefix ''.'' label then Inl (Msg ''label'')
      else bindE (tpmKeyDir h) (\<lambda>dir. Inr (path_join [dir, label @ ''.tpmkey''])))"

text \<open>Two parts, each after its length in 32 bits. The end of a part is computed in 32 bits too.\<close>

definition put_part :: "bytes \<Rightarrow> bytes" where
  "put_part b = putUint32 (word_of_nat (length b)) @ b"

definition get_part :: "bytes \<Rightarrow> err + (bytes \<times> bytes)" where
  "get_part b =
     (if length b < 4 \<or> (word_of_nat (length b - 4) :: 32 word) < getUint32 b then Inl (Msg ''is truncated'')
      else let n = getUint32 b
        in if 4 + n < 4 then Inl (Msg ''panic: slice bounds out of range'')
           else Inr (take (unat n) (drop 4 b), drop (unat (4 + n)) b))"

definition parseTPMKeyFile :: "'n tpm \<Rightarrow> bytes \<Rightarrow> err + (bytes \<times> bytes)" where
  "parseTPMKeyFile tp b =
     bindE (get_part b) (\<lambda>(p1, b1).
     bindE (get_part b1) (\<lambda>(p2, b2).
     bindE (optE (Msg ''public area'') (t_unmarshal_pub tp p1)) (\<lambda>pub.
     bindE (optE (Msg ''private area'') (t_unmarshal_priv tp p2)) (\<lambda>priv. Inr (pub, priv)))))"

text \<open>The file is created, written and closed; what was written of it is removed when the write fails.\<close>

definition write_excl :: "string \<Rightarrow> string \<Rightarrow> ('n, unit) io" where
  "write_excl path d =
     bindS (create_excl path mode600) (\<lambda>_.
     bindS (tryS (write_handle path d)) (\<lambda>w. case w of
         Inl e \<Rightarrow> bindS (ignoreS sync_handle) (\<lambda>_. bindS (ignoreS (remove_file path)) (\<lambda>_. failS e))
       | Inr _ \<Rightarrow> sync_handle))"

definition writeTPMKeyFile :: "('k, 's, 'n, 'x) chip_host_scheme \<Rightarrow> string \<Rightarrow> bytes \<Rightarrow> bytes \<Rightarrow> ('n, unit) io" where
  "writeTPMKeyFile h label pub priv =
     bindS (liftS (tpmKeyPath h label)) (\<lambda>path.
     bindS (mkdirAll (path_dir path)) (\<lambda>_.
     write_excl path (string_of (put_part (t_marshal_pub (h_tpm h) pub) @ put_part (t_marshal_priv (h_tpm h) priv)))))"

definition readTPMKeyFile :: "('k, 's, 'n, 'x) chip_host_scheme \<Rightarrow> string \<Rightarrow> ('n, bytes \<times> bytes) io" where
  "readTPMKeyFile h label =
     bindS (liftS (tpmKeyPath h label)) (\<lambda>path.
     bindS (tryS (readFile path)) (\<lambda>r. case r of
         Inl e \<Rightarrow> failS (if e = NotExist then Msg ''no TPM key'' else e)
       | Inr b \<Rightarrow> liftS (parseTPMKeyFile (h_tpm h) (bytes_of b))))"

section \<open>Sessions\<close>

definition on_net :: "('n \<Rightarrow> 'a \<times> 'n) \<Rightarrow> ('n, 'a) io" where
  "on_net f s = (case f (w_net s) of (x, n) \<Rightarrow> (Inr x, s\<lparr>w_net := n\<rparr>))"

definition on_net_unit :: "('n \<Rightarrow> 'n) \<Rightarrow> ('n, unit) io" where
  "on_net_unit f = on_net (\<lambda>n. ((), f n))"

lemma on_net_net [simp]: "w_net (snd (on_net f s)) = snd (f (w_net s))" "w_net (snd (on_net_unit g s)) = g (w_net s)"
  by (simp_all add: on_net_def on_net_unit_def split: prod.split)

lemma on_net_run: "f (w_net s) = (x, n) \<Longrightarrow> on_net f s = (Inr x, s\<lparr>w_net := n\<rparr>)"
  by (simp add: on_net_def)

text \<open>\<open>defer\<close>: the action runs after the body, whatever the body returns.\<close>

definition deferS :: "('n, unit) io \<Rightarrow> ('n, 'a) io \<Rightarrow> ('n, 'a) io" where
  "deferS d m s = (case m s of (r, t) \<Rightarrow> (r, snd (d t)))"

definition openTPMSession :: "('k, 's, 'n, 'x) chip_host_scheme \<Rightarrow> ('n, nat) io" where
  "openTPMSession h =
     bindS (on_net (t_open (h_tpm h) (tpmDevice h))) (\<lambda>ok.
     if \<not> ok then failS (Msg ''open'')
     else bindS (on_net (t_primary (h_tpm h))) (\<lambda>r. case r of
         None \<Rightarrow> bindS (on_net_unit (t_close (h_tpm h))) (\<lambda>_. failS (Msg ''TPM CreatePrimary (SRK)''))
       | Some srk \<Rightarrow> retS srk))"

definition close_session :: "('k, 's, 'n, 'x) chip_host_scheme \<Rightarrow> nat \<Rightarrow> ('n, unit) io" where
  "close_session h srk =
     bindS (on_net_unit (t_flush (h_tpm h) srk)) (\<lambda>_. on_net_unit (t_close (h_tpm h)))"

definition with_session :: "('k, 's, 'n, 'x) chip_host_scheme \<Rightarrow> (nat \<Rightarrow> ('n, 'a) io) \<Rightarrow> ('n, 'a) io" where
  "with_session h body = bindS (openTPMSession h) (\<lambda>srk. deferS (close_session h srk) (body srk))"

definition load_key :: "('k, 's, 'n, 'x) chip_host_scheme \<Rightarrow> nat \<Rightarrow> string \<Rightarrow> ('n, nat) io" where
  "load_key h srk label =
     bindS (readTPMKeyFile h label) (\<lambda>(pub, priv).
     bindS (on_net (t_load (h_tpm h) srk priv pub)) (\<lambda>r. case r of
         None \<Rightarrow> failS (Msg ''TPM Load'')
       | Some hnd \<Rightarrow> (case t_contents (h_tpm h) pub of
             None \<Rightarrow> bindS (on_net_unit (t_flush (h_tpm h) hnd)) (\<lambda>_. failS (Msg ''contents''))
           | Some _ \<Rightarrow> retS hnd)))"

section \<open>The Linux keystore\<close>

definition tpmKeyTemplate :: tpm_template where
  "tpmKeyTemplate = \<lparr>tm_FixedTPM = True, tm_FixedParent = True, tm_SensitiveDataOrigin = True, tm_UserWithAuth = True,
     tm_NoDA = True, tm_SignEncrypt = True, tm_Decrypt = True, tm_Curve = ''NistP256'', tm_Scheme = ''Null''\<rparr>"

definition fill32 :: "bytes \<Rightarrow> err + bytes" where
  "fill32 b = optE (Msg ''panic: math/big: buffer too small to fit value'') (fill_bytes 32 (set_bytes b))"

definition tpmPoint :: "(bytes \<times> bytes) option \<Rightarrow> err + bytes" where
  "tpmPoint ecc =
     bindE (optE (Msg ''not an ECC key'') ecc) (\<lambda>(bx, by).
     bindE (fill32 bx) (\<lambda>x. bindE (fill32 by) (\<lambda>y. Inr (4 # x @ y))))"

definition tpmSSHLine :: "('k, 's, 'n, 'x) chip_host_scheme \<Rightarrow> (bytes \<times> bytes) option \<Rightarrow> string \<Rightarrow> err + string" where
  "tpmSSHLine h ecc label =
     bindE (tpmPoint ecc) (\<lambda>point.
     bindE (requireE (p256_point point) (Msg ''TPM returned a point that is not on P-256'')) (\<lambda>_.
     bindE (optE (Msg ''public key'') (h_ec_line h point)) (\<lambda>line.
     Inr (trim_space line @ '' '' @ label))))"

definition contents :: "('k, 's, 'n, 'x) chip_host_scheme \<Rightarrow> bytes \<Rightarrow> err + (bytes \<times> bytes) option" where
  "contents h pub = optE (Msg ''contents'') (t_contents (h_tpm h) pub)"

definition key_line :: "('k, 's, 'n, 'x) chip_host_scheme \<Rightarrow> string \<Rightarrow> bytes \<Rightarrow> err + string" where
  "key_line h label pub = bindE (contents h pub) (\<lambda>ecc. tpmSSHLine h ecc label)"

definition tpm_Create :: "('k, 's, 'n, 'x) chip_host_scheme \<Rightarrow> string \<Rightarrow> ('n, string) io" where
  "tpm_Create h label =
     bindS (liftS (tpmKeyPath h label)) (\<lambda>path.
     bindS (tryS (stat_file path)) (\<lambda>st. case st of
         Inr _ \<Rightarrow> failS (Msg ''already exists'')
       | Inl _ \<Rightarrow> with_session h (\<lambda>srk.
           bindS (on_net (t_create (h_tpm h) srk tpmKeyTemplate)) (\<lambda>r. case r of
               None \<Rightarrow> failS (Msg ''TPM Create'')
             | Some (pub, priv) \<Rightarrow>
                 bindS (writeTPMKeyFile h label pub priv) (\<lambda>_. liftS (key_line h label pub))))))"

definition tpm_PublicKey :: "('k, 's, 'n, 'x) chip_host_scheme \<Rightarrow> string \<Rightarrow> ('n, string) io" where
  "tpm_PublicKey h label = bindS (readTPMKeyFile h label) (\<lambda>(pub, _). liftS (key_line h label pub))"

definition tpm_Sign :: "('k, 's, 'n, 'x) chip_host_scheme \<Rightarrow> string \<Rightarrow> bytes \<Rightarrow> ('n, bytes) io" where
  "tpm_Sign h label data =
     with_session h (\<lambda>srk.
     bindS (load_key h srk label) (\<lambda>key.
     deferS (on_net_unit (t_flush (h_tpm h) key))
       (bindS (on_net (t_sign (h_tpm h) key (sha (h_card h) data))) (\<lambda>r. case r of
           None \<Rightarrow> failS (Msg ''TPM Sign'')
         | Some sg \<Rightarrow> liftS (bindE (optE (Msg ''not ECDSA'') sg) (\<lambda>(rb, sb).
             bindE (fill32 rb) (\<lambda>x. bindE (fill32 sb) (\<lambda>y. Inr (x @ y)))))))))"

definition tpm_CreateAgreementKey :: "('k, 's, 'n, 'x) chip_host_scheme \<Rightarrow> string \<Rightarrow> ('n, bytes) io" where
  "tpm_CreateAgreementKey h label =
     bindS (readTPMKeyFile h label) (\<lambda>(pub, _). liftS (bindE (contents h pub) tpmPoint))"

definition tpm_Agree :: "('k, 's, 'n, 'x) chip_host_scheme \<Rightarrow> string \<Rightarrow> bytes \<Rightarrow> ('n, bytes) io" where
  "tpm_Agree h label peer =
     (if length peer \<noteq> 65 \<or> peer ! 0 \<noteq> 4 then failS (Msg ''peer key must be a 65-byte uncompressed P-256 point'')
      else if \<not> p256_point peer then failS (Msg ''peer key is not on P-256'')
      else with_session h (\<lambda>srk.
        bindS (load_key h srk label) (\<lambda>key.
        deferS (on_net_unit (t_flush (h_tpm h) key))
          (bindS (on_net (t_zgen (h_tpm h) key (take 32 (drop 1 peer), take 32 (drop 33 peer)))) (\<lambda>r. case r of
              None \<Rightarrow> failS (Msg ''TPM ECDH_ZGen'')
            | Some z \<Rightarrow> liftS (bindE (optE (Msg ''contents'') z) fill32))))))"

definition tpm_Delete :: "('k, 's, 'n, 'x) chip_host_scheme \<Rightarrow> string \<Rightarrow> ('n, unit) io" where
  "tpm_Delete h label =
     bindS (liftS (tpmKeyPath h label)) (\<lambda>path.
     bindS (tryS (remove_file path)) (\<lambda>r. case r of
         Inl e \<Rightarrow> if e = NotExist then retS () else failS e
       | Inr _ \<Rightarrow> retS ()))"

definition linuxTPM :: "('k, 's, 'n, 'x) chip_host_scheme \<Rightarrow> 'n keystore" where
  "linuxTPM h = \<lparr>ks_Create = tpm_Create h, ks_PublicKey = tpm_PublicKey h, ks_Sign = tpm_Sign h,
     ks_CreateAgreementKey = tpm_CreateAgreementKey h, ks_Agree = tpm_Agree h, ks_Delete = tpm_Delete h\<rparr>"

text \<open>\<open>openKeystore\<close>: the device is there.\<close>

definition openKeystore :: "('k, 's, 'n, 'x) chip_host_scheme \<Rightarrow> ('n, 'n keystore) io" where
  "openKeystore h = bindS (wrapS (Ctx ''no TPM'') (stat_file (tpmDevice h))) (\<lambda>_. retS (linuxTPM h))"

section \<open>The ssh-agent\<close>

record 'n chipAgent =
  ca_ks :: "'n keystore"
  ca_label :: string
  ca_pub :: "string \<times> bytes"

definition newChipAgent :: "('k, 's, 'n, 'x) chip_host_scheme \<Rightarrow> 'n keystore \<Rightarrow> string \<Rightarrow> ('n, 'n chipAgent) io" where
  "newChipAgent h ks label =
     bindS (wrapS (Ctx ''load public key'') (ks_PublicKey ks label)) (\<lambda>line.
     bindS (liftS (optE (Msg ''parse keystore public key'') (h_authorized_key h line))) (\<lambda>pub.
     retS \<lparr>ca_ks = ks, ca_label = label, ca_pub = pub\<rparr>))"

definition agent_List :: "'n chipAgent \<Rightarrow> (string \<times> bytes \<times> string) list" where
  "agent_List a = [(fst (ca_pub a), snd (ca_pub a), ''p3sig:'' @ ca_label a)]"

text \<open>A signature is its format and its blob.\<close>

definition SignWithFlags ::
  "('k, 's, 'n, 'x) chip_host_scheme \<Rightarrow> 'n chipAgent \<Rightarrow> bytes \<Rightarrow> bytes \<Rightarrow> ('n, string \<times> bytes) io" where
  "SignWithFlags h a key data =
     (if key \<noteq> snd (ca_pub a) then failS (Msg ''agent: no matching key for signature request'')
      else bindS (ks_Sign (ca_ks a) (ca_label a) data) (\<lambda>raw.
        bindS (liftS (optE (Msg ''unrecognized ECDSA signature format'') (normalizeECDSASig raw))) (\<lambda>rs.
        retS (fst (ca_pub a), h_mpints h rs))))"

text \<open>What the agent protocol can ask for.\<close>

datatype agent_request = AgList | AgSign bytes bytes | AgSigners | AgAdd | AgRemove bytes | AgRemoveAll | AgLock bytes | AgUnlock bytes

datatype agent_reply = RKeys "(string \<times> bytes \<times> string) list" | RSignature "string \<times> bytes"

fun agent_serve :: "('k, 's, 'n, 'x) chip_host_scheme \<Rightarrow> 'n chipAgent \<Rightarrow> agent_request \<Rightarrow> ('n, agent_reply) io" where
  "agent_serve h a AgList = retS (RKeys (agent_List a))"
| "agent_serve h a (AgSign key data) = bindS (SignWithFlags h a key data) (\<lambda>sg. retS (RSignature sg))"
| "agent_serve h a AgSigners = failS (Msg ''agent: Signers unsupported (chip key is non-extractable)'')"
| "agent_serve h a AgAdd = failS (Msg ''read-only'')"
| "agent_serve h a (AgRemove _) = failS (Msg ''read-only'')"
| "agent_serve h a AgRemoveAll = failS (Msg ''read-only'')"
| "agent_serve h a (AgLock _) = failS (Msg ''read-only'')"
| "agent_serve h a (AgUnlock _) = failS (Msg ''read-only'')"

section \<open>Commands\<close>

text \<open>The first argument is the platform's \<open>openKeystore\<close>, \<open>openKeystore h\<close> on Linux.\<close>

definition agentLabel :: "flags \<Rightarrow> string" where
  "agentLabel f = (if flag f ''label'' \<noteq> [] then flag f ''label'' else ''p3sig'')"

definition cmdSetup :: "('n, 'n keystore) io \<Rightarrow> flags \<Rightarrow> ('n, unit) io" where
  "cmdSetup opened f =
     (let label = agentLabel f
      in bindS opened (\<lambda>ks.
         if flag f ''delete'' = ''true'' then ks_Delete ks label
         else if flag f ''show'' = ''true'' then bindS (ks_PublicKey ks label) println
         else bindS (ks_Create ks label) println))"

text \<open>\<open>ssh-agent\<close> up to the listener; \<open>listenAgent\<close> removes a socket of an earlier run.\<close>

definition listen_path :: "flags \<Rightarrow> ('n, string) io" where
  "listen_path f =
     (let bind = flag f ''bind''
      in if bind = [] then failS (Msg ''--bind PATH is required'')
         else bindS (ignoreS (remove_file bind)) (\<lambda>_. retS bind))"

definition cmdSSHAgent ::
  "('k, 's, 'n, 'x) chip_host_scheme \<Rightarrow> ('n, 'n keystore) io \<Rightarrow> flags \<Rightarrow> ('n, 'n chipAgent \<times> string) io" where
  "cmdSSHAgent h opened f =
     (let label = agentLabel f
      in bindS opened (\<lambda>ks.
         bindS (newChipAgent h ks label) (\<lambda>ag.
         bindS (listen_path f) (\<lambda>bind. retS (ag, bind)))))"

definition cmdKeyserverInit :: "('n, 'n keystore) io \<Rightarrow> flags \<Rightarrow> ('n, unit) io" where
  "cmdKeyserverInit opened f =
     (let label = (if flag f ''label'' = [] then ksDefaultLabel else flag f ''label'')
      in bindS opened (\<lambda>ks.
         bindS (tryS (ks_PublicKey ks label)) (\<lambda>p.
         bindS (case p of Inr _ \<Rightarrow> retS () | Inl _ \<Rightarrow> bindS (ks_Create ks label) (\<lambda>_. retS ())) (\<lambda>_.
         bindS (ks_CreateAgreementKey ks label) (\<lambda>point. println (b64_encode point))))))"

end
