(* ===== verification/KeyStore.thy ===== *)
theory KeyStore
  imports Chip
begin

text \<open>
  What the \<open>Keystore\<close> interface promises, as an abstract store of public keys by label, and that the Linux implementation
  refines it; what the agent and the commands get from it. The disk may fail at any step and leave a part of a file; the
  TPM may fail or answer anything.
\<close>

section \<open>The abstract store\<close>

datatype store_call = CCreate string | CPublicKey string | CDelete string | CSign string bytes | CAgreementKey string
  | CAgree string bytes

datatype store_reply = RLine string | RBytes bytes | RDone

fun run_call :: "'n keystore \<Rightarrow> store_call \<Rightarrow> ('n, store_reply) io" where
  "run_call ks (CCreate l) = bindS (ks_Create ks l) (\<lambda>x. retS (RLine x))"
| "run_call ks (CPublicKey l) = bindS (ks_PublicKey ks l) (\<lambda>x. retS (RLine x))"
| "run_call ks (CDelete l) = bindS (ks_Delete ks l) (\<lambda>_. retS RDone)"
| "run_call ks (CSign l d) = bindS (ks_Sign ks l d) (\<lambda>x. retS (RBytes x))"
| "run_call ks (CAgreementKey l) = bindS (ks_CreateAgreementKey ks l) (\<lambda>x. retS (RBytes x))"
| "run_call ks (CAgree l p) = bindS (ks_Agree ks l p) (\<lambda>x. retS (RBytes x))"

fun call_label :: "store_call \<Rightarrow> string" where
  "call_label (CCreate l) = l"
| "call_label (CPublicKey l) = l"
| "call_label (CDelete l) = l"
| "call_label (CSign l _) = l"
| "call_label (CAgreementKey l) = l"
| "call_label (CAgree l _) = l"

text \<open>
  A step of the store: the keys before, the call, its result, the keys after. Creating adds a key under a free label; when
  it fails it may have added one, and has changed no other.
\<close>

inductive store_step ::
  "(string \<Rightarrow> string option) \<Rightarrow> store_call \<Rightarrow> err + store_reply \<Rightarrow> (string \<Rightarrow> string option) \<Rightarrow> bool" where
  created: "K l = None \<Longrightarrow> store_step K (CCreate l) (Inr (RLine line)) (K(l \<mapsto> line))"
| create_failed: "K \<subseteq>\<^sub>m K' \<Longrightarrow> (\<And>m. m \<noteq> l \<Longrightarrow> K' m = K m) \<Longrightarrow> store_step K (CCreate l) (Inl e) K'"
| shown: "K l = Some line \<Longrightarrow> store_step K (CPublicKey l) (Inr (RLine line)) K"
| deleted: "store_step K (CDelete l) (Inr RDone) (K(l := None))"
| kept: "(\<And>l. c \<noteq> CCreate l) \<Longrightarrow> store_step K c (Inl e) K"
| signed: "store_step K (CSign l d) (Inr (RBytes b)) K"
| agreement: "store_step K (CAgreementKey l) (Inr (RBytes b)) K"
| agreed: "store_step K (CAgree l p) (Inr (RBytes b)) K"

inductive_cases shown_cases: "store_step K (CPublicKey l) (Inr r) K'"

lemma step_keeps_key:
  assumes "store_step K c r K'" "K l = Some line" "c \<noteq> CDelete l"
  shows "K' l = Some line"
  using assms by (induction rule: store_step.induct) (auto simp: map_le_def dom_def)

fun run_calls :: "'n keystore \<Rightarrow> store_call list \<Rightarrow> 'n world \<Rightarrow> 'n world" where
  "run_calls ks [] s = s"
| "run_calls ks (c # cs) s = run_calls ks cs (snd (run_call ks c s))"

section \<open>The interface and what its clients rely on\<close>

text \<open>\<open>invar\<close> is what the implementation keeps of its own state, \<open>valid\<close> the labels it takes.\<close>

locale chip_store =
  fixes keys :: "'n world \<Rightarrow> string \<Rightarrow> string option"
    and invar :: "'n world \<Rightarrow> bool"
    and valid :: "string \<Rightarrow> bool"
    and ks :: "'n keystore"
  assumes invar_call: "invar s \<Longrightarrow> valid (call_label c) \<Longrightarrow> run_call ks c s = (r, t) \<Longrightarrow> invar t"
    and create_ok: "invar s \<Longrightarrow> valid l \<Longrightarrow> ks_Create ks l s = (Inr line, t) \<Longrightarrow> keys s l = None \<and> keys t = (keys s)(l \<mapsto> line)"
    and create_err: "invar s \<Longrightarrow> valid l \<Longrightarrow> ks_Create ks l s = (Inl e, t) \<Longrightarrow>
      keys s \<subseteq>\<^sub>m keys t \<and> (\<forall>m. m \<noteq> l \<longrightarrow> keys t m = keys s m)"
    and public_ok: "invar s \<Longrightarrow> valid l \<Longrightarrow> ks_PublicKey ks l s = (Inr line, t) \<Longrightarrow> keys s l = Some line"
    and public_keeps: "invar s \<Longrightarrow> valid l \<Longrightarrow> keys (snd (ks_PublicKey ks l s)) = keys s"
    and delete_ok: "invar s \<Longrightarrow> valid l \<Longrightarrow> ks_Delete ks l s = (Inr (), t) \<Longrightarrow> keys t = (keys s)(l := None)"
    and delete_err: "invar s \<Longrightarrow> valid l \<Longrightarrow> ks_Delete ks l s = (Inl e, t) \<Longrightarrow> keys t = keys s"
    and sign_keeps: "invar s \<Longrightarrow> valid l \<Longrightarrow> keys (snd (ks_Sign ks l d s)) = keys s"
    and agreement_keeps: "invar s \<Longrightarrow> valid l \<Longrightarrow> keys (snd (ks_CreateAgreementKey ks l s)) = keys s"
    and agree_keeps: "invar s \<Longrightarrow> valid l \<Longrightarrow> keys (snd (ks_Agree ks l p s)) = keys s"
begin

lemma simulates:
  assumes "invar s" "valid (call_label c)" "run_call ks c s = (r, t)"
  shows "store_step (keys s) c r (keys t)"
proof (cases c)
  case (CCreate l)
  obtain q u where q: "ks_Create ks l s = (q, u)" by (cases "ks_Create ks l s")
  show ?thesis
  proof (cases q)
    case (Inl e)
    with assms CCreate q create_err [of s l e u] show ?thesis by (auto simp: bindS_def intro: create_failed)
  next
    case (Inr line)
    with assms CCreate q create_ok [of s l line u] show ?thesis by (auto simp: bindS_def intro: created)
  qed
next
  case (CPublicKey l)
  obtain q u where q: "ks_PublicKey ks l s = (q, u)" by (cases "ks_PublicKey ks l s")
  with assms CPublicKey public_keeps [of s l] have "keys u = keys s" by simp
  with assms CPublicKey q public_ok [of s l _ u] show ?thesis
    by (cases q) (auto simp: bindS_def intro: kept shown)
next
  case (CDelete l)
  obtain q u where q: "ks_Delete ks l s = (q, u)" by (cases "ks_Delete ks l s")
  with assms CDelete delete_ok [of s l u] delete_err [of s l _ u] show ?thesis
    by (cases q) (auto simp: bindS_def intro: kept deleted)
next
  case (CSign l d)
  obtain q u where q: "ks_Sign ks l d s = (q, u)" by (cases "ks_Sign ks l d s")
  with assms CSign sign_keeps [of s l d] have "keys u = keys s" by simp
  with assms CSign q show ?thesis by (cases q) (auto simp: bindS_def intro: kept signed)
next
  case (CAgreementKey l)
  obtain q u where q: "ks_CreateAgreementKey ks l s = (q, u)" by (cases "ks_CreateAgreementKey ks l s")
  with assms CAgreementKey agreement_keeps [of s l] have "keys u = keys s" by simp
  with assms CAgreementKey q show ?thesis by (cases q) (auto simp: bindS_def intro: kept agreement)
next
  case (CAgree l p)
  obtain q u where q: "ks_Agree ks l p s = (q, u)" by (cases "ks_Agree ks l p s")
  with assms CAgree agree_keeps [of s l p] have "keys u = keys s" by simp
  with assms CAgree q show ?thesis by (cases q) (auto simp: bindS_def intro: kept agreed)
qed

lemma key_stays:
  assumes "invar s" "\<forall>c\<in>set cs. valid (call_label c)" "keys s l = Some line" "CDelete l \<notin> set cs"
  shows "invar (run_calls ks cs s) \<and> keys (run_calls ks cs s) l = Some line"
  using assms
proof (induction cs arbitrary: s)
  case (Cons c cs)
  obtain r t where rt: "run_call ks c s = (r, t)" by (cases "run_call ks c s")
  from Cons.prems(2) have v: "valid (call_label c)" by simp
  from step_keeps_key [OF simulates [OF Cons.prems(1) v rt] Cons.prems(3)] Cons.prems(4) have "keys t l = Some line" by auto
  with Cons rt invar_call [OF Cons.prems(1) v rt] show ?case by simp
qed simp

text \<open>What \<open>Create\<close> returned is what \<open>PublicKey\<close> returns later.\<close>

lemma created_then_shown:
  assumes "invar s" "valid l" "\<forall>c\<in>set cs. valid (call_label c)"
    and "ks_Create ks l s = (Inr line, t)" "CDelete l \<notin> set cs"
    and "ks_PublicKey ks l (run_calls ks cs t) = (Inr line', u)"
  shows "line' = line"
proof -
  have "run_call ks (CCreate l) s = (Inr (RLine line), t)" using assms(4) by (simp add: bindS_def)
  from invar_call [OF assms(1) _ this] assms(2) have i: "invar t" by simp
  from create_ok [OF assms(1,2,4)] have "keys t l = Some line" by simp
  from key_stays [OF i assms(3) this assms(5)] public_ok [OF _ assms(2) assms(6)] show ?thesis by simp
qed

end

section \<open>The keys of the Linux store\<close>

definition stored_line :: "('k, 's, 'n, 'x) chip_host_scheme \<Rightarrow> string \<Rightarrow> string \<Rightarrow> err + string" where
  "stored_line h l d = bindE (parseTPMKeyFile (h_tpm h) (bytes_of d)) (\<lambda>(pub, _). key_line h l pub)"

definition tpm_keys :: "('k, 's, 'n, 'x) chip_host_scheme \<Rightarrow> 'n world \<Rightarrow> string \<Rightarrow> string option" where
  "tpm_keys h s l =
     (case tpmKeyPath h l of
        Inl _ \<Rightarrow> None
      | Inr p \<Rightarrow> (case w_files s p of
            None \<Rightarrow> None
          | Some x \<Rightarrow> (case stored_line h l (fl_data x) of Inl _ \<Rightarrow> None | Inr line \<Rightarrow> Some line)))"

text \<open>What the library's encodings promise for the keys the TPM makes: they are read back, and fit the length field.\<close>

definition tpm_made :: "'n tpm \<Rightarrow> bytes \<Rightarrow> bytes \<Rightarrow> bool" where
  "tpm_made tp pub priv \<longleftrightarrow> (\<exists>srk n n'. t_create tp srk tpmKeyTemplate n = (Some (pub, priv), n'))"

definition tpm_codec :: "'n tpm \<Rightarrow> bool" where
  "tpm_codec tp \<longleftrightarrow>
     (\<forall>pub priv. tpm_made tp pub priv \<longrightarrow>
        t_unmarshal_pub tp (t_marshal_pub tp pub) = Some pub \<and> t_unmarshal_priv tp (t_marshal_priv tp priv) = Some priv \<and>
        length (t_marshal_pub tp pub) < 2 ^ 16 + 2 \<and> length (t_marshal_priv tp priv) < 2 ^ 16 + 2)"

lemma get_put_part:
  assumes "length b < 2 ^ 16 + 2" "length rest < 2 ^ 17"
  shows "get_part (put_part b @ rest) = Inr (b, rest)"
proof -
  let ?n = "word_of_nat (length b) :: 32 word"
  have n: "unat ?n = length b" using assms by (simp add: unat_of_nat)
  have "unat (word_of_nat (length b + length rest) :: 32 word) = length b + length rest"
    using assms by (simp add: unat_of_nat del: of_nat_add)
  then have l: "unat (word_of_nat (length b) + word_of_nat (length rest) :: 32 word) = length b + length rest" by simp
  have four: "unat (4 + ?n) = 4 + length b" using assms n by (simp add: unat_word_ariths)
  have "\<not> (word_of_nat (length b) + word_of_nat (length rest) :: 32 word) < ?n" using n l by (simp add: word_less_nat_alt)
  moreover have "\<not> 4 + ?n < 4" using four by (simp add: word_less_nat_alt)
  ultimately show ?thesis
    by (simp add: get_part_def put_part_def Let_def n four)
qed

lemma parse_written:
  assumes "tpm_codec tp" "tpm_made tp pub priv"
  shows "parseTPMKeyFile tp (put_part (t_marshal_pub tp pub) @ put_part (t_marshal_priv tp priv)) = Inr (pub, priv)"
proof -
  note a = assms(1) [unfolded tpm_codec_def, rule_format, OF assms(2)]
  have "length (put_part (t_marshal_priv tp priv)) < 2 ^ 17" using a by (simp add: put_part_def)
  with a get_put_part [of "t_marshal_pub tp pub" "put_part (t_marshal_priv tp priv)"]
    get_put_part [of "t_marshal_priv tp priv" "[]"]
  show ?thesis by (simp add: parseTPMKeyFile_def)
qed

lemma label_plain:
  assumes "tpmKeyPath h l = Inr p"
  shows "plain_name (l @ ''.tpmkey'')"
proof -
  have "label_char slash = False" by (simp add: label_char_def)
  moreover have "list_all label_char l" "l \<noteq> []"
    using assms by (auto simp: tpmKeyPath_def tpmLabelOK_def split: if_splits)
  ultimately have "slash \<notin> set l" by (auto simp: list_all_iff)
  then show ?thesis by (auto simp: plain_name_def Cons_eq_append_conv append_eq_Cons_conv)
qed

lemma tpmKeyPath_inject:
  assumes "tpmKeyPath h a = Inr p" "tpmKeyPath h b = Inr p"
  shows "a = b"
proof -
  obtain d where "tpmKeyDir h = Inr d" using assms(1) by (auto simp: tpmKeyPath_def bindE_Inr split: if_splits)
  with assms have "path_join [d, a @ ''.tpmkey''] = path_join [d, b @ ''.tpmkey'']"
    by (simp add: tpmKeyPath_def split: if_splits)
  with label_plain [OF assms(1)] label_plain [OF assms(2)] show ?thesis by simp
qed

lemma tpm_keys_cong: "w_files t = w_files s \<Longrightarrow> tpm_keys h t = tpm_keys h s"
  by (rule ext) (simp add: tpm_keys_def split: sum.split option.split)

lemma tpm_keys_other:
  assumes "tpmKeyPath h l = Inr p" "\<And>q. q \<noteq> p \<Longrightarrow> w_files t q = w_files s q" "m \<noteq> l"
  shows "tpm_keys h t m = tpm_keys h s m"
proof (cases "tpmKeyPath h m")
  case (Inr q)
  with assms(1,3) tpmKeyPath_inject [of h l p m] have "q \<noteq> p" by auto
  with Inr assms(2) show ?thesis by (simp add: tpm_keys_def)
qed (simp add: tpm_keys_def)

section \<open>What the operations change on the disk\<close>

lemma preserves_defer [preserves_intros]: "preserves I m \<Longrightarrow> preserves I d \<Longrightarrow> preserves I (deferS d m)"
  by (auto simp: preserves_def deferS_def split: prod.split)

lemma preserves_on_net [preserves_intros]: "preserves (files_inv P) (on_net f)" "preserves (files_inv P) (on_net_unit g)"
  by (auto simp: preserves_def on_net_def on_net_unit_def split: prod.split)

lemma preserves_session [preserves_intros]:
  "(\<And>srk. preserves (files_inv P) (body srk)) \<Longrightarrow> preserves (files_inv P) (with_session h body)"
  unfolding with_session_def openTPMSession_def close_session_def by (intro preserves_intros)

lemma preserves_readTPMKeyFile [preserves_intros]: "preserves (files_inv P) (readTPMKeyFile h l)"
  unfolding readTPMKeyFile_def by (intro preserves_intros)

lemma preserves_load_key [preserves_intros]: "preserves (files_inv P) (load_key h srk l)"
  unfolding load_key_def by (intro preserves_intros)

lemma tpm_reads_quiet:
  "preserves (files_inv P) (tpm_PublicKey h l)" "preserves (files_inv P) (tpm_Sign h l d)"
  "preserves (files_inv P) (tpm_CreateAgreementKey h l)" "preserves (files_inv P) (tpm_Agree h l p)"
  unfolding tpm_PublicKey_def tpm_Sign_def tpm_CreateAgreementKey_def tpm_Agree_def by (intro preserves_intros)+

lemma quiet_files:
  assumes "\<And>P. preserves (files_inv P) m"
  shows "w_files (snd (m s)) = w_files s"
  using assms [of "\<lambda>fs. fs = w_files s"] by (simp add: preserves_def files_inv_def)

text \<open>An operation that touches \<open>p\<close> only.\<close>

definition others :: "string \<Rightarrow> (string \<Rightarrow> inode option) \<Rightarrow> (string \<Rightarrow> inode option) \<Rightarrow> bool" where
  "others p F fs \<longleftrightarrow> (\<forall>q. q \<noteq> p \<longrightarrow> fs q = F q)"

lemma preserves_create_excl: "preserves (files_inv (others p F)) (create_excl p m)"
  unfolding create_excl_def
  by (rule with_fault_preserves) (auto simp: preserves_def put_file_def files_inv_def others_def split: option.split)

lemma preserves_sync [preserves_intros]: "preserves (files_inv P) sync_handle"
  unfolding sync_handle_def by (rule with_fault_preserves) (auto simp: preserves_def)

lemma others_write: "preserves (files_inv (others p F)) (write_handle p d)" "preserves (files_inv (others p F)) (remove_file p)"
  unfolding write_handle_def by (rule preserves_writeFile preserves_remove; simp add: others_def)+

lemma create_excl_result:
  "create_excl p m s = (Inr (), t) \<Longrightarrow> w_files s p = None"
  "w_files s p \<noteq> None \<Longrightarrow> create_excl p m s = (r, t) \<Longrightarrow> (\<exists>e. r = Inl e) \<and> w_files t = w_files s"
  by (auto simp: create_excl_def with_fault_def split: list.splits if_splits option.splits)

lemma write_excl_result:
  assumes "write_excl p d s = (r, t)"
  shows "others p (w_files s) (w_files t)"
    and "r = Inr () \<Longrightarrow> w_files s p = None \<and> (\<exists>x. w_files t p = Some x \<and> fl_data x = d)"
    and "w_files s p \<noteq> None \<Longrightarrow> w_files t = w_files s"
proof -
  have "preserves (files_inv (others p (w_files s))) (write_excl p d)"
    unfolding write_excl_def by (intro preserves_intros preserves_create_excl others_write)
  from preservesD [OF this _ assms] show "others p (w_files s) (w_files t)" by (simp add: files_inv_def others_def)
  obtain r2 s2 where 2: "create_excl p mode600 s = (r2, s2)" by (cases "create_excl p mode600 s")
  show "w_files t = w_files s" if "w_files s p \<noteq> None"
    using create_excl_result(2) [OF that 2] assms 2 by (auto simp: write_excl_def bindS_def)
  assume "r = Inr ()"
  with assms obtain s1 where s1: "create_excl p mode600 s = (Inr (), s1)"
    by (auto simp: write_excl_def result_simps)
  obtain w s3 where "write_handle p d s1 = (w, s3)" by (cases "write_handle p d s1")
  with assms \<open>r = Inr ()\<close> s1 have s: "create_excl p mode600 s = (Inr (), s1)" "write_handle p d s1 = (w, s3)"
    "(case w of Inl e \<Rightarrow> bindS (ignoreS sync_handle) (\<lambda>_. bindS (ignoreS (remove_file p)) (\<lambda>_. failS e)) | Inr _ \<Rightarrow> sync_handle) s3
      = (Inr (), t)"
    by (simp_all add: write_excl_def tryS_def bindS_def)
  then have w: "w = Inr ()" and sync: "sync_handle s3 = (Inr (), t)"
    by (auto simp: result_simps split: sum.splits)
  have "w_files t = w_files s3" using quiet_files [of sync_handle s3] sync by (simp add: preserves_sync)
  with writeFile_Inr [of p d mode600 s1 s3] s(2) w create_excl_result(1) [OF s(1)]
  show "w_files s p = None \<and> (\<exists>x. w_files t p = Some x \<and> fl_data x = d)" by (simp add: write_handle_def)
qed

lemma write_key_result:
  assumes "writeTPMKeyFile h l pub priv s = (r, t)" "tpmKeyPath h l = Inr p"
  shows "others p (w_files s) (w_files t)"
    and "r = Inr () \<Longrightarrow> w_files s p = None \<and> (\<exists>x. w_files t p = Some x \<and>
          bytes_of (fl_data x) = put_part (t_marshal_pub (h_tpm h) pub) @ put_part (t_marshal_priv (h_tpm h) priv))"
    and "w_files s p \<noteq> None \<Longrightarrow> w_files t = w_files s"
proof -
  let ?buf = "string_of (put_part (t_marshal_pub (h_tpm h) pub) @ put_part (t_marshal_priv (h_tpm h) priv))"
  obtain q s1 where 1: "mkdirAll (path_dir p) s = (q, s1)" by (cases "mkdirAll (path_dir p) s")
  have m: "w_files s1 = w_files s"
    using quiet_files [OF preserves_quiet(2), of "path_dir p" s] 1 by simp
  have run: "(case q of Inl e \<Rightarrow> (Inl e, s1) | Inr _ \<Rightarrow> write_excl p ?buf s1) = (r, t)"
    using assms 1 by (cases q) (auto simp: writeTPMKeyFile_def bindS_def)
  consider e where "r = Inl e" "t = s1" | "write_excl p ?buf s1 = (r, t)"
    using run by (cases q) auto
  then have "others p (w_files s) (w_files t) \<and> (r = Inr () \<longrightarrow> w_files s p = None \<and> (\<exists>x. w_files t p = Some x \<and>
      bytes_of (fl_data x) = put_part (t_marshal_pub (h_tpm h) pub) @ put_part (t_marshal_priv (h_tpm h) priv))) \<and>
      (w_files s p \<noteq> None \<longrightarrow> w_files t = w_files s)"
  proof cases
    case 2
    from write_excl_result [OF 2] m show ?thesis by auto
  qed (use m in \<open>simp add: others_def\<close>)
  then show "others p (w_files s) (w_files t)"
    and "r = Inr () \<Longrightarrow> w_files s p = None \<and> (\<exists>x. w_files t p = Some x \<and>
          bytes_of (fl_data x) = put_part (t_marshal_pub (h_tpm h) pub) @ put_part (t_marshal_priv (h_tpm h) priv))"
    and "w_files s p \<noteq> None \<Longrightarrow> w_files t = w_files s" by blast+
qed

lemma session_result:
  assumes "with_session h body s = (r, t)"
  shows "(\<exists>e. r = Inl e \<and> w_files t = w_files s) \<or>
    (\<exists>srk s1 t1. w_files s1 = w_files s \<and> body srk s1 = (r, t1) \<and> w_files t = w_files t1)"
proof -
  have q: "preserves (files_inv P) (openTPMSession h)" "preserves (files_inv P) (close_session h srk)" for P srk
    unfolding openTPMSession_def close_session_def by (intro preserves_intros)+
  obtain q1 s1 where 1: "openTPMSession h s = (q1, s1)" by (cases "openTPMSession h s")
  have f1: "w_files s1 = w_files s" using quiet_files [OF q(1), of s] 1 by simp
  show ?thesis
  proof (cases q1)
    case (Inl e)
    with assms 1 f1 show ?thesis by (auto simp: with_session_def bindS_def)
  next
    case (Inr srk)
    obtain r1 t1 where b: "body srk s1 = (r1, t1)" by (cases "body srk s1")
    with assms 1 Inr have "r = r1" "t = snd (close_session h srk t1)"
      by (auto simp: with_session_def bindS_def deferS_def)
    with quiet_files [OF q(2), of srk t1] b f1 show ?thesis by blast
  qed
qed

section \<open>The Linux store refines the abstract one\<close>

lemma create_result:
  assumes "tpm_Create h l s = (r, t)" "tpmKeyPath h l = Inr p"
  shows "others p (w_files s) (w_files t) \<and> (w_files s p \<noteq> None \<longrightarrow> w_files t = w_files s) \<and>
    (\<forall>line. r = Inr line \<longrightarrow> w_files s p = None \<and> (\<exists>pub priv x. tpm_made (h_tpm h) pub priv \<and>
          key_line h l pub = Inr line \<and> w_files t p = Some x \<and>
          bytes_of (fl_data x) = put_part (t_marshal_pub (h_tpm h) pub) @ put_part (t_marshal_priv (h_tpm h) priv)))"
    (is "?P t r")
proof -
  obtain q s0 where 0: "stat_file p s = (q, s0)" by (cases "stat_file p s")
  have f0: "w_files s0 = w_files s" using quiet_files [OF preserves_quiet(3), of p s] 0 by simp
  show ?thesis
  proof (cases q)
    case (Inr u)
    with assms 0 f0 show ?thesis by (auto simp: tpm_Create_def bindS_def tryS_def others_def)
  next
    case (Inl e0)
    let ?body = "\<lambda>srk. bindS (on_net (t_create (h_tpm h) srk tpmKeyTemplate)) (\<lambda>r. case r of
        None \<Rightarrow> failS (Msg ''TPM Create'')
      | Some (pub, priv) \<Rightarrow> bindS (writeTPMKeyFile h l pub priv) (\<lambda>_. liftS (key_line h l pub)))"
    have "with_session h ?body s0 = (r, t)" using assms 0 Inl by (simp add: tpm_Create_def bindS_def tryS_def)
    from session_result [OF this] consider e where "r = Inl e" "w_files t = w_files s0"
      | srk s1 t1 where "w_files s1 = w_files s0" "?body srk s1 = (r, t1)" "w_files t = w_files t1" by blast
    then show ?thesis
    proof cases
      case (2 srk s1 t1)
      obtain c n where n: "t_create (h_tpm h) srk tpmKeyTemplate (w_net s1) = (c, n)"
        by (cases "t_create (h_tpm h) srk tpmKeyTemplate (w_net s1)")
      then obtain s2 where c: "on_net (t_create (h_tpm h) srk tpmKeyTemplate) s1 = (Inr c, s2)" "w_files s2 = w_files s1"
        by (simp add: on_net_def)
      show ?thesis
      proof (cases c)
        case None
        with 2 c f0 show ?thesis by (auto simp: bindS_def others_def)
      next
        case (Some pp)
        obtain pub priv where pp: "pp = (pub, priv)" by (cases pp)
        have made: "tpm_made (h_tpm h) pub priv" using n Some pp by (auto simp: tpm_made_def)
        obtain w s3 where w: "writeTPMKeyFile h l pub priv s2 = (w, s3)" by (cases "writeTPMKeyFile h l pub priv s2")
        from made write_key_result [OF w assms(2)] 2 c f0 Some pp w
        show ?thesis by (cases w) (auto simp: bindS_def)
      qed
    qed (use f0 in \<open>simp add: others_def\<close>)
  qed
qed

lemma tpm_keys_path: "tpmKeyPath h l = Inl e \<Longrightarrow> tpm_keys h s l = None"
  by (simp add: tpm_keys_def)

lemma tpm_keys_absent: "tpmKeyPath h l = Inr p \<Longrightarrow> w_files s p = None \<Longrightarrow> tpm_keys h s l = None"
  by (simp add: tpm_keys_def)

lemma invalid_label_creates_nothing: "tpmKeyPath h l = Inl e \<Longrightarrow> tpm_Create h l s = (Inl e, s)"
  by (simp add: tpm_Create_def)

lemma tpm_create_ok:
  assumes "tpm_codec (h_tpm h)" "tpm_Create h l s = (Inr line, t)"
  shows "tpm_keys h s l = None \<and> tpm_keys h t = (tpm_keys h s)(l \<mapsto> line)"
proof -
  obtain p where p: "tpmKeyPath h l = Inr p"
    using assms(2) invalid_label_creates_nothing [of h l _ s] by (cases "tpmKeyPath h l") auto
  from create_result [OF assms(2) p] obtain pub priv x where x: "w_files s p = None" "others p (w_files s) (w_files t)"
    "tpm_made (h_tpm h) pub priv"
    "key_line h l pub = Inr line" "w_files t p = Some x"
    "bytes_of (fl_data x) = put_part (t_marshal_pub (h_tpm h) pub) @ put_part (t_marshal_priv (h_tpm h) priv)" by blast
  then have "tpm_keys h t l = Some line"
    using p parse_written [OF assms(1) x(3)] by (simp add: tpm_keys_def stored_line_def)
  moreover have "tpm_keys h t m = tpm_keys h s m" if "m \<noteq> l" for m
    using tpm_keys_other [OF p _ that, where s = s and t = t] x(2) by (simp add: others_def)
  ultimately show ?thesis using tpm_keys_absent [OF p x(1)] by auto
qed

lemma tpm_create_err:
  assumes "tpm_Create h l s = (Inl e, t)"
  shows "tpm_keys h s \<subseteq>\<^sub>m tpm_keys h t \<and> (\<forall>m. m \<noteq> l \<longrightarrow> tpm_keys h t m = tpm_keys h s m)"
proof (cases "tpmKeyPath h l")
  case (Inl e')
  with assms invalid_label_creates_nothing [OF Inl, of s] show ?thesis by simp
next
  case (Inr p)
  note r = create_result [OF assms Inr]
  show ?thesis
  proof (cases "w_files s p")
    case None
    have "tpm_keys h t m = tpm_keys h s m" if "m \<noteq> l" for m
      using tpm_keys_other [OF Inr _ that, where s = s and t = t] r by (simp add: others_def)
    moreover from this tpm_keys_absent [OF Inr None] have "tpm_keys h s \<subseteq>\<^sub>m tpm_keys h t"
      by (auto simp: map_le_def) (metis option.distinct(1))
    ultimately show ?thesis by blast
  next
    case (Some x)
    with r have "w_files t = w_files s" by simp
    from tpm_keys_cong [OF this, of h] show ?thesis by simp
  qed
qed

lemma read_key_result:
  assumes "readTPMKeyFile h l s = (Inr (pub, priv), t)"
  shows "\<exists>p x. tpmKeyPath h l = Inr p \<and> w_files s p = Some x \<and> parseTPMKeyFile (h_tpm h) (bytes_of (fl_data x)) = Inr (pub, priv)"
proof -
  obtain p where p: "tpmKeyPath h l = Inr p"
    using assms by (cases "tpmKeyPath h l") (auto simp: readTPMKeyFile_def bindS_def)
  obtain r u where r: "readFile p s = (r, u)" by (cases "readFile p s")
  with assms p have "(case r of Inl e \<Rightarrow> failS (if e = NotExist then Msg ''no TPM key'' else e)
      | Inr b \<Rightarrow> liftS (parseTPMKeyFile (h_tpm h) (bytes_of b))) u = (Inr (pub, priv), t)"
    by (simp add: readTPMKeyFile_def bindS_def tryS_def)
  then obtain b where b: "r = Inr b" "parseTPMKeyFile (h_tpm h) (bytes_of b) = Inr (pub, priv)" by (cases r) auto
  from readFile_Inr [of p s b u] r b p show ?thesis by auto
qed

lemma tpm_public_ok:
  assumes "tpm_PublicKey h l s = (Inr line, t)"
  shows "tpm_keys h s l = Some line"
proof -
  from assms obtain pub priv where r: "readTPMKeyFile h l s = (Inr (pub, priv), t)" "key_line h l pub = Inr line"
    by (auto simp: tpm_PublicKey_def result_simps)
  from read_key_result [OF r(1)] r(2) show ?thesis by (auto simp: tpm_keys_def stored_line_def)
qed

lemma delete_result:
  assumes "tpm_Delete h l s = (r, t)" "tpmKeyPath h l = Inr p"
  shows "w_files t = w_files s \<and> (r = Inr () \<longrightarrow> w_files s p = None) \<or> r = Inr () \<and> w_files t = (w_files s)(p := None)"
  using assms
  by (auto simp: tpm_Delete_def bindS_def tryS_def remove_file_def with_fault_def split: list.splits if_splits option.splits)

lemma tpm_keys_removed:
  assumes "tpmKeyPath h l = Inr p" "w_files t = (w_files s)(p := None)"
  shows "tpm_keys h t = (tpm_keys h s)(l := None)"
proof
  fix m show "tpm_keys h t m = ((tpm_keys h s)(l := None)) m"
    using tpm_keys_other [OF assms(1), where s = s and t = t and m = m] tpm_keys_absent [OF assms(1), of t] assms(2) by auto
qed

lemma tpm_delete:
  assumes "tpm_Delete h l s = (r, t)"
  shows "case r of Inr _ \<Rightarrow> tpm_keys h t = (tpm_keys h s)(l := None) | Inl _ \<Rightarrow> tpm_keys h t = tpm_keys h s"
proof (cases "tpmKeyPath h l")
  case (Inl e)
  with assms show ?thesis by (auto simp: tpm_Delete_def)
next
  case (Inr p)
  from delete_result [OF assms Inr] show ?thesis
  proof
    assume d: "w_files t = w_files s \<and> (r = Inr () \<longrightarrow> w_files s p = None)"
    with tpm_keys_cong [of t s h] tpm_keys_absent [OF Inr, of s] show ?thesis by (auto split: sum.split)
  next
    assume "r = Inr () \<and> w_files t = (w_files s)(p := None)"
    with tpm_keys_removed [OF Inr, of t s] show ?thesis by simp
  qed
qed

lemma tpm_chip_store:
  assumes "tpm_codec (h_tpm h)"
  shows "chip_store (tpm_keys h) (\<lambda>_. True) (\<lambda>_. True) (linuxTPM h)"
proof (unfold_locales, goal_cases)
  case 1 show ?case by simp
next
  case (2 s l line t) then show ?case using tpm_create_ok [OF assms] by (simp add: linuxTPM_def)
next
  case (3 s l e t) then show ?case using tpm_create_err by (simp add: linuxTPM_def)
next
  case (4 s l line t) then show ?case using tpm_public_ok by (simp add: linuxTPM_def)
next
  case (6 s l t) then show ?case using tpm_delete [of h l s "Inr ()" t] by (simp add: linuxTPM_def)
next
  case (7 s l e t) then show ?case using tpm_delete [of h l s "Inl e" t] by (simp add: linuxTPM_def)
next
  case (5 s l) show ?case
    using tpm_keys_cong [OF quiet_files [OF tpm_reads_quiet(1)]] by (simp add: linuxTPM_def)
next
  case (8 s l d) show ?case
    using tpm_keys_cong [OF quiet_files [OF tpm_reads_quiet(2)]] by (simp add: linuxTPM_def)
next
  case (9 s l) show ?case
    using tpm_keys_cong [OF quiet_files [OF tpm_reads_quiet(3)]] by (simp add: linuxTPM_def)
next
  case (10 s l p) show ?case
    using tpm_keys_cong [OF quiet_files [OF tpm_reads_quiet(4)]] by (simp add: linuxTPM_def)
qed

text \<open>The codec of the library as a locale, so that the store's facts are available where it holds.\<close>

locale tpm_library =
  fixes h :: "('k, 's, 'n, 'x) chip_host_scheme"
  assumes codec: "tpm_codec (h_tpm h)"

sublocale tpm_library \<subseteq> store: chip_store "tpm_keys h" "\<lambda>_. True" "\<lambda>_. True" "linuxTPM h"
  by (rule tpm_chip_store) (rule codec)

section \<open>Signatures\<close>

lemma fill32_Inr: "fill32 b = Inr x \<longleftrightarrow> set_bytes b < 256 ^ 32 \<and> x = be_fixed 32 (set_bytes b)"
  by (simp add: fill32_def fill_bytes_Some)

lemma deferS_Inr: "deferS d m s = (Inr x, t) \<Longrightarrow> \<exists>u. m s = (Inr x, u)"
  by (auto simp: deferS_def split: prod.splits)

lemma on_net_Inr: "on_net f s = (Inr x, t) \<Longrightarrow> fst (f (w_net s)) = x \<and> w_files t = w_files s"
  by (auto simp: on_net_def split: prod.splits)

text \<open>The key a label stands for: its file, loaded under the storage root.\<close>

definition loads_as :: "('k, 's, 'n, 'x) chip_host_scheme \<Rightarrow> (string \<Rightarrow> inode option) \<Rightarrow> string \<Rightarrow> nat \<Rightarrow> bool" where
  "loads_as h fs l key \<longleftrightarrow>
     (\<exists>p x pub priv srk n. tpmKeyPath h l = Inr p \<and> fs p = Some x \<and>
        parseTPMKeyFile (h_tpm h) (bytes_of (fl_data x)) = Inr (pub, priv) \<and> fst (t_load (h_tpm h) srk priv pub n) = Some key)"

lemma load_key_result:
  assumes "load_key h srk l s = (Inr key, t)"
  shows "loads_as h (w_files s) l key \<and> w_files t = w_files s"
proof -
  from assms obtain pub priv s1 where 1: "readTPMKeyFile h l s = (Inr (pub, priv), s1)"
    "bindS (on_net (t_load (h_tpm h) srk priv pub)) (\<lambda>r. case r of
         None \<Rightarrow> failS (Msg ''TPM Load'')
       | Some hnd \<Rightarrow> (case t_contents (h_tpm h) pub of
             None \<Rightarrow> bindS (on_net_unit (t_flush (h_tpm h) hnd)) (\<lambda>_. failS (Msg ''contents''))
           | Some _ \<Rightarrow> retS hnd)) s1 = (Inr key, t)"
    by (auto simp: load_key_def result_simps)
  have f: "w_files s1 = w_files s" using quiet_files [OF preserves_readTPMKeyFile, of h l s] 1(1) by simp
  from 1(2) obtain r s2 where 2: "on_net (t_load (h_tpm h) srk priv pub) s1 = (Inr r, s2)"
    "(case r of
         None \<Rightarrow> failS (Msg ''TPM Load'')
       | Some hnd \<Rightarrow> (case t_contents (h_tpm h) pub of
             None \<Rightarrow> bindS (on_net_unit (t_flush (h_tpm h) hnd)) (\<lambda>_. failS (Msg ''contents''))
           | Some _ \<Rightarrow> retS hnd)) s2 = (Inr key, t)"
    by (auto simp: bindS_Inr)
  then have "r = Some key" "t = s2" by (auto simp: result_simps split: option.splits)
  with on_net_Inr [OF 2(1)] read_key_result [OF 1(1)] f show ?thesis by (auto simp: loads_as_def) blast+
qed

lemma tpm_sign_result:
  assumes "tpm_Sign h l d s = (Inr raw, t)"
  shows "\<exists>key n rb sb. loads_as h (w_files s) l key \<and> fst (t_sign (h_tpm h) key (sha (h_card h) d) n) = Some (Some (rb, sb)) \<and>
    length raw = 64 \<and> normalizeECDSASig raw = Some (int (set_bytes rb), int (set_bytes sb))"
proof -
  let ?sign = "\<lambda>key. bindS (on_net (t_sign (h_tpm h) key (sha (h_card h) d))) (\<lambda>r. case r of
           None \<Rightarrow> failS (Msg ''TPM Sign'')
         | Some sg \<Rightarrow> liftS (bindE (optE (Msg ''not ECDSA'') sg) (\<lambda>(rb, sb).
             bindE (fill32 rb) (\<lambda>x. bindE (fill32 sb) (\<lambda>y. Inr (x @ y))))))"
  from session_result [OF assms [unfolded tpm_Sign_def]] obtain srk s1 t1 where 1: "w_files s1 = w_files s"
    "bindS (load_key h srk l) (\<lambda>key. deferS (on_net_unit (t_flush (h_tpm h) key)) (?sign key)) s1 = (Inr raw, t1)"
    by blast
  then obtain key s2 where 2: "load_key h srk l s1 = (Inr key, s2)"
    "deferS (on_net_unit (t_flush (h_tpm h) key)) (?sign key) s2 = (Inr raw, t1)" by (auto simp: bindS_Inr)
  from deferS_Inr [OF 2(2)] obtain s3 where "?sign key s2 = (Inr raw, s3)" by blast
  then obtain r s4 where 3: "on_net (t_sign (h_tpm h) key (sha (h_card h) d)) s2 = (Inr r, s4)"
    "(case r of
           None \<Rightarrow> failS (Msg ''TPM Sign'')
         | Some sg \<Rightarrow> liftS (bindE (optE (Msg ''not ECDSA'') sg) (\<lambda>(rb, sb).
             bindE (fill32 rb) (\<lambda>x. bindE (fill32 sb) (\<lambda>y. Inr (x @ y)))))) s4 = (Inr raw, s3)"
    by (auto simp: bindS_Inr)
  then obtain rb sb where r: "r = Some (Some (rb, sb))" "set_bytes rb < 256 ^ 32" "set_bytes sb < 256 ^ 32"
    "raw = be_fixed 32 (set_bytes rb) @ be_fixed 32 (set_bytes sb)"
    by (auto simp: result_simps fill32_Inr split: option.splits)
  then have "length raw = 64 \<and> normalizeECDSASig raw = Some (int (set_bytes rb), int (set_bytes sb))"
    by (simp add: normalize_fixed)
  with on_net_Inr [OF 3(1)] r(1) load_key_result [OF 2(1)] 1(1) show ?thesis by metis
qed

section \<open>Agreement\<close>

text \<open>
  What is used of the chip: it can be opened and has a storage root key; a key made on it loads, and with the handle loading returns, its
  agreement with an ephemeral point is, as a number, the agreement of the ephemeral key with the chip's point.
\<close>

definition tpm_answers :: "'n tpm \<Rightarrow> bool" where
  "tpm_answers tp \<longleftrightarrow> (\<forall>d n. fst (t_open tp d n)) \<and> (\<forall>n. fst (t_primary tp n) \<noteq> None)"

definition curve_points :: "wrap_crypto \<Rightarrow> bool" where
  "curve_points wc \<longleftrightarrow> (\<forall>e. p256_point (eph_pub wc e))"

definition tpm_honest :: "'n tpm \<Rightarrow> wrap_crypto \<Rightarrow> bytes \<Rightarrow> bytes \<Rightarrow> bool" where
  "tpm_honest tp wc pub priv \<longleftrightarrow>
     (\<forall>srk n. \<exists>key n'. t_load tp srk priv pub n = (Some key, n') \<and>
        (\<forall>point e z. tpmPoint (case t_contents tp pub of None \<Rightarrow> None | Some c \<Rightarrow> c) = Inr point \<longrightarrow> ecdh wc e point = Some z \<longrightarrow>
           length z = 32 \<and>
           (\<exists>zb n''. t_zgen tp key (take 32 (drop 1 (eph_pub wc e)), take 32 (drop 33 (eph_pub wc e))) n' = (Some (Some zb), n'') \<and>
              set_bytes zb = set_bytes z)))"

lemma read_key_again:
  assumes "readTPMKeyFile h l s = (Inr pp, s')" "w_faults s = []" "w_faults u = []" "w_files u = w_files s"
  shows "readTPMKeyFile h l u = (Inr pp, u)"
proof -
  obtain p where p: "tpmKeyPath h l = Inr p"
    using assms(1) by (cases "tpmKeyPath h l") (auto simp: readTPMKeyFile_def bindS_def)
  with assms show ?thesis
    by (cases "w_files s p") (simp_all add: readTPMKeyFile_def bindS_def tryS_def readFile_def with_fault_def)
qed

lemma agree_value:
  assumes "tpm_answers (h_tpm h)" "tpm_honest (h_tpm h) wc pub priv" "curve_points wc" "w_faults s = []"
    and "readTPMKeyFile h l s = (Inr (pub, priv), s')" "contents h pub = Inr c" "tpmPoint c = Inr point" "ecdh wc e point = Some z"
  shows "\<exists>t. tpm_Agree h l (eph_pub wc e) s = (Inr z, t)"
proof -
  let ?peer = "eph_pub wc e"
  have peer: "p256_point ?peer" using assms(3) by (simp add: curve_points_def)
  then have len: "length ?peer = 65" "?peer ! 0 = 4"
    by (cases ?peer; simp add: p256_point_def)+
  have c: "t_contents (h_tpm h) pub = Some c" using assms(6) by (simp add: contents_def)
  obtain n1 where n1: "t_open (h_tpm h) (tpmDevice h) (w_net s) = (True, n1)"
    using assms(1) by (metis (full_types) tpm_answers_def prod.collapse)
  obtain srk n2 where n2: "t_primary (h_tpm h) n1 = (Some srk, n2)"
    using assms(1) by (metis not_None_eq tpm_answers_def prod.collapse)
  let ?s2 = "s\<lparr>w_net := n2\<rparr>"
  have open_ok: "openTPMSession h s = (Inr srk, ?s2)"
    by (simp add: openTPMSession_def bindS_def on_net_def n1 n2)
  from assms(2) [unfolded tpm_honest_def, rule_format, of srk n2] obtain key n3 zb n4 where n3:
    "t_load (h_tpm h) srk priv pub n2 = (Some key, n3)" "length z = 32"
    "t_zgen (h_tpm h) key (take 32 (drop 1 ?peer), take 32 (drop 33 ?peer)) n3 = (Some (Some zb), n4)" "set_bytes zb = set_bytes z"
    using assms(7,8) c by fastforce
  have "readTPMKeyFile h l ?s2 = (Inr (pub, priv), ?s2)"
    by (rule read_key_again [OF assms(5,4)]) (use assms(4) in simp_all)
  then have load: "load_key h srk l ?s2 = (Inr key, s\<lparr>w_net := n3\<rparr>)"
    by (simp add: load_key_def bindS_def on_net_def n3(1) c)
  have "fill32 zb = Inr z"
    using n3(2,4) set_bytes_bound [of z] be_fixed_set [of z 32] by (simp add: fill32_Inr del: be_fixed.simps)
  moreover have "t_zgen (h_tpm h) key (take 32 (drop (Suc 0) ?peer), drop 33 ?peer) n3 = (Some (Some zb), n4)"
    using n3(3) len(1) by simp
  ultimately show ?thesis using load
    by (simp add: tpm_Agree_def len peer with_session_def bindS_def open_ok deferS_def on_net_def
      del: take_Suc_Cons drop_Suc_Cons)
qed

text \<open>The agreement as the key server calls it.\<close>

definition chip_agree :: "('k, 's, 'n, 'x) chip_host_scheme \<Rightarrow> 'n world \<Rightarrow> string \<Rightarrow> bytes \<Rightarrow> wrap_error + bytes" where
  "chip_agree h s l p = wrapE (\<lambda>_. ErrAgree ''chip'') (fst (tpm_Agree h l p s))"

lemma chip_agree_value:
  assumes "tpm_answers (h_tpm h)" "tpm_honest (h_tpm h) wc pub priv" "curve_points wc" "w_faults s = []"
    and "readTPMKeyFile h l s = (Inr (pub, priv), s')" "tpm_CreateAgreementKey h l s = (Inr point, t)" "ecdh wc e point = Some z"
  shows "length z = 32 \<and> chip_agree h s l (eph_pub wc e) = Inr z"
proof -
  from assms(5,6) obtain c where c: "contents h pub = Inr c" "tpmPoint c = Inr point"
    by (auto simp: tpm_CreateAgreementKey_def result_simps)
  from agree_value [OF assms(1-5) c assms(7)] obtain t where "tpm_Agree h l (eph_pub wc e) s = (Inr z, t)" by blast
  moreover from assms(2) [unfolded tpm_honest_def, rule_format, of undefined undefined] have "length z = 32"
    using c assms(7) by (fastforce simp: contents_def)
  ultimately show ?thesis by (simp add: chip_agree_def)
qed

section \<open>An example\<close>

text \<open>A TPM whose one key is the point of the curve with abscissa 0.\<close>

definition toy_y :: nat where
  "toy_y = 0x66485c780e2f83d72433bd5d84a06bb6541c2af31dae871728bf856a174f93f4"

lemma toy_y_square: "toy_y * toy_y = 0x28ddbe23f91a186cde31693e44d9577376ba56e1c52cb3f335f4c8dba9b83fbb * p256_p + p256_b"
  by (simp add: toy_y_def p256_p_def p256_b_def)

lemma toy_y_bound: "toy_y < p256_p" "toy_y < 256 ^ 32"
  by (simp_all add: toy_y_def p256_p_def)

lemma toy_on_curve: "on_p256 0 toy_y"
  using toy_y_bound(1) unfolding on_p256_def toy_y_square by (simp add: p256_p_def p256_b_def)

lemma toy_point: "p256_point (4 # be_fixed 32 0 @ be_fixed 32 toy_y)"
  using toy_on_curve toy_y_bound(2) by (simp add: p256_point_def)

definition toy_tpm :: "unit tpm" where
  "toy_tpm = \<lparr>t_open = (\<lambda>_ n. (True, n)), t_close = (\<lambda>n. n), t_primary = (\<lambda>n. (Some 1, n)), t_flush = (\<lambda>_ n. n),
     t_create = (\<lambda>_ _ n. (Some ([1], [2]), n)), t_load = (\<lambda>_ priv pub n. (if priv = [2] \<and> pub = [1] then Some 5 else None, n)),
     t_sign = (\<lambda>_ d n. (Some (Some (take 32 d, [3])), n)), t_zgen = (\<lambda>_ q n. (Some (Some (fst q)), n)),
     t_contents = (\<lambda>_. Some (Some (be_fixed 32 0, be_fixed 32 toy_y))),
     t_marshal_pub = (\<lambda>b. 0 # b), t_unmarshal_pub = (\<lambda>b. Some (tl b)),
     t_marshal_priv = (\<lambda>b. 0 # b), t_unmarshal_priv = (\<lambda>b. Some (tl b))\<rparr>"

definition toy_host :: "(string, bytes, unit) chip_host" where
  "toy_host = usb_host.extend example_host \<lparr>h_tpm = toy_tpm, h_ec_line = (\<lambda>_. Some ''ec G''),
     h_authorized_key = (\<lambda>l. Some (''ec'', [7])), h_mpints = (\<lambda>_. [9])\<rparr>"

lemma toy_codec: "tpm_codec (h_tpm toy_host)"
  by (simp add: tpm_codec_def tpm_made_def toy_host_def toy_tpm_def usb_host.defs example_host_def)

interpretation toy: tpm_library toy_host
  by unfold_locales (rule toy_codec)

definition toy_world :: "unit world" where
  "toy_world = example_world\<lparr>w_files := [''/dev/tpmrm0'' \<mapsto> \<lparr>fl_data = [], fl_mode = mode600\<rparr>]\<rparr>"

lemma toy_path: "tpmKeyPath toy_host ''web'' = Inr ''/h/.p3sig/tpm/web.tpmkey''"
  by (simp add: tpmKeyPath_def tpmLabelOK_def label_char_def tpmKeyDir_def getenv_def toy_host_def usb_host.defs example_host_def
    path_join_def clean_path_def components_def clean_step_def render_path_def rooted_def)

lemma toy_line: "key_line toy_host ''web'' [1] = Inr ''ec G web''"
proof -
  have "trim_space ''ec G'' = ''ec G''"
    by (rule trim_space_id) (simp add: space_edge_def go_spaces_def)
  moreover have "fill32 (be_fixed 32 0) = Inr (be_fixed 32 0)" "fill32 (be_fixed 32 toy_y) = Inr (be_fixed 32 toy_y)"
    using toy_y_bound(2) by (simp_all add: fill32_def fill_bytes_def del: be_fixed.simps)
  ultimately show ?thesis
    using toy_point
    by (simp add: key_line_def contents_def tpmSSHLine_def tpmPoint_def toy_host_def toy_tpm_def usb_host.defs del: be_fixed.simps)
qed

lemma toy_create: "\<exists>t. tpm_Create toy_host ''web'' toy_world = (Inr ''ec G web'', t)"
proof -
  let ?p = "''/h/.p3sig/tpm/web.tpmkey''"
  have st: "stat_file ?p toy_world = (Inl NotExist, toy_world)"
    by (simp add: stat_file_def with_fault_def toy_world_def example_world_def)
  have f: "w_faults (toy_world\<lparr>w_net := ()\<rparr>) = []" "w_files (toy_world\<lparr>w_net := ()\<rparr>) ?p = None"
    by (simp_all add: toy_world_def example_world_def)
  have w: "\<exists>t. write_excl ?p d s = (Inr (), t)" if "w_faults s = []" "w_files s ?p = None" for d and s :: "unit world"
    using that by (simp add: write_excl_def create_excl_def with_fault_def bindS_def tryS_def write_handle_def writeFile_def
      sync_handle_def)
  have k: "\<exists>t. writeTPMKeyFile toy_host ''web'' [1] [2] s = (Inr (), t)" if "w_faults s = []" "w_files s ?p = None" for s
    using w [OF that] by (simp only: writeTPMKeyFile_def toy_path bindS_lift(1) bindS_step [of "mkdirAll q" for q, OF mkdir_ok [OF that(1)]])
  obtain t where t: "writeTPMKeyFile toy_host ''web'' [1] [2] (toy_world\<lparr>w_net := ()\<rparr>) = (Inr (), t)" using k [OF f] by blast
  have tp: "t_open (h_tpm toy_host) d = (\<lambda>n. (True, n))" "t_primary (h_tpm toy_host) = (\<lambda>n. (Some 1, n))"
    "t_create (h_tpm toy_host) srk tm = (\<lambda>n. (Some ([1], [2]), n))" for d srk tm
    by (simp_all add: toy_host_def toy_tpm_def usb_host.defs)
  have "with_session toy_host (\<lambda>srk. bindS (on_net (t_create (h_tpm toy_host) srk tpmKeyTemplate)) (\<lambda>r. case r of
      None \<Rightarrow> failS (Msg ''TPM Create'')
    | Some (pub, priv) \<Rightarrow> bindS (writeTPMKeyFile toy_host ''web'' pub priv) (\<lambda>_. liftS (key_line toy_host ''web'' pub)))) toy_world
    = (Inr ''ec G web'', snd (close_session toy_host 1 t))"
    using t by (simp add: with_session_def openTPMSession_def bindS_def on_net_def deferS_def toy_line tp)
  then show ?thesis by (simp add: tpm_Create_def toy_path bindS_def tryS_def st)
qed

section \<open>Properties\<close>

text \<open>C24. The Linux keystore refines the abstract store of public keys by label: every call, whatever fails on the disk or in the
  TPM, is a step of it. Creating succeeds for a free label only and adds the key it returns; a failed creation changes no other label;
  reading returns the stored key; deleting frees the label; signing and agreeing change nothing.\<close>

theorem tpm_refines_store:
  assumes "tpm_codec (h_tpm h)" "run_call (linuxTPM h) c s = (r, t)"
  shows "store_step (tpm_keys h s) c r (tpm_keys h t)"
  by (rule chip_store.simulates [OF tpm_chip_store [OF assms(1)] TrueI TrueI assms(2)])

theorem tpm_refines_store_witness:
  "\<exists>t. run_call (linuxTPM toy_host) (CCreate ''web'') toy_world = (Inr (RLine ''ec G web''), t) \<and>
     store_step (tpm_keys toy_host toy_world) (CCreate ''web'') (Inr (RLine ''ec G web'')) (tpm_keys toy_host t)"
proof -
  obtain t where t: "tpm_Create toy_host ''web'' toy_world = (Inr ''ec G web'', t)" using toy_create by blast
  then have "run_call (linuxTPM toy_host) (CCreate ''web'') toy_world = (Inr (RLine ''ec G web''), t)"
    by (simp add: linuxTPM_def bindS_def)
  with tpm_refines_store [OF toy_codec this] show ?thesis by blast
qed

text \<open>The key that \<open>setup\<close> printed is the one that the agent serves later: after any calls on the keystore none of which deletes the
  label, an agent that starts for it has the key of the printed line and lists this key alone.\<close>

lemma setup_key_is_served:
  assumes "tpm_codec (h_tpm h)" "tpm_Create h l s = (Inr line, t)" "CDelete l \<notin> set cs"
    and "newChipAgent h (linuxTPM h) l (run_calls (linuxTPM h) cs t) = (Inr a, u)"
  shows "h_authorized_key h line = Some (ca_pub a) \<and>
    agent_List a = [(fst (ca_pub a), snd (ca_pub a), ''p3sig:'' @ l)]"
proof -
  from assms(4) obtain line' u' where p: "ks_PublicKey (linuxTPM h) l (run_calls (linuxTPM h) cs t) = (Inr line', u')"
    "h_authorized_key h line' = Some (ca_pub a)" "ca_label a = l"
    by (auto simp: newChipAgent_def result_simps)
  from assms(2) have "ks_Create (linuxTPM h) l s = (Inr line, t)" by (simp add: linuxTPM_def)
  from chip_store.created_then_shown [OF tpm_chip_store [OF assms(1)] TrueI TrueI _ this assms(3) p(1)] p(2,3)
  show ?thesis by (simp add: agent_List_def)
qed

lemma setup_key_is_served_instance:
  "\<exists>t. tpm_Create toy_host ''web'' toy_world = (Inr ''ec G web'', t) \<and>
     (\<forall>a u. newChipAgent toy_host (linuxTPM toy_host) ''web'' (run_calls (linuxTPM toy_host) [CSign ''web'' [1], CDelete ''x''] t) = (Inr a, u)
        \<longrightarrow> agent_List a = [(''ec'', [7], ''p3sig:web'')])"
proof -
  obtain t where t: "tpm_Create toy_host ''web'' toy_world = (Inr ''ec G web'', t)" using toy_create by blast
  have "agent_List a = [(''ec'', [7], ''p3sig:web'')]"
    if "newChipAgent toy_host (linuxTPM toy_host) ''web'' (run_calls (linuxTPM toy_host) [CSign ''web'' [1], CDelete ''x''] t) = (Inr a, u)"
    for a u
  proof -
    from setup_key_is_served [OF toy_codec t _ that]
    have "h_authorized_key toy_host ''ec G web'' = Some (ca_pub a) \<and>
      agent_List a = [(fst (ca_pub a), snd (ca_pub a), ''p3sig:'' @ ''web'')]" by simp
    moreover have "h_authorized_key toy_host ''ec G web'' = Some (''ec'', [7])"
      by (simp add: toy_host_def usb_host.defs)
    ultimately show ?thesis by (cases "ca_pub a") simp
  qed
  with t show ?thesis by blast
qed

text \<open>C27. The agent answers two requests: the list of its one key, and a signature when the request names exactly this key. The signature
  carries the two numbers the TPM returned for the SHA-256 of the data under the key in the label's file, unchanged; nothing the agent
  does changes a file.\<close>

theorem agent_signs_own_key:
  assumes "newChipAgent h (linuxTPM h) l s0 = (Inr a, s1)" "agent_serve h a rq s = (Inr rep, t)"
  shows "w_files t = w_files s \<and>
    (rq = AgList \<and> rep = RKeys [(fst (ca_pub a), snd (ca_pub a), ''p3sig:'' @ l)] \<or>
     (\<exists>data key n rb sb. rq = AgSign (snd (ca_pub a)) data \<and> loads_as h (w_files s) l key \<and>
        fst (t_sign (h_tpm h) key (sha (h_card h) data) n) = Some (Some (rb, sb)) \<and>
        rep = RSignature (fst (ca_pub a), h_mpints h (int (set_bytes rb), int (set_bytes sb)))))"
proof -
  from assms(1) have a: "ca_label a = l" "ca_ks a = linuxTPM h" by (auto simp: newChipAgent_def result_simps)
  consider "rq = AgList" | key data where "rq = AgSign key data"
    using assms(2) by (cases rq) auto
  then show ?thesis
  proof cases
    case 1
    with assms(2) a show ?thesis by (simp add: agent_List_def)
  next
    case (2 k data)
    with assms(2) a obtain raw rs where k: "k = snd (ca_pub a)" "tpm_Sign h l data s = (Inr raw, t)"
      "normalizeECDSASig raw = Some rs" "rep = RSignature (fst (ca_pub a), h_mpints h rs)"
      by (auto simp: SignWithFlags_def result_simps linuxTPM_def split: if_splits)
    from tpm_sign_result [OF k(2)] obtain key n rb sb where r: "loads_as h (w_files s) l key"
      "fst (t_sign (h_tpm h) key (sha (h_card h) data) n) = Some (Some (rb, sb))"
      "normalizeECDSASig raw = Some (int (set_bytes rb), int (set_bytes sb))" by blast
    from quiet_files [OF tpm_reads_quiet(2), of h l data s] k(2) have "w_files t = w_files s" by simp
    with 2 k r show ?thesis by auto
  qed
qed

definition toy_key_world :: "unit world" where
  "toy_key_world = toy_world\<lparr>w_files := [''/h/.p3sig/tpm/web.tpmkey'' \<mapsto>
     \<lparr>fl_data = string_of (put_part [0, 1] @ put_part [0, 2]), fl_mode = mode600\<rparr>, ''/dev/tpmrm0'' \<mapsto> \<lparr>fl_data = [], fl_mode = mode600\<rparr>,
     ''/cfg'' \<mapsto> \<lparr>fl_data = ''{}'', fl_mode = mode600\<rparr>]\<rparr>"

lemma toy_read: "readTPMKeyFile toy_host ''web'' toy_key_world = (Inr ([1], [2]), toy_key_world)"
proof -
  have tp: "t_marshal_pub (h_tpm toy_host) b = 0 # b" "t_marshal_priv (h_tpm toy_host) b = 0 # b" for b
    by (simp_all add: toy_host_def toy_tpm_def usb_host.defs)
  have "tpm_made (h_tpm toy_host) [1] [2]"
    by (simp add: tpm_made_def toy_host_def toy_tpm_def usb_host.defs)
  from parse_written [OF toy_codec this]
  have "parseTPMKeyFile (h_tpm toy_host) (put_part [0, 1] @ put_part [0, 2]) = Inr ([1], [2])" by (simp add: tp)
  moreover have "readFile ''/h/.p3sig/tpm/web.tpmkey'' toy_key_world
      = (Inr (string_of (put_part [0, 1] @ put_part [0, 2])), toy_key_world)"
    by (simp add: readFile_def with_fault_def toy_key_world_def toy_world_def example_world_def)
  ultimately show ?thesis
    by (simp add: readTPMKeyFile_def toy_path bindS_def tryS_def)
qed

lemma toy_agent:
  "newChipAgent toy_host (linuxTPM toy_host) ''web'' toy_key_world
     = (Inr \<lparr>ca_ks = linuxTPM toy_host, ca_label = ''web'', ca_pub = (''ec'', [7])\<rparr>, toy_key_world)"
proof -
  from toy_read have "tpm_PublicKey toy_host ''web'' toy_key_world = (Inr ''ec G web'', toy_key_world)"
    by (simp add: tpm_PublicKey_def bindS_def toy_line)
  moreover have "h_authorized_key toy_host line = Some (''ec'', [7])" for line by (simp add: toy_host_def usb_host.defs)
  ultimately show ?thesis by (simp add: newChipAgent_def linuxTPM_def bindS_def wrapS_def)
qed

theorem agent_signs_own_key_witness:
  "\<exists>a t. newChipAgent toy_host (linuxTPM toy_host) ''web'' toy_key_world = (Inr a, t) \<and>
     agent_serve toy_host a AgList toy_key_world = (Inr (RKeys [(''ec'', [7], ''p3sig:web'')]), toy_key_world) \<and>
     (\<forall>rep t'. agent_serve toy_host a (AgSign [8] [1]) toy_key_world \<noteq> (Inr rep, t'))"
proof -
  have list: "agent_serve toy_host \<lparr>ca_ks = linuxTPM toy_host, ca_label = ''web'', ca_pub = (''ec'', [7])\<rparr> AgList toy_key_world
      = (Inr (RKeys [(''ec'', [7], ''p3sig:web'')]), toy_key_world)"
    by (simp add: agent_List_def)
  have "agent_serve toy_host \<lparr>ca_ks = linuxTPM toy_host, ca_label = ''web'', ca_pub = (''ec'', [7])\<rparr> (AgSign [8] [1]) toy_key_world
      \<noteq> (Inr rep, t')" for rep t'
    using agent_signs_own_key [OF toy_agent, of "AgSign [8] [1]" toy_key_world rep t'] by auto
  with toy_agent list show ?thesis by blast
qed

text \<open>What is wrapped to the point that the Linux chip reports for a label opens with the agreement of that chip under that label: the
  bundle key that a host encrypted for the key server comes back, for every ephemeral key and nonce.\<close>

lemma chip_opens_wrap:
  assumes "tpm_answers (h_tpm h)" "tpm_honest (h_tpm h) wc pub priv" "curve_points wc" "gcm_correct wc" "w_faults s = []"
    and "readTPMKeyFile h l s = (Inr (pub, priv), s')" "tpm_CreateAgreementKey h l s = (Inr point, t)"
    and "length nonce = 12" "wrapECDHWith wc secret point e nonce = Inr blob"
  shows "UnwrapECDH wc blob (chip_agree h s l) = Inr secret"
proof -
  from assms(9) obtain z where z: "ecdh wc e point = Some z" by (auto simp: wrapECDHWith_def result_simps)
  have "point_length wc" using assms(3) by (simp add: curve_points_def point_length_def p256_point_def)
  from unwrap_wrap_ecdh(1) [OF assms(4) this assms(8) z _ _ assms(9)] chip_agree_value [OF assms(1-3,5-7) z] show ?thesis by blast
qed

definition toy_crypto :: wrap_crypto where
  "toy_crypto = example_crypto\<lparr>eph_pub := (\<lambda>_. 4 # be_fixed 32 0 @ be_fixed 32 toy_y), ecdh := (\<lambda>_ _. Some (be_fixed 32 0))\<rparr>"

lemma toy_crypto_laws: "gcm_correct toy_crypto" "curve_points toy_crypto"
  using example_crypto_laws(1) toy_point by (simp_all add: gcm_correct_def curve_points_def toy_crypto_def)

lemma toy_tpm_fields:
  "t_open (h_tpm toy_host) = (\<lambda>_ n. (True, n))" "t_primary (h_tpm toy_host) = (\<lambda>n. (Some 1, n))"
  "t_load (h_tpm toy_host) srk [2] [1] n = (Some 5, n)" "t_zgen (h_tpm toy_host) = (\<lambda>_ q n. (Some (Some (fst q)), n))"
  "t_contents (h_tpm toy_host) = (\<lambda>_. Some (Some (be_fixed 32 0, be_fixed 32 toy_y)))"
  by (simp_all add: toy_host_def toy_tpm_def usb_host.defs)

lemma toy_honest: "tpm_answers (h_tpm toy_host)" "tpm_honest (h_tpm toy_host) toy_crypto [1] [2]"
  by (simp_all add: tpm_answers_def tpm_honest_def toy_tpm_fields toy_crypto_def del: be_fixed.simps)

lemma toy_agreement_key:
  "tpm_CreateAgreementKey toy_host ''web'' toy_key_world = (Inr (4 # be_fixed 32 0 @ be_fixed 32 toy_y), toy_key_world)"
proof -
  have "fill32 (be_fixed 32 0) = Inr (be_fixed 32 0)" "fill32 (be_fixed 32 toy_y) = Inr (be_fixed 32 toy_y)"
    using toy_y_bound(2) by (simp_all add: fill32_def fill_bytes_def del: be_fixed.simps)
  then show ?thesis
    by (simp add: tpm_CreateAgreementKey_def bindS_def toy_read contents_def toy_tpm_fields tpmPoint_def del: be_fixed.simps)
qed

lemma chip_opens_wrap_instance:
  "\<exists>blob. wrapECDHWith toy_crypto [1, 2, 3] (4 # be_fixed 32 0 @ be_fixed 32 toy_y) [] (replicate 12 6) = Inr blob \<and>
     UnwrapECDH toy_crypto blob (chip_agree toy_host toy_key_world ''web'') = Inr [1, 2, 3]"
proof -
  obtain blob where b: "wrapECDHWith toy_crypto [1, 2, 3] (4 # be_fixed 32 0 @ be_fixed 32 toy_y) [] (replicate 12 6) = Inr blob"
    by (simp add: wrapECDHWith_def toy_crypto_def Let_def del: be_fixed.simps)
  have "w_faults toy_key_world = []" by (simp add: toy_key_world_def toy_world_def example_world_def)
  from chip_opens_wrap [OF toy_honest toy_crypto_laws(2,1) this toy_read toy_agreement_key _ b] b show ?thesis by simp
qed

end
