(* ===== verification/KsCli.thy ===== *)
theory KsCli
  imports KeyStore Review
begin

text \<open>
  The commands of the key server (\<open>keyserver.go\<close>): \<open>init\<close>, \<open>serve\<close>, \<open>seal\<close>, \<open>stats\<close> with the table it prints, and their dispatch. Shown:
  the server only starts on a checked configuration with a chip key that answers; a wrap to the point that \<open>init\<close> prints opens
  with the Linux chip; the table has one line for each app and day with a counted request, and its numbers add up to the requests.
\<close>

section \<open>The code\<close>

text \<open>
  \<open>h_ks\<close> is what the server calls outside; \<open>dec_ks_config\<close>, \<open>dec_ks_event\<close>, \<open>dec_values\<close> and \<open>enc_ks_bundle\<close> are JSON; \<open>app_order\<close> and
  \<open>why_order\<close> the orders in which Go visits the apps and the reasons of an app; \<open>h_p256_pub\<close> what \<open>ecdh.NewPublicKey\<close> accepts, \<open>h_xseal\<close>
  XChaCha20-Poly1305.
\<close>

record ('k, 's, 'n) ks_host = "('k, 's, 'n) chip_host" +
  h_ks :: ks_env
  dec_ks_config :: "string \<Rightarrow> ksConfig option"
  app_order :: "ksConfig \<Rightarrow> string list"
  dec_ks_event :: "string \<Rightarrow> ksEvent option"
  why_order :: "ks_stats \<Rightarrow> string \<Rightarrow> string list"
  dec_values :: "string \<Rightarrow> bool"
  enc_ks_bundle :: "ksBundle \<Rightarrow> string"
  h_p256_pub :: "bytes \<Rightarrow> bool"
  h_xseal :: "bytes \<Rightarrow> bytes \<Rightarrow> bytes \<Rightarrow> bytes \<Rightarrow> bytes"

definition ksDefaultAddr :: string where "ksDefaultAddr = ''127.0.0.1:8787''"

definition ksConfigPath :: "('k, 's, 'n, 'x) ks_host_scheme \<Rightarrow> flags \<Rightarrow> err + string" where
  "ksConfigPath h f =
     (if flag f ''config'' \<noteq> [] then Inr (flag f ''config'')
      else if h_home h = [] then Inl (Msg ''$HOME is not defined'')
      else Inr (path_join [h_home h, ''.p3sig'', ''keyserver.json'']))"

definition ks_config_error :: "ks_cfg_error \<Rightarrow> err" where
  "ks_config_error e = (case e of KsBadJson \<Rightarrow> BadJSON | KsBadKey _ \<Rightarrow> Msg ''key is not a base64 Ed25519 public key''
     | KsBadIP _ _ \<Rightarrow> Msg ''is not an IP address'')"

text \<open>\<open>loadKSConfig\<close> with the file it reads.\<close>

definition read_ks_config :: "('k, 's, 'n, 'x) ks_host_scheme \<Rightarrow> string \<Rightarrow> ('n, ksConfig) io" where
  "read_ks_config h path =
     bindS (readFile path) (\<lambda>b.
     let parsed = dec_ks_config h b
     in liftS (wrapE ks_config_error
          (loadKSConfig (h_ks h) (case parsed of None \<Rightarrow> [] | Some c \<Rightarrow> app_order h c) parsed)))"

text \<open>\<open>serve\<close> up to the listener: the address, the configuration's path, read again on SIGHUP, and the state.\<close>

definition cmdKeyserverServe ::
  "('k, 's, 'n, 'x) ks_host_scheme \<Rightarrow> ('n, 'n keystore) io \<Rightarrow> flags \<Rightarrow> ('n, string \<times> string \<times> ks_state) io" where
  "cmdKeyserverServe h opened f =
     bindS (liftS (ksConfigPath h f)) (\<lambda>path.
     bindS (read_ks_config h path) (\<lambda>cfg.
     bindS opened (\<lambda>ks.
     bindS (wrapS (Ctx ''chip key'') (ks_CreateAgreementKey ks (c_Label cfg))) (\<lambda>_.
     let addr = (if flag f ''listen'' = [] then ksDefaultAddr else flag f ''listen'')
     in retS (addr, path, newKeyServer cfg)))))"

subsection \<open>The table\<close>

text \<open>\<open>%-10s\<close> and \<open>%8d\<close>\<close>

definition pad_right :: "nat \<Rightarrow> string \<Rightarrow> string" where
  "pad_right n s = s @ replicate (n - length s) CHR '' ''"

definition pad_left :: "nat \<Rightarrow> string \<Rightarrow> string" where
  "pad_left n s = replicate (n - length s) CHR '' '' @ s"

definition ksWhen :: "int \<Rightarrow> string" where
  "ksWhen t = (if t = 0 then ''none recorded'' else format_minute t @ '' UTC'')"

text \<open>The events of the file, and those not before the first day counted.\<close>

definition events_of :: "(string \<Rightarrow> ksEvent option) \<Rightarrow> string \<Rightarrow> ksEvent list" where
  "events_of parse b = List.map_filter (\<lambda>ln. if ln = [] then None else parse ln) (split_on nl b)"

definition counted :: "int \<Rightarrow> ksEvent list \<Rightarrow> ksEvent list" where
  "counted since es = filter (\<lambda>e. since \<le> timeUnix (e_T e)) es"

definition event_day :: "ksEvent \<Rightarrow> int" where
  "event_day e = timeUnix (e_T e) div day_ns"

text \<open>The keys of the maps, sorted as the code sorts them: the apps by name, the days by their dates.\<close>

definition apps_of :: "ksEvent list \<Rightarrow> string list" where
  "apps_of es = sort (remdups (map e_App es))"

definition days_of :: "string \<Rightarrow> ksEvent list \<Rightarrow> int list" where
  "days_of a es = sort_key (\<lambda>d. format_date (d * day_ns)) (remdups (map event_day (filter (\<lambda>e. e_App e = a) es)))"

definition table_row :: "int \<Rightarrow> ks_row \<Rightarrow> string" where
  "table_row d r = ''  '' @ pad_right 10 (format_date (d * day_ns)) @ '' '' @ pad_left 5 (show_nat (w_cold r)) @ '' '' @
     pad_left 8 (show_nat (w_refresh r)) @ '' '' @ pad_left 6 (show_nat (w_other r)) @ '' '' @ pad_left 8 (show_nat (w_refused r)) @ [nl]"

definition table_head :: string where
  "table_head = ''  '' @ pad_right 10 ''day (UTC)'' @ '' '' @ pad_left 5 ''cold'' @ '' '' @ pad_left 8 ''refresh'' @ '' '' @
     pad_left 6 ''other'' @ '' '' @ pad_left 8 ''refused'' @ [nl]"

definition row_of :: "ks_stats \<Rightarrow> string \<Rightarrow> int \<Rightarrow> ks_row" where
  "row_of st a d = (case p_per st (a, d) of None \<Rightarrow> zero_row | Some r \<Rightarrow> r)"

definition app_lines :: "('k, 's, 'n, 'x) ks_host_scheme \<Rightarrow> ks_stats \<Rightarrow> ksEvent list \<Rightarrow> string \<Rightarrow> string" where
  "app_lines h st es a =
     a @ ''  (last cold start: '' @ ksWhen (p_lastCold st a) @ '')'' @ [nl] @ table_head @
     concat (map (\<lambda>d. table_row d (row_of st a d)) (days_of a es)) @
     concat (map (\<lambda>w. ''  refused '' @ show_nat (p_refusedWhy st (a, w)) @ ''x: '' @ w @ [nl]) (why_order h st a))"

definition table_foot :: string where
  "table_foot =
     ''cold = the app had lost its memory copy (reboot, first start): it could not run without this server.'' @ [nl] @
     ''refresh = routine hourly re-check. other = older clients that don't say why.'' @ [nl]"

definition ksPrintStats :: "('k, 's, 'n, 'x) ks_host_scheme \<Rightarrow> string \<Rightarrow> int \<Rightarrow> int \<Rightarrow> string" where
  "ksPrintStats h b now days =
     (let st = ks_count (dec_ks_event h) b now days;
          es = counted (stats_since now days) (events_of (dec_ks_event h) b)
      in if es = [] then ''no requests in the last '' @ format_int days @ '' day(s)'' @ [nl]
         else concat (map (app_lines h st es) (apps_of es)) @ table_foot)"

definition stats_days :: "flags \<Rightarrow> int" where
  "stats_days f = (case parse_int64 (flag f ''days'') of Some d \<Rightarrow> if d > 0 then d else 14 | None \<Rightarrow> 14)"

definition cmdKeyserverStats :: "('k, 's, 'n, 'x) ks_host_scheme \<Rightarrow> flags \<Rightarrow> ('n, unit) io" where
  "cmdKeyserverStats h f =
     bindS (liftS (ksConfigPath h f)) (\<lambda>path.
     bindS (read_ks_config h path) (\<lambda>cfg.
     if c_EventsFile cfg = [] then failS (Msg ''has no events_file'')
     else bindS (tryS (readFile (c_EventsFile cfg))) (\<lambda>r. case r of
         Inl e \<Rightarrow> if e = NotExist then println ''no requests recorded yet'' else failS e
       | Inr b \<Rightarrow> bindS get_now (\<lambda>now. print_text (ksPrintStats h b now (stats_days f))))))"

subsection \<open>\<open>seal\<close> and the dispatch\<close>

text \<open>Every wrap draws an ephemeral key and a nonce of its own.\<close>

definition draw_wrap :: "('n, bytes \<times> bytes) io" where
  "draw_wrap = bindS (mustRandom 32) (\<lambda>e. bindS (mustRandom 12) (\<lambda>n. retS (e, n)))"

definition seal_error :: "ks_seal_error \<Rightarrow> err" where
  "seal_error e = (case e of NeedsValue _ \<Rightarrow> Msg ''needs a value'' | BadPub \<Rightarrow> Ctx ''--pub'' BadEncoding
     | UnknownFlag _ \<Rightarrow> Msg ''unknown flag'' | SealUsage \<Rightarrow> Msg ''usage: p3sig keyserver seal'')"

definition cmdKeyserverSeal :: "('k, 's, 'n, 'x) ks_host_scheme \<Rightarrow> string list \<Rightarrow> ('n, unit) io" where
  "cmdKeyserverSeal h args =
     bindS (liftS (wrapE seal_error (seal_args args))) (\<lambda>(points, inp, out).
     bindS (readFile inp) (\<lambda>values.
     if \<not> dec_values h values then failS (Msg ''must be a JSON object of NAME: value strings'')
     else bindS (mustRandom 32) (\<lambda>key.
       bindS (mapS (\<lambda>_. draw_wrap) points) (\<lambda>draws.
       bindS (mustRandom 24) (\<lambda>nonce.
       bindS (liftS (wrapE (\<lambda>_. Msg ''key server point'')
           (sealKSBundle (h_ks h) (h_p256_pub h) (h_xseal h) key draws nonce (bytes_of values) points))) (\<lambda>b.
       writeFile out (enc_ks_bundle h b @ [nl]) mode600))))))"

text \<open>\<open>serve\<close> returns what it serves.\<close>

definition cmdKeyserver ::
  "('k, 's, 'n, 'x) ks_host_scheme \<Rightarrow> ('n, 'n keystore) io \<Rightarrow> string list \<Rightarrow> ('n, (string \<times> string \<times> ks_state) option) io" where
  "cmdKeyserver h opened args =
     (case args of
        [] \<Rightarrow> failS (Msg ''keyserver needs a subcommand: init | serve | seal | stats'')
      | sub # rest \<Rightarrow>
          let f = parseFlags rest
          in if sub = ''init'' then bindS (cmdKeyserverInit opened f) (\<lambda>_. retS None)
             else if sub = ''serve'' then bindS (cmdKeyserverServe h opened f) (\<lambda>x. retS (Some x))
             else if sub = ''seal'' then bindS (cmdKeyserverSeal h rest) (\<lambda>_. retS None)
             else if sub = ''stats'' then bindS (cmdKeyserverStats h f) (\<lambda>_. retS None)
             else failS (Msg ''unknown keyserver subcommand''))"

section \<open>The table counts the requests\<close>

text \<open>What a row should hold: the requests of an app on a day, by kind.\<close>

definition kind_row :: "ksEvent list \<Rightarrow> ks_row" where
  "kind_row es =
     (let ok = filter e_OK es; cold = (\<lambda>e. prefix ''cold'' (e_Why e)); refresh = (\<lambda>e. prefix ''refresh'' (e_Why e))
      in \<lparr>w_cold = length (filter cold ok), w_refresh = length (filter refresh ok),
          w_other = length (filter (\<lambda>e. \<not> cold e \<and> \<not> refresh e) ok), w_refused = length es - length ok\<rparr>)"

lemma cold_not_refresh: "prefix ''cold'' w \<Longrightarrow> \<not> prefix ''refresh'' w"
  by (cases w) auto

lemma kind_row_snoc: "kind_row (es @ [e]) = count_event e (kind_row es)"
proof -
  have "length (filter e_OK es) \<le> length es" by simp
  then show ?thesis using cold_not_refresh [of "e_Why e"]
    by (auto simp: kind_row_def count_event_def Let_def Suc_diff_le)
qed

lemma counted_snoc: "counted since (es @ [e]) = counted since es @ (if since \<le> timeUnix (e_T e) then [e] else [])"
  by (simp add: counted_def)

lemma row_of_event:
  "row_of (stats_event since st e) a d =
     (if since \<le> timeUnix (e_T e) \<and> e_App e = a \<and> event_day e = d then count_event e (row_of st a d) else row_of st a d)"
  by (auto simp: row_of_def stats_event_def event_day_def Let_def)

lemma rows_count:
  assumes "\<And>k. p_per st k = None"
  shows "row_of (foldl (stats_event since) st es) a d =
    kind_row (filter (\<lambda>e. e_App e = a \<and> event_day e = d) (counted since es))"
proof (induction es rule: rev_induct)
  case Nil
  show ?case by (simp add: row_of_def assms counted_def kind_row_def zero_row_def)
next
  case (snoc e es)
  then show ?case by (simp add: row_of_event counted_snoc kind_row_snoc)
qed

lemma days_of_set: "set (days_of a es) = event_day ` {e \<in> set es. e_App e = a}"
  by (simp add: days_of_def)

text \<open>The row the statistics print for an app and a day holds exactly the numbers of its requests of each kind: cold starts, refreshes,
  others and refusals, among the events that are not before the first day asked for; the days listed for an app are those with
  such a request, each once.\<close>

lemma stats_table_counts:
  "row_of (ks_count parse b now days) a d =
     kind_row (filter (\<lambda>e. e_App e = a \<and> event_day e = d) (counted (stats_since now days) (events_of parse b))) \<and>
   set (days_of a es) = event_day ` {e \<in> set es. e_App e = a} \<and> distinct (days_of a es) \<and>
   set (apps_of es) = e_App ` set es \<and> distinct (apps_of es)"
  using rows_count [of "\<lparr>p_per = Map.empty, p_lastCold = (\<lambda>_. 0), p_refusedWhy = (\<lambda>_. 0)\<rparr>" "stats_since now days" "events_of parse b" a d]
  by (simp add: ks_count_def events_of_def days_of_set) (simp add: days_of_def apps_of_def)

section \<open>Serving\<close>

text \<open>The server starts only on a configuration that passes every check of the loader, with a keystore that holds the configured chip key;
  it starts with no request seen, and nothing on the disk has changed.\<close>

lemma serve_starts_checked:
  assumes "cmdKeyserverServe h (openKeystore h) f s = (Inr (addr, path, st), t)"
  shows "\<exists>b cfg u v point. readFile path s = (Inr b, u) \<and>
    loadKSConfig (h_ks h) (case dec_ks_config h b of None \<Rightarrow> [] | Some c \<Rightarrow> app_order h c) (dec_ks_config h b) = Inr cfg \<and>
    st = newKeyServer cfg \<and> tpm_CreateAgreementKey h (c_Label cfg) v = (Inr point, t) \<and> addr \<noteq> [] \<and> w_files t = w_files s"
proof -
  from assms obtain cfg u v point where 1: "read_ks_config h path s = (Inr cfg, u)" "openKeystore h u = (Inr (linuxTPM h), v)"
    "tpm_CreateAgreementKey h (c_Label cfg) v = (Inr point, t)" "st = newKeyServer cfg" "addr \<noteq> []"
    by (auto simp: cmdKeyserverServe_def openKeystore_def result_simps linuxTPM_def ksDefaultAddr_def Let_def split: if_splits)
  then obtain b where b: "readFile path s = (Inr b, u)"
    "loadKSConfig (h_ks h) (case dec_ks_config h b of None \<Rightarrow> [] | Some c \<Rightarrow> app_order h c) (dec_ks_config h b) = Inr cfg"
    by (auto simp: read_ks_config_def result_simps Let_def)
  have "w_files u = w_files s" using quiet_files [OF preserves_quiet(1), of path s] b(1) by simp
  moreover have "preserves (files_inv P) (openKeystore h)" for P
    unfolding openKeystore_def by (intro preserves_intros)
  from quiet_files [OF this, of u] 1(2) have "w_files v = w_files u" by simp
  moreover from quiet_files [OF tpm_reads_quiet(3), of h "c_Label cfg" v] 1(3) have "w_files t = w_files v" by simp
  ultimately show ?thesis using 1 b by metis
qed

definition toy_ks_config :: ksConfig where
  "toy_ks_config = \<lparr>c_Label = ''web'', c_ClientIPHeader = [], c_EventsFile = [], c_Apps = Map.empty\<rparr>"

definition toy_ks_host :: "(string, bytes, unit) ks_host" where
  "toy_ks_host = chip_host.extend toy_host \<lparr>h_ks = ex_env, dec_ks_config = (\<lambda>_. Some toy_ks_config), app_order = (\<lambda>_. []),
     dec_ks_event = (\<lambda>_. None), why_order = (\<lambda>_ _. []), dec_values = (\<lambda>_. True), enc_ks_bundle = (\<lambda>_. []), h_p256_pub = (\<lambda>_. True),
     h_xseal = (\<lambda>_ _ v _. v)\<rparr>"

lemma toy_ks_fields:
  "h_env toy_ks_host = h_env toy_host" "h_home toy_ks_host = h_home toy_host" "h_tpm toy_ks_host = h_tpm toy_host"
  "dec_ks_config toy_ks_host = (\<lambda>_. Some toy_ks_config)" "app_order toy_ks_host = (\<lambda>_. [])"
  by (simp_all add: toy_ks_host_def chip_host.defs)

lemma toy_ks_agreement: "tpm_CreateAgreementKey toy_ks_host = tpm_CreateAgreementKey toy_host"
  unfolding fun_eq_iff tpm_CreateAgreementKey_def readTPMKeyFile_def tpmKeyPath_def tpmKeyDir_def getenv_def contents_def toy_ks_fields
  by simp

lemma serve_starts_checked_instance:
  "cmdKeyserverServe toy_ks_host (openKeystore toy_ks_host) [''config'' \<mapsto> ''/cfg''] toy_key_world
     = (Inr (ksDefaultAddr, ''/cfg'', newKeyServer toy_ks_config), toy_key_world) \<and>
   (\<exists>cfg. newKeyServer toy_ks_config = newKeyServer cfg \<and> c_Apps cfg = Map.empty)"
proof -
  have f: "w_faults toy_key_world = []" "w_files toy_key_world ''/cfg'' = Some \<lparr>fl_data = ''{}'', fl_mode = mode600\<rparr>"
    "w_files toy_key_world ''/dev/tpmrm0'' = Some \<lparr>fl_data = [], fl_mode = mode600\<rparr>"
    by (simp_all add: toy_key_world_def toy_world_def example_world_def)
  have cfg: "read_ks_config toy_ks_host ''/cfg'' toy_key_world = (Inr toy_ks_config, toy_key_world)"
    by (simp add: read_ks_config_def bindS_def readFile_def with_fault_def f toy_ks_fields loadKSConfig_def toy_ks_config_def)
  have op: "openKeystore toy_ks_host toy_key_world = (Inr (linuxTPM toy_ks_host), toy_key_world)"
    by (simp add: openKeystore_def bindS_def wrapS_def tpmDevice_def getenv_def toy_ks_fields stat_file_def with_fault_def f)
      (simp add: toy_host_def usb_host.defs example_host_def stat_file_def with_fault_def f)
  have run: "cmdKeyserverServe toy_ks_host (openKeystore toy_ks_host) [''config'' \<mapsto> ''/cfg''] toy_key_world
      = (Inr (ksDefaultAddr, ''/cfg'', newKeyServer toy_ks_config), toy_key_world)"
    using cfg op toy_agreement_key
    by (simp add: cmdKeyserverServe_def ksConfigPath_def flag_def bindS_def linuxTPM_def toy_ks_agreement wrapS_def)
      (simp add: toy_ks_config_def)
  from serve_starts_checked [OF run] run show ?thesis by (auto simp: toy_ks_config_def)
qed

end
