(* ===== verification/WinHello.thy ===== *)
theory WinHello
  imports KsCli
begin

text \<open>
  The Windows keystore (\<open>keystore_windows.go\<close>): keys in the TPM, or else in software, behind CNG and Windows Hello. The functions of
  \<open>ncrypt.dll\<close> are parameters; every call, handle, size probe, status code and byte order around them is modelled.
\<close>

section \<open>CNG\<close>

text \<open>
  A string that crosses as a UTF-16 pointer is \<open>None\<close>, the null pointer, when it holds a NUL: the code drops the error. A call returns its
  status, which is \<open>0\<close> for success, with the handle, or the byte count and the bytes, that it wrote; the buffer \<open>None\<close> is the size probe.
\<close>

record ui_policy =
  up_Version :: "32 word"
  up_Flags :: "32 word"
  up_CreationTitle :: "string option"
  up_FriendlyName :: "string option"
  up_Description :: "string option"

record 'n cng =
  nc_open_provider :: "string option \<Rightarrow> 'n \<Rightarrow> (64 word \<times> nat) \<times> 'n"
  nc_create :: "nat \<Rightarrow> string option \<Rightarrow> string option \<Rightarrow> 'n \<Rightarrow> (64 word \<times> nat) \<times> 'n"
  nc_open_key :: "nat \<Rightarrow> string option \<Rightarrow> 'n \<Rightarrow> (64 word \<times> nat) \<times> 'n"
  nc_set_property :: "nat \<Rightarrow> string option \<Rightarrow> ui_policy \<Rightarrow> 'n \<Rightarrow> 64 word \<times> 'n"
  nc_finalize :: "nat \<Rightarrow> 'n \<Rightarrow> 64 word \<times> 'n"
  nc_export :: "nat \<Rightarrow> string option \<Rightarrow> 32 word option \<Rightarrow> 'n \<Rightarrow> (64 word \<times> 32 word \<times> bytes) \<times> 'n"
  nc_import :: "nat \<Rightarrow> string option \<Rightarrow> bytes \<Rightarrow> 'n \<Rightarrow> (64 word \<times> nat) \<times> 'n"
  nc_agreement :: "nat \<Rightarrow> nat \<Rightarrow> 'n \<Rightarrow> (64 word \<times> nat) \<times> 'n"
  nc_derive :: "nat \<Rightarrow> string option \<Rightarrow> nat \<Rightarrow> 'n \<Rightarrow> (64 word \<times> 32 word \<times> bytes) \<times> 'n"
  nc_sign :: "nat \<Rightarrow> bytes \<Rightarrow> 32 word option \<Rightarrow> 'n \<Rightarrow> (64 word \<times> 32 word \<times> bytes) \<times> 'n"
  nc_delete :: "nat \<Rightarrow> 'n \<Rightarrow> 64 word \<times> 'n"
  nc_free :: "nat \<Rightarrow> 'n \<Rightarrow> 'n"

text \<open>With SHA-256 and the authorized-keys line of a P-256 point.\<close>

record 'n win_env = "'n cng" +
  wn_sha :: "bytes \<Rightarrow> bytes"
  wn_line :: "bytes \<Rightarrow> string option"

definition utf16 :: "string \<Rightarrow> string option" where
  "utf16 s = (if CHR 0x00 \<in> set s then None else Some s)"

definition msPlatformProvider :: string where "msPlatformProvider = ''Microsoft Platform Crypto Provider''"
definition msSoftwareProvider :: string where "msSoftwareProvider = ''Microsoft Software Key Storage Provider''"
definition algECDSAP256 :: string where "algECDSAP256 = ''ECDSA_P256''"
definition algECDHP256 :: string where "algECDHP256 = ''ECDH_P256''"
definition blobECCPublic :: string where "blobECCPublic = ''ECCPUBLICBLOB''"
definition propUIPolicy :: string where "propUIPolicy = ''UI Policy''"
definition bcryptKDFRawSecret :: string where "bcryptKDFRawSecret = ''TRUNCATE''"
definition ncryptUIProtectKeyFlag :: "32 word" where "ncryptUIProtectKeyFlag = 1"
definition bcryptECDSAPublicP256Magic :: "32 word" where "bcryptECDSAPublicP256Magic = 0x31534345"
definition bcryptECDHPublicP256Magic :: "32 word" where "bcryptECDHPublicP256Magic = 0x314B4345"

definition keyName :: "string \<Rightarrow> string" where
  "keyName label = ''p3sig'' @ [CHR 0x5C] @ label"

definition agreeName :: "string \<Rightarrow> string" where
  "agreeName label = keyName (label @ ''-ecdh'')"

section \<open>Status codes\<close>

definition hex_digit :: "nat \<Rightarrow> char" where
  "hex_digit n = ''0123456789ABCDEF'' ! n"

text \<open>\<open>%08X\<close>\<close>

definition hex8 :: "32 word \<Rightarrow> string" where
  "hex8 c = map (\<lambda>i. hex_digit (unat c div 16 ^ (7 - i) mod 16)) [0..<8]"

definition ncMessages :: "32 word \<Rightarrow> string option" where
  "ncMessages = map_of
     [(0x80090009, ''NTE_BAD_FLAGS''),
      (0x8009000F, ''NTE_EXISTS (key already exists)''),
      (0x80090011, ''NTE_NOT_FOUND (key not found)''),
      (0x80090016, ''NTE_BAD_KEYSET (key not found / keyset not defined)''),
      (0x80090022, ''NTE_PERM (access denied '' @ [CHR 0xE2, CHR 0x80, CHR 0x94] @ '' Windows Hello prompt may have been cancelled)''),
      (0x80090026, ''NTE_INVALID_HANDLE''),
      (0x80090027, ''NTE_INVALID_PARAMETER''),
      (0x80090029, ''NTE_NOT_SUPPORTED (TPM may not support this key type/curve)''),
      (0x8009002A, ''NTE_NO_MEMORY''),
      (0x80090030, ''NTE_DEVICE_NOT_READY (no TPM / Hello not enrolled)''),
      (0x80070057, ''E_INVALIDARG'')]"

definition ncCheck :: "string \<Rightarrow> 64 word \<Rightarrow> err + unit" where
  "ncCheck op r1 =
     (if r1 = 0 then Inr ()
      else let code = ucast r1 :: 32 word
        in case ncMessages code of
             Some m \<Rightarrow> Inl (Msg (op @ '': '' @ m @ '' (0x'' @ hex8 code @ '')''))
           | None \<Rightarrow> Inl (Msg (op @ '': NCrypt error 0x'' @ hex8 code)))"

section \<open>Providers and keys\<close>

text \<open>A call that returns a handle, and one that returns its status only.\<close>

definition handle_call :: "string \<Rightarrow> ('n \<Rightarrow> (64 word \<times> nat) \<times> 'n) \<Rightarrow> ('n, nat) io" where
  "handle_call op f = bindS (on_net f) (\<lambda>(r1, hnd). bindS (liftS (ncCheck op r1)) (\<lambda>_. retS hnd))"

definition status_call :: "string \<Rightarrow> ('n \<Rightarrow> 64 word \<times> 'n) \<Rightarrow> ('n, unit) io" where
  "status_call op f = bindS (on_net f) (\<lambda>r1. liftS (ncCheck op r1))"

text \<open>The first \<open>n\<close> bytes of a fresh buffer after a call wrote \<open>w\<close> to it.\<close>

definition filled :: "nat \<Rightarrow> bytes \<Rightarrow> bytes" where
  "filled n w = take n (w @ replicate n 0)"

text \<open>A size probe, then the call with a buffer of that size: \<open>&buf[0]\<close> panics on an empty one, \<open>buf[:cb]\<close> beyond it.\<close>

definition sized_call :: "string \<Rightarrow> string \<Rightarrow> (32 word option \<Rightarrow> 'n \<Rightarrow> (64 word \<times> 32 word \<times> bytes) \<times> 'n) \<Rightarrow> ('n, bytes) io" where
  "sized_call probe op f =
     bindS (on_net (f None)) (\<lambda>(r1, cb, _).
     bindS (liftS (ncCheck probe r1)) (\<lambda>_.
     if cb = 0 then failS (Msg ''panic: index out of range'')
     else bindS (on_net (f (Some cb))) (\<lambda>(r1, cb', w).
       bindS (liftS (ncCheck op r1)) (\<lambda>_.
       if cb < cb' then failS (Msg ''panic: slice bounds out of range'')
       else retS (take (unat cb') (filled (unat cb) w))))))"

definition freeObject :: "'n win_env \<Rightarrow> nat \<Rightarrow> ('n, unit) io" where
  "freeObject e hnd = (if hnd \<noteq> 0 then on_net_unit (nc_free e hnd) else retS ())"

definition openProviderByName :: "'n win_env \<Rightarrow> string \<Rightarrow> ('n, nat) io" where
  "openProviderByName e name = handle_call ''NCryptOpenStorageProvider'' (nc_open_provider e (utf16 name))"

definition openProvider :: "'n win_env \<Rightarrow> ('n, nat \<times> string) io" where
  "openProvider e =
     bindS (tryS (openProviderByName e msPlatformProvider)) (\<lambda>r. case r of
         Inr prov \<Rightarrow> retS (prov, msPlatformProvider)
       | Inl _ \<Rightarrow> bindS (openProviderByName e msSoftwareProvider) (\<lambda>prov. retS (prov, msSoftwareProvider)))"

definition openKeyHandle :: "'n win_env \<Rightarrow> nat \<Rightarrow> string \<Rightarrow> ('n, nat) io" where
  "openKeyHandle e prov name = handle_call ''NCryptOpenKey'' (nc_open_key e prov (utf16 name))"

definition first_err :: "err option \<Rightarrow> err \<Rightarrow> err option" where
  "first_err fe e = (case fe of None \<Rightarrow> Some e | Some x \<Rightarrow> Some x)"

fun open_existing_loop :: "'n win_env \<Rightarrow> string \<Rightarrow> err option \<Rightarrow> string list \<Rightarrow> ('n, nat \<times> nat \<times> string) io" where
  "open_existing_loop e name fe [] =
     failS (Ctx ''open key'' (case fe of None \<Rightarrow> Msg ''key not found'' | Some x \<Rightarrow> x))"
| "open_existing_loop e name fe (pn # pns) =
     bindS (tryS (openProviderByName e pn)) (\<lambda>p. case p of
         Inl x \<Rightarrow> open_existing_loop e name (first_err fe x) pns
       | Inr p \<Rightarrow> bindS (tryS (openKeyHandle e p name)) (\<lambda>k. case k of
             Inr k \<Rightarrow> retS (p, k, pn)
           | Inl x \<Rightarrow> bindS (freeObject e p) (\<lambda>_. open_existing_loop e name (first_err fe x) pns)))"

definition openExistingKeyByName :: "'n win_env \<Rightarrow> string \<Rightarrow> ('n, nat \<times> nat \<times> string) io" where
  "openExistingKeyByName e name = open_existing_loop e name None [msPlatformProvider, msSoftwareProvider]"

definition openExistingKey :: "'n win_env \<Rightarrow> string \<Rightarrow> ('n, nat \<times> nat \<times> string) io" where
  "openExistingKey e label = openExistingKeyByName e (keyName label)"

definition setProperty :: "'n win_env \<Rightarrow> nat \<Rightarrow> string \<Rightarrow> ui_policy \<Rightarrow> ('n, unit) io" where
  "setProperty e hnd name pol = status_call ''NCryptSetProperty'' (nc_set_property e hnd (utf16 name) pol)"

section \<open>Public keys\<close>

definition putLE32 :: "32 word \<Rightarrow> bytes" where
  "putLE32 v = rev (putUint32 v)"

definition getLE32 :: "bytes \<Rightarrow> 32 word" where
  "getLE32 b = getUint32 (rev (take 4 b))"

text \<open>The header of a public blob: its magic number and the length of a coordinate. The end of the blob is computed in 32 bits.\<close>

definition ecc_header :: "32 word \<Rightarrow> bytes \<Rightarrow> err + 32 word" where
  "ecc_header magic blob =
     (if length blob < 8 then Inl (Msg ''ECC blob too short'')
      else let cbKey = getLE32 (drop 4 blob)
        in if getLE32 blob \<noteq> magic then Inl (Msg ''unexpected ECC blob magic'')
           else if length blob < unat (8 + 2 * cbKey) then Inl (Msg ''ECC blob truncated'')
           else Inr cbKey)"

text \<open>\<open>b[i:j]\<close> of a slice without spare capacity\<close>

definition slice32 :: "bytes \<Rightarrow> 32 word \<Rightarrow> 32 word \<Rightarrow> err + bytes" where
  "slice32 b i j =
     (if j < i \<or> length b < unat j then Inl (Msg ''panic: slice bounds out of range'')
      else Inr (take (unat (j - i)) (drop (unat i) b)))"

text \<open>The library does not encode a point that is not on the curve.\<close>

definition ec_line :: "'n win_env \<Rightarrow> nat \<Rightarrow> nat \<Rightarrow> err + string" where
  "ec_line e x y =
     (if on_p256 x y then optE (Msg ''public key'') (wn_line e (4 # be_fixed 32 x @ be_fixed 32 y))
      else Inl (Msg ''panic: crypto/elliptic: attempted operation on invalid point''))"

definition eccBlobToSSH :: "'n win_env \<Rightarrow> bytes \<Rightarrow> string \<Rightarrow> err + string" where
  "eccBlobToSSH e blob label =
     bindE (ecc_header bcryptECDSAPublicP256Magic blob) (\<lambda>cbKey.
     bindE (slice32 blob 8 (8 + cbKey)) (\<lambda>bx.
     bindE (slice32 blob (8 + cbKey) (8 + 2 * cbKey)) (\<lambda>by.
     bindE (ec_line e (set_bytes bx) (set_bytes by)) (\<lambda>line.
     if line = [] then Inl (Msg ''panic: slice bounds out of range'')
     else Inr (butlast line @ (if label \<noteq> [] then '' '' @ label else []))))))"

definition exportPub :: "'n win_env \<Rightarrow> nat \<Rightarrow> string \<Rightarrow> ('n, string) io" where
  "exportPub e hnd label =
     bindS (sized_call ''NCryptExportKey(size)'' ''NCryptExportKey'' (nc_export e hnd (utf16 blobECCPublic))) (\<lambda>blob.
     liftS (eccBlobToSSH e blob label))"

definition sec1_of_blob :: "bytes \<Rightarrow> err + bytes" where
  "sec1_of_blob blob =
     bindE (ecc_header bcryptECDHPublicP256Magic blob) (\<lambda>cbKey.
     bindE (slice32 blob 8 (8 + 2 * cbKey)) (\<lambda>xy. Inr (4 # xy)))"

definition exportPubSEC1 :: "'n win_env \<Rightarrow> nat \<Rightarrow> ('n, bytes) io" where
  "exportPubSEC1 e hnd =
     bindS (sized_call ''NCryptExportKey(ECDH size)'' ''NCryptExportKey(ECDH)'' (nc_export e hnd (utf16 blobECCPublic))) (\<lambda>blob.
     liftS (sec1_of_blob blob))"

section \<open>The operations\<close>

text \<open>
  What \<open>Create\<close> and \<open>CreateAgreementKey\<close> both do: a persisted key in the provider that opens, under a policy that asks Windows Hello at every
  use. A failure after the first step leaves the key handle unfinished: nothing is stored.
\<close>

definition hello_policy :: "string \<Rightarrow> string \<Rightarrow> string \<Rightarrow> ui_policy" where
  "hello_policy title friendly desc = \<lparr>up_Version = 1, up_Flags = ncryptUIProtectKeyFlag, up_CreationTitle = utf16 title,
     up_FriendlyName = utf16 friendly, up_Description = utf16 desc\<rparr>"

definition persist_key ::
  "'n win_env \<Rightarrow> string \<Rightarrow> string \<Rightarrow> string \<Rightarrow> string \<Rightarrow> ui_policy \<Rightarrow> (nat \<Rightarrow> ('n, 'a) io) \<Rightarrow> ('n, 'a) io" where
  "persist_key e opc opf alg name pol act =
     bindS (openProvider e) (\<lambda>(prov, provName).
     deferS (freeObject e prov)
       (bindS (wrapS (Ctx ''create key'') (handle_call opc (nc_create e prov (utf16 alg) (utf16 name)))) (\<lambda>hKey.
       deferS (freeObject e hKey)
         (bindS (wrapS (Ctx ''set Windows Hello UI policy'') (setProperty e hKey propUIPolicy pol)) (\<lambda>_.
          bindS (status_call opf (nc_finalize e hKey)) (\<lambda>_. act hKey))))))"

text \<open>An existing key is not replaced.\<close>

definition refuse_existing :: "'n win_env \<Rightarrow> string \<Rightarrow> ('n, unit) io" where
  "refuse_existing e name =
     bindS (tryS (openExistingKeyByName e name)) (\<lambda>r. case r of
         Inl _ \<Rightarrow> retS ()
       | Inr (prov, key, _) \<Rightarrow>
           bindS (freeObject e key) (\<lambda>_. bindS (freeObject e prov) (\<lambda>_. failS (Msg ''already exists; remove it first''))))"

definition win_Create :: "'n win_env \<Rightarrow> string \<Rightarrow> ('n, string) io" where
  "win_Create e label =
     bindS (refuse_existing e (keyName label)) (\<lambda>_.
     persist_key e ''NCryptCreatePersistedKey'' ''NCryptFinalizeKey'' algECDSAP256 (keyName label)
       (hello_policy ''p3sig SSH key'' (''p3sig SSH key ('' @ label @ '')'') ''Authorize an SSH login with your p3sig chip key'')
       (\<lambda>hKey. exportPub e hKey label))"

definition win_PublicKey :: "'n win_env \<Rightarrow> string \<Rightarrow> ('n, string) io" where
  "win_PublicKey e label =
     bindS (openExistingKey e label) (\<lambda>(prov, key, _).
     deferS (freeObject e prov) (deferS (freeObject e key) (exportPub e key label)))"

definition win_Sign :: "'n win_env \<Rightarrow> string \<Rightarrow> bytes \<Rightarrow> ('n, bytes) io" where
  "win_Sign e label data =
     bindS (openExistingKey e label) (\<lambda>(prov, key, _).
     deferS (freeObject e prov) (deferS (freeObject e key)
       (sized_call ''NCryptSignHash(size)'' ''NCryptSignHash'' (nc_sign e key (wn_sha e data)))))"

definition win_CreateAgreementKey :: "'n win_env \<Rightarrow> string \<Rightarrow> ('n, bytes) io" where
  "win_CreateAgreementKey e label =
     bindS (refuse_existing e (agreeName label)) (\<lambda>_.
     persist_key e ''NCryptCreatePersistedKey(ECDH)'' ''NCryptFinalizeKey(ECDH)'' algECDHP256 (agreeName label)
       (hello_policy ''p3sig device key'' (''p3sig device-unlock key ('' @ label @ '')'')
         ''Authorize unlocking your p3sig vault key with your chip'')
       (exportPubSEC1 e))"

text \<open>The peer's point as CNG imports it; the agreed number comes with its lowest byte first.\<close>

definition peer_blob :: "bytes \<Rightarrow> bytes" where
  "peer_blob peer = putLE32 bcryptECDHPublicP256Magic @ putLE32 32 @ take 64 (drop 1 peer)"

definition derive_secret :: "'n win_env \<Rightarrow> nat \<Rightarrow> ('n, bytes) io" where
  "derive_secret e hSecret =
     bindS (on_net (nc_derive e hSecret (utf16 bcryptKDFRawSecret) 32)) (\<lambda>(r1, cb, w).
     bindS (liftS (ncCheck ''NCryptDeriveKey(RAW_SECRET)'' r1)) (\<lambda>_.
     if cb \<noteq> 32 then failS (Msg ''unexpected ECDH shared-secret length'')
     else retS (rev (filled 32 w))))"

definition win_Agree :: "'n win_env \<Rightarrow> string \<Rightarrow> bytes \<Rightarrow> ('n, bytes) io" where
  "win_Agree e label peer =
     (if length peer \<noteq> ecdhPubLen \<or> peer ! 0 \<noteq> 4 then failS (Msg ''peer public key must be a 65-byte uncompressed SEC1 point'')
      else bindS (openExistingKeyByName e (agreeName label)) (\<lambda>(prov, key, _).
        deferS (freeObject e prov) (deferS (freeObject e key)
          (bindS (handle_call ''NCryptImportKey(peer)'' (nc_import e prov (utf16 blobECCPublic) (peer_blob peer))) (\<lambda>hPeer.
           deferS (freeObject e hPeer)
             (bindS (handle_call ''NCryptSecretAgreement'' (nc_agreement e key hPeer)) (\<lambda>hSecret.
              deferS (freeObject e hSecret) (derive_secret e hSecret))))))))"

definition win_Delete :: "'n win_env \<Rightarrow> string \<Rightarrow> ('n, unit) io" where
  "win_Delete e label =
     bindS (openExistingKey e label) (\<lambda>(prov, key, _).
     deferS (freeObject e prov)
       (bindS (tryS (status_call ''NCryptDeleteKey'' (nc_delete e key))) (\<lambda>r. case r of
           Inl x \<Rightarrow> bindS (freeObject e key) (\<lambda>_. failS x)
         | Inr _ \<Rightarrow> retS ())))"

definition winHello :: "'n win_env \<Rightarrow> 'n keystore" where
  "winHello e = \<lparr>ks_Create = win_Create e, ks_PublicKey = win_PublicKey e, ks_Sign = win_Sign e,
     ks_CreateAgreementKey = win_CreateAgreementKey e, ks_Agree = win_Agree e, ks_Delete = win_Delete e\<rparr>"

definition openKeystore_windows :: "'n win_env \<Rightarrow> ('n, 'n keystore) io" where
  "openKeystore_windows e = retS (winHello e)"

end
