(* ===== verification/WinStore.thy ===== *)
theory WinStore
  imports WinHello
begin

text \<open>
  The Windows keystore as a second implementation of the abstract store of \<open>KeyStore\<close>: what is assumed of CNG, as a locale that gives
  the locale \<open>chip_store\<close>, and what the commands of the key server get from it.
\<close>

section \<open>What CNG promises\<close>

text \<open>
  A view of CNG's state: the stored public blobs by provider and container, and what a handle stands for: a provider, a stored key, or a key
  that is not finished, with its provider, algorithm and name.
\<close>

record 'n cng_view =
  v_cont :: "'n \<Rightarrow> string \<times> string \<Rightarrow> bytes option"
  v_prov :: "'n \<Rightarrow> nat \<Rightarrow> string option"
  v_key :: "'n \<Rightarrow> nat \<Rightarrow> (string \<times> string) option"
  v_new :: "'n \<Rightarrow> nat \<Rightarrow> (string \<times> string \<times> string option) option"

text \<open>
  The documented behaviour the code relies on: which providers open does not change; a key opens when it is stored; a key is stored when it is
  finished, in its provider under its name, and one of algorithm ECDH exports a blob with that magic number; an exported blob
  is the stored one; a call that failed stored nothing; the other calls store nothing.
\<close>

locale cng_library =
  fixes e :: "'n win_env" and v :: "'n cng_view" and avail :: "string \<Rightarrow> bool"
  assumes open_provider: "nc_open_provider e x n = ((r, k), n') \<Longrightarrow>
      v_cont v n' = v_cont v n \<and> (r = 0 \<longleftrightarrow> (\<exists>y. x = Some y \<and> avail y)) \<and> (r = 0 \<longrightarrow> v_prov v n' k = x)"
    and open_key: "v_prov v n p = Some P \<Longrightarrow> nc_open_key e p x n = ((r, k), n') \<Longrightarrow>
      v_cont v n' = v_cont v n \<and> (r = 0 \<longleftrightarrow> (\<exists>y. x = Some y \<and> v_cont v n (P, y) \<noteq> None)) \<and>
      (\<forall>y. r = 0 \<and> x = Some y \<longrightarrow> v_key v n' k = Some (P, y))"
    and create_key: "v_prov v n p = Some P \<Longrightarrow> nc_create e p (Some a) x n = ((r, k), n') \<Longrightarrow>
      v_cont v n' = v_cont v n \<and> (r = 0 \<longrightarrow> v_new v n' k = Some (P, a, x))"
    and set_property: "nc_set_property e k x pol n = (r, n') \<Longrightarrow> v_cont v n' = v_cont v n \<and> v_new v n' k = v_new v n k"
    and finalize: "v_new v n k = Some (P, a, Some y) \<Longrightarrow> nc_finalize e k n = (r, n') \<Longrightarrow>
      (if r = 0 then v_key v n' k = Some (P, y) \<and> (\<exists>b. v_cont v n' = (v_cont v n)((P, y) \<mapsto> b) \<and>
           (a = algECDHP256 \<longrightarrow> getLE32 b = bcryptECDHPublicP256Magic))
       else v_cont v n' = v_cont v n)"
    and export_key: "v_key v n k = Some c \<Longrightarrow> nc_export e k ty sz n = ((r, cb, w), n') \<Longrightarrow>
      v_cont v n' = v_cont v n \<and> v_key v n' k = Some c \<and>
      (r = 0 \<longrightarrow> (\<exists>b. v_cont v n c = Some b \<and> cb = word_of_nat (length b) \<and> (\<forall>m. sz = Some m \<longrightarrow> w = b \<and> length b \<le> unat m)))"
    and delete_key: "v_key v n k = Some c \<Longrightarrow> nc_delete e k n = (r, n') \<Longrightarrow>
      v_cont v n' = (if r = 0 then (v_cont v n)(c := None) else v_cont v n)"
    and free_keeps: "v_cont v (nc_free e k n) = v_cont v n"
    and import_keeps: "v_cont v (snd (nc_import e k ty b n)) = v_cont v n"
    and agreement_keeps: "v_cont v (snd (nc_agreement e k k' n)) = v_cont v n"
    and derive_keeps: "v_cont v (snd (nc_derive e k ty m n)) = v_cont v n"
    and sign_keeps: "v_cont v (snd (nc_sign e k d sz n)) = v_cont v n"
section \<open>The keys of the store\<close>

abbreviation providers :: "string list" where
  "providers \<equiv> [msPlatformProvider, msSoftwareProvider]"

definition conts :: "'n cng_view \<Rightarrow> 'n world \<Rightarrow> string \<times> string \<Rightarrow> bytes option" where
  "conts v s = v_cont v (w_net s)"

text \<open>The provider in which a container is found.\<close>

definition holder :: "(string \<Rightarrow> bool) \<Rightarrow> (string \<times> string \<Rightarrow> bytes option) \<Rightarrow> string \<Rightarrow> string option" where
  "holder avail C x = find (\<lambda>P. avail P \<and> C (P, x) \<noteq> None) providers"

definition win_keys :: "'n win_env \<Rightarrow> 'n cng_view \<Rightarrow> (string \<Rightarrow> bool) \<Rightarrow> 'n world \<Rightarrow> string \<Rightarrow> string option" where
  "win_keys e v avail s l =
     (case holder avail (conts v s) (keyName l) of
        None \<Rightarrow> None
      | Some P \<Rightarrow> (case conts v s (P, keyName l) of
            None \<Rightarrow> None
          | Some b \<Rightarrow> (case eccBlobToSSH e b l of Inl _ \<Rightarrow> None | Inr line \<Rightarrow> Some line)))"

text \<open>No container in both providers; labels without a NUL.\<close>

definition win_invar :: "'n cng_view \<Rightarrow> (string \<Rightarrow> bool) \<Rightarrow> 'n world \<Rightarrow> bool" where
  "win_invar v avail s \<longleftrightarrow> (\<forall>x. \<not> (avail msPlatformProvider \<and> avail msSoftwareProvider \<and>
     conts v s (msPlatformProvider, x) \<noteq> None \<and> conts v s (msSoftwareProvider, x) \<noteq> None))"

definition nul_free :: "string \<Rightarrow> bool" where
  "nul_free l \<longleftrightarrow> CHR 0x00 \<notin> set l"

text \<open>Nothing is stored, or the key is finished in its provider and what follows ran on it.\<close>

definition stored_by ::
  "'n cng_view \<Rightarrow> string \<Rightarrow> string \<Rightarrow> string \<Rightarrow> (nat \<Rightarrow> ('n, 'a) io) \<Rightarrow> 'n world \<Rightarrow> err + 'a \<Rightarrow> 'n world \<Rightarrow> bool" where
  "stored_by v P a x act s r t \<longleftrightarrow> (conts v t = conts v s \<and> (\<exists>y. r = Inl y)) \<or>
    (\<exists>k b u u'. conts v u = (conts v s)((P, x) \<mapsto> b) \<and> v_key v (w_net u) k = Some (P, x) \<and>
       (a = algECDHP256 \<longrightarrow> getLE32 b = bcryptECDHPublicP256Magic) \<and> act k u = (r, u') \<and> conts v t = conts v u')"

lemma utf16_names [simp]:
  "utf16 msPlatformProvider = Some msPlatformProvider" "utf16 msSoftwareProvider = Some msSoftwareProvider"
  "utf16 algECDSAP256 = Some algECDSAP256" "utf16 algECDHP256 = Some algECDHP256"
  by (simp_all add: utf16_def msPlatformProvider_def msSoftwareProvider_def algECDSAP256_def algECDHP256_def)

lemma utf16_keys [simp]:
  "nul_free l \<Longrightarrow> utf16 (keyName l) = Some (keyName l)" "nul_free l \<Longrightarrow> utf16 (agreeName l) = Some (agreeName l)"
  by (simp_all add: utf16_def keyName_def agreeName_def nul_free_def)

lemma keyName_inject [simp]: "keyName a = keyName b \<longleftrightarrow> a = b"
  by (simp add: keyName_def)

lemma providers_differ [simp]: "msPlatformProvider \<noteq> msSoftwareProvider" "msSoftwareProvider \<noteq> msPlatformProvider"
  by (simp_all add: msPlatformProvider_def msSoftwareProvider_def)

lemma algs_differ [simp]: "algECDSAP256 \<noteq> algECDHP256"
  by (simp add: algECDSAP256_def algECDHP256_def)

lemma win_keys_cong:
  assumes "conts v t = conts v s"
  shows "win_keys e v avail t = win_keys e v avail s"
  unfolding win_keys_def fun_eq_iff assms by simp

lemma holder_add:
  assumes "holder avail C x = None" "find avail providers = Some P"
  shows "holder avail (C((P, x) \<mapsto> b)) y = (if y = x then Some P else holder avail C y)"
  using assms by (auto simp: holder_def split: if_splits)

lemma holder_Some: "holder avail C x = Some P \<Longrightarrow> avail P \<and> C (P, x) \<noteq> None \<and> P \<in> set providers"
  by (auto simp: holder_def split: if_splits)

lemma win_keys_absent: "holder avail (conts v s) (keyName l) = None \<Longrightarrow> win_keys e v avail s l = None"
  by (simp add: win_keys_def)

lemma win_keys_added:
  assumes "conts v t = (conts v s)((P, x) \<mapsto> b)" "find avail providers = Some P" "holder avail (conts v s) x = None"
  shows "win_keys e v avail t m =
    (if keyName m = x then (case eccBlobToSSH e b m of Inl _ \<Rightarrow> None | Inr line \<Rightarrow> Some line) else win_keys e v avail s m)"
  unfolding win_keys_def assms(1) holder_add [OF assms(3,2)] by (auto split: option.split)

lemma win_invar_added:
  assumes "win_invar v avail s" "conts v t = (conts v s)((P, x) \<mapsto> b)" "holder avail (conts v s) x = None"
  shows "win_invar v avail t"
  using assms by (auto simp: win_invar_def holder_def split: if_splits)

lemma win_keys_removed:
  assumes "win_invar v avail s" "holder avail (conts v s) (keyName l) = Some P"
    and "conts v t = (conts v s)((P, keyName l) := None)"
  shows "win_keys e v avail t = (win_keys e v avail s)(l := None)"
proof
  fix m
  have "holder avail (conts v t) (keyName l) = None"
    using assms(1) [unfolded win_invar_def, THEN spec, of "keyName l"] assms(2,3) by (auto simp: holder_def split: if_splits)
  moreover have "holder avail (conts v t) (keyName m) = holder avail (conts v s) (keyName m)" if "m \<noteq> l"
    using assms(3) that by (simp add: holder_def)
  ultimately show "win_keys e v avail t m = ((win_keys e v avail s)(l := None)) m"
    unfolding win_keys_def assms(3) by (auto split: option.split)
qed

lemma win_invar_removed: "win_invar v avail s \<Longrightarrow> conts v t = (conts v s)(k := None) \<Longrightarrow> win_invar v avail t"
  by (auto simp: win_invar_def)

lemma agreement_blob_no_line: "getLE32 b = bcryptECDHPublicP256Magic \<Longrightarrow> \<exists>y. eccBlobToSSH e b l = Inl y"
  by (simp add: eccBlobToSSH_def ecc_header_def bcryptECDHPublicP256Magic_def bcryptECDSAPublicP256Magic_def Let_def)

lemma ncCheck_zero [simp]: "ncCheck op 0 = Inr ()"
  by (simp add: ncCheck_def)

lemma ncCheck_cases: "c = 0 \<or> (\<exists>x. ncCheck op c = Inl x)"
  by (cases "ncMessages (ucast c)") (auto simp: ncCheck_def Let_def)

lemma handle_call_result:
  assumes "handle_call op f s = (r, t)"
  shows "\<exists>c k. f (w_net s) = ((c, k), w_net t) \<and> (if c = 0 then r = Inr k else (\<exists>x. r = Inl x))"
proof -
  obtain c k n where n: "f (w_net s) = ((c, k), n)" by (metis prod.exhaust)
  with assms ncCheck_cases [of c op] show ?thesis
    by (auto simp: handle_call_def bindS_def on_net_def)
qed

lemma status_call_result:
  assumes "status_call op f s = (r, t)"
  shows "\<exists>c. f (w_net s) = (c, w_net t) \<and> (if c = 0 then r = Inr () else (\<exists>x. r = Inl x))"
proof -
  obtain c n where n: "f (w_net s) = (c, n)" by (metis prod.exhaust)
  with assms ncCheck_cases [of c op] show ?thesis
    by (auto simp: status_call_def bindS_def on_net_def)
qed

lemma snd_bind_ret: "snd (bindS m (\<lambda>x. retS (f x)) s) = snd (m s)"
  by (simp add: bindS_def split: prod.split sum.split)

section \<open>The operations on the stored keys\<close>

context cng_library
begin

lemma free_conts: "conts v (snd (freeObject e k s)) = conts v s"
  by (simp add: freeObject_def conts_def free_keeps)

lemma free_result: "\<exists>t. freeObject e k s = (Inr (), t) \<and> conts v t = conts v s"
  by (auto simp: freeObject_def on_net_unit_def on_net_def conts_def free_keeps)

lemma defer_conts:
  assumes "deferS (freeObject e k) m s = (r, t)"
  shows "\<exists>u. m s = (r, u) \<and> conts v t = conts v u"
  using assms free_conts by (auto simp: deferS_def split: prod.splits)

lemma provider_result:
  assumes "openProviderByName e P s = (r, t)" "utf16 P = Some P"
  shows "conts v t = conts v s \<and> (if avail P then \<exists>p. r = Inr p \<and> v_prov v (w_net t) p = Some P else \<exists>x. r = Inl x)"
proof -
  from handle_call_result [OF assms(1) [unfolded openProviderByName_def]] obtain c k where
    c: "nc_open_provider e (utf16 P) (w_net s) = ((c, k), w_net t)" "if c = 0 then r = Inr k else (\<exists>x. r = Inl x)" by blast
  from open_provider [OF c(1)] c(2) assms(2) show ?thesis by (auto simp: conts_def split: if_splits)
qed

lemma key_result:
  assumes "openKeyHandle e p x s = (r, t)" "v_prov v (w_net s) p = Some P" "utf16 x = Some x"
  shows "conts v t = conts v s \<and>
    (if conts v s (P, x) \<noteq> None then \<exists>k. r = Inr k \<and> v_key v (w_net t) k = Some (P, x) else \<exists>y. r = Inl y)"
proof -
  from handle_call_result [OF assms(1) [unfolded openKeyHandle_def]] obtain c k where
    c: "nc_open_key e p (utf16 x) (w_net s) = ((c, k), w_net t)" "if c = 0 then r = Inr k else (\<exists>x. r = Inl x)" by blast
  from open_key [OF assms(2) c(1)] c(2) assms(3) show ?thesis by (auto simp: conts_def split: if_splits)
qed

lemma open_loop_result:
  assumes "open_existing_loop e x fe pns s = (r, t)" "\<forall>P\<in>set pns. utf16 P = Some P" "utf16 x = Some x"
  shows "conts v t = conts v s \<and>
    (case r of Inl _ \<Rightarrow> find (\<lambda>P. avail P \<and> conts v s (P, x) \<noteq> None) pns = None
     | Inr (p, k, P) \<Rightarrow> find (\<lambda>P. avail P \<and> conts v s (P, x) \<noteq> None) pns = Some P \<and> v_key v (w_net t) k = Some (P, x))"
  using assms
proof (induction pns arbitrary: fe s)
  case (Cons P pns)
  obtain q u where q: "openProviderByName e P s = (q, u)" by (metis prod.exhaust)
  from Cons.prems(2) provider_result [OF q] have pr: "conts v u = conts v s"
    "if avail P then \<exists>p. q = Inr p \<and> v_prov v (w_net u) p = Some P else \<exists>x. q = Inl x" by auto
  show ?case
  proof (cases q)
    case (Inl err)
    with pr(2) have "\<not> avail P" by (auto split: if_splits)
    with Cons.IH [of "first_err fe err" u] Cons.prems q Inl pr(1) show ?thesis
      by (cases r) (auto simp: bindS_def tryS_def)
  next
    case (Inr p)
    with pr(2) have p: "avail P" "v_prov v (w_net u) p = Some P" by (auto split: if_splits)
    obtain k w where k: "openKeyHandle e p x u = (k, w)" by (metis prod.exhaust)
    from key_result [OF k p(2) Cons.prems(3)] have kr: "conts v w = conts v u"
      "if conts v u (P, x) \<noteq> None then \<exists>h. k = Inr h \<and> v_key v (w_net w) h = Some (P, x) else \<exists>y. k = Inl y" by auto
    show ?thesis
    proof (cases k)
      case (Inl err)
      obtain z where z: "freeObject e p w = (Inr (), z)" "conts v z = conts v w" using free_result by blast
      with Cons.IH [of "first_err fe err" z] Cons.prems q Inr k Inl z pr(1) kr show ?thesis
        by (cases r) (auto simp: bindS_def tryS_def split: if_splits)
    next
      case (Inr h)
      with Cons.prems q \<open>q = Inr p\<close> k pr(1) kr p(1) show ?thesis by (auto simp: bindS_def tryS_def split: if_splits)
    qed
  qed
qed auto

lemma existing_result:
  assumes "openExistingKeyByName e x s = (r, t)" "utf16 x = Some x"
  shows "conts v t = conts v s \<and>
    (case r of Inl _ \<Rightarrow> holder avail (conts v s) x = None
     | Inr (p, k, P) \<Rightarrow> holder avail (conts v s) x = Some P \<and> v_key v (w_net t) k = Some (P, x))"
  using open_loop_result [OF assms(1) [unfolded openExistingKeyByName_def] _ assms(2)] by (simp add: holder_def split: sum.split_asm sum.split)

lemma refuse_result:
  assumes "refuse_existing e x s = (r, t)" "utf16 x = Some x"
  shows "conts v t = conts v s \<and> (if holder avail (conts v s) x = None then r = Inr () else r = Inl (Msg ''already exists; remove it first''))"
proof -
  obtain q u where q: "openExistingKeyByName e x s = (q, u)" by (metis prod.exhaust)
  note er = existing_result [OF q assms(2)]
  show ?thesis
  proof (cases q)
    case (Inl y)
    with assms(1) q er show ?thesis by (auto simp: refuse_existing_def bindS_def tryS_def)
  next
    case (Inr pkP)
    obtain p k P where pk: "pkP = (p, k, P)" by (cases pkP)
    obtain w where w: "freeObject e k u = (Inr (), w)" "conts v w = conts v u" using free_result by blast
    obtain z where z: "freeObject e p w = (Inr (), z)" "conts v z = conts v w" using free_result by blast
    from assms(1) q Inr pk w z er show ?thesis by (auto simp: refuse_existing_def bindS_def tryS_def)
  qed
qed

lemma sized_export_result:
  assumes "sized_call pr op (nc_export e k ty) s = (r, t)" "v_key v (w_net s) k = Some c"
  shows "conts v t = conts v s \<and> (\<forall>b. r = Inr b \<longrightarrow> conts v s c = Some b)"
proof -
  obtain r1 cb w1 n1 where 1: "nc_export e k ty None (w_net s) = ((r1, cb, w1), n1)" by (metis prod.exhaust)
  note e1 = export_key [OF assms(2) 1]
  obtain r2 cb2 w2 n2 where 2: "nc_export e k ty (Some cb) n1 = ((r2, cb2, w2), n2)" by (metis prod.exhaust)
  from e1 have "v_key v n1 k = Some c" by simp
  note e2 = export_key [OF this 2]
  show ?thesis
  proof (cases "r1 = 0 \<and> cb \<noteq> 0 \<and> r2 = 0 \<and> \<not> cb < cb2")
    case True
    with e2 e1 obtain b where b: "v_cont v (w_net s) c = Some b" "cb2 = word_of_nat (length b)" "w2 = b" "length b \<le> unat cb" by auto
    moreover have "unat cb < 2 ^ 32" using unsigned_less [of cb] by simp
    ultimately have "length b < 2 ^ 32" by linarith
    with b have len: "unat cb2 = length b" by (simp add: unat_of_nat)
    from True assms(1) 1 2 have "r = Inr (take (unat cb2) (filled (unat cb) w2))" "w_net t = n2"
      by (auto simp: sized_call_def bindS_def on_net_def)
    with b len e1 e2 show ?thesis by (simp add: filled_def conts_def)
  next
    case False
    with assms(1) 1 2 have "(\<exists>x. r = Inl x) \<and> (w_net t = n1 \<or> w_net t = n2)"
      using ncCheck_cases [of r1 pr] ncCheck_cases [of r2 op]
      by (auto simp: sized_call_def bindS_def on_net_def split: if_splits)
    with e1 e2 show ?thesis by (auto simp: conts_def)
  qed
qed

lemma openProvider_result:
  assumes "openProvider e s = (r, t)"
  shows "conts v t = conts v s \<and> (\<forall>p P. r = Inr (p, P) \<longrightarrow> v_prov v (w_net t) p = Some P \<and> find avail providers = Some P)"
proof -
  obtain q u where q: "openProviderByName e msPlatformProvider s = (q, u)" by (metis prod.exhaust)
  obtain q' u' where q': "openProviderByName e msSoftwareProvider u = (q', u')" by (metis prod.exhaust)
  from provider_result [OF q] provider_result [OF q'] assms q q' show ?thesis
    by (cases q; cases q') (auto simp: openProvider_def bindS_def tryS_def split: if_splits)
qed

lemma finish_result:
  assumes "bindS (wrapS (Ctx ''set Windows Hello UI policy'') (setProperty e k propUIPolicy pol)) (\<lambda>_.
      bindS (status_call opf (nc_finalize e k)) (\<lambda>_. act k)) s = (r, t)"
    and "v_new v (w_net s) k = Some (P, a, Some x)"
  shows "stored_by v P a x act s r t"
proof -
  obtain d s1 where d: "setProperty e k propUIPolicy pol s = (d, s1)" by (metis prod.exhaust)
  from status_call_result [OF d [unfolded setProperty_def]] obtain c1 where
    c1: "nc_set_property e k (utf16 propUIPolicy) pol (w_net s) = (c1, w_net s1)"
    "if c1 = 0 then d = Inr () else (\<exists>x. d = Inl x)" by blast
  from set_property [OF c1(1)] assms(2) have s1: "conts v s1 = conts v s" "v_new v (w_net s1) k = Some (P, a, Some x)"
    by (auto simp: conts_def)
  obtain f s2 where f: "status_call opf (nc_finalize e k) s1 = (f, s2)" by (metis prod.exhaust)
  from status_call_result [OF f] obtain c2 where c2: "nc_finalize e k (w_net s1) = (c2, w_net s2)"
    "if c2 = 0 then f = Inr () else (\<exists>x. f = Inl x)" by blast
  note fin = finalize [OF s1(2) c2(1)]
  show ?thesis
  proof (cases "c1 = 0 \<and> c2 = 0")
    case True
    with c1(2) c2(2) assms(1) d f have "act k s2 = (r, t)" by (simp add: bindS_def wrapS_def)
    moreover from True fin obtain b where "conts v s2 = (conts v s)((P, x) \<mapsto> b)" "v_key v (w_net s2) k = Some (P, x)"
      "a = algECDHP256 \<longrightarrow> getLE32 b = bcryptECDHPublicP256Magic" using s1 by (auto simp: conts_def)
    ultimately show ?thesis unfolding stored_by_def by blast
  next
    case False
    with c1(2) c2(2) assms(1) d f fin s1 show ?thesis
      by (auto simp: stored_by_def bindS_def wrapS_def conts_def split: if_splits)
  qed
qed

lemma persist_result:
  assumes "persist_key e opc opf a x pol act s = (r, t)" "utf16 x = Some x" "utf16 a = Some a"
  shows "(conts v t = conts v s \<and> (\<exists>y. r = Inl y)) \<or> (\<exists>P. find avail providers = Some P \<and> stored_by v P a x act s r t)"
proof -
  obtain q s1 where q: "openProvider e s = (q, s1)" by (metis prod.exhaust)
  note pr = openProvider_result [OF q]
  show ?thesis
  proof (cases q)
    case (Inl y)
    with assms(1) q pr show ?thesis by (auto simp: persist_key_def bindS_def)
  next
    case (Inr pP)
    obtain p P where pP: "pP = (p, P)" by (cases pP)
    with pr Inr have P: "v_prov v (w_net s1) p = Some P" "find avail providers = Some P" "conts v s1 = conts v s" by auto
    let ?step = "\<lambda>hKey. deferS (freeObject e hKey)
         (bindS (wrapS (Ctx ''set Windows Hello UI policy'') (setProperty e hKey propUIPolicy pol)) (\<lambda>_.
          bindS (status_call opf (nc_finalize e hKey)) (\<lambda>_. act hKey)))"
    have "deferS (freeObject e p)
        (bindS (wrapS (Ctx ''create key'') (handle_call opc (nc_create e p (utf16 a) (utf16 x)))) ?step) s1 = (r, t)"
      using assms(1) q Inr pP by (simp add: persist_key_def bindS_def)
    from defer_conts [OF this] obtain t1 where
      t1: "bindS (wrapS (Ctx ''create key'') (handle_call opc (nc_create e p (utf16 a) (utf16 x)))) ?step s1 = (r, t1)"
      "conts v t = conts v t1" by blast
    obtain c s2 where c: "handle_call opc (nc_create e p (utf16 a) (utf16 x)) s1 = (c, s2)" by (metis prod.exhaust)
    from handle_call_result [OF c] obtain st k where st: "nc_create e p (utf16 a) (utf16 x) (w_net s1) = ((st, k), w_net s2)"
      "if st = 0 then c = Inr k else (\<exists>x. c = Inl x)" by blast
    from create_key [OF P(1) st(1) [unfolded assms(2,3)]] have cr: "conts v s2 = conts v s1"
      "st = 0 \<Longrightarrow> v_new v (w_net s2) k = Some (P, a, Some x)" by (auto simp: conts_def)
    show ?thesis
    proof (cases "st = 0")
      case False
      with st(2) t1 c cr(1) P(3) show ?thesis by (auto simp: bindS_def wrapS_def)
    next
      case True
      with st(2) t1(1) c have "?step k s2 = (r, t1)" by (simp add: bindS_def wrapS_def)
      from defer_conts [OF this] obtain t2 where t2: "conts v t1 = conts v t2"
        "bindS (wrapS (Ctx ''set Windows Hello UI policy'') (setProperty e k propUIPolicy pol)) (\<lambda>_.
           bindS (status_call opf (nc_finalize e k)) (\<lambda>_. act k)) s2 = (r, t2)" by blast
      from finish_result [where act = act, OF t2(2) cr(2) [OF True]] t1(2) t2(1) cr(1) P(2,3) show ?thesis by (simp add: stored_by_def)
    qed
  qed
qed

lemma export_result:
  assumes "exportPub e k l s = (r, t)" "v_key v (w_net s) k = Some c"
  shows "conts v t = conts v s \<and> (\<forall>line. r = Inr line \<longrightarrow> (\<exists>b. conts v s c = Some b \<and> eccBlobToSSH e b l = Inr line))"
proof -
  let ?m = "sized_call ''NCryptExportKey(size)'' ''NCryptExportKey'' (nc_export e k (utf16 blobECCPublic))"
  obtain q u where q: "?m s = (q, u)" by (metis prod.exhaust)
  from sized_export_result [OF q assms(2)] assms(1) q show ?thesis by (cases q) (auto simp: exportPub_def bindS_def)
qed

lemma export_sec1_result:
  assumes "exportPubSEC1 e k s = (r, t)" "v_key v (w_net s) k = Some c"
  shows "conts v t = conts v s \<and> (\<forall>p. r = Inr p \<longrightarrow> (\<exists>b. conts v s c = Some b \<and> sec1_of_blob b = Inr p))"
proof -
  let ?m = "sized_call ''NCryptExportKey(ECDH size)'' ''NCryptExportKey(ECDH)'' (nc_export e k (utf16 blobECCPublic))"
  obtain q u where q: "?m s = (q, u)" by (metis prod.exhaust)
  from sized_export_result [OF q assms(2)] assms(1) q show ?thesis by (cases q) (auto simp: exportPubSEC1_def bindS_def)
qed

lemma win_create_result:
  assumes "win_Create e l s = (r, t)" "nul_free l"
  shows "(conts v t = conts v s \<and> (\<exists>y. r = Inl y)) \<or>
    (\<exists>P b. find avail providers = Some P \<and> holder avail (conts v s) (keyName l) = None \<and>
       conts v t = (conts v s)((P, keyName l) \<mapsto> b) \<and> (\<forall>line. r = Inr line \<longrightarrow> eccBlobToSSH e b l = Inr line))"
proof -
  obtain q u where q: "refuse_existing e (keyName l) s = (q, u)" by (metis prod.exhaust)
  from refuse_result [OF q] assms(2) have rr: "conts v u = conts v s"
    "if holder avail (conts v s) (keyName l) = None then q = Inr () else q = Inl (Msg ''already exists; remove it first'')" by simp_all
  show ?thesis
  proof (cases q)
    case (Inl y)
    with assms(1) q have "r = Inl y" "t = u" by (simp_all add: win_Create_def bindS_def)
    with rr(1) show ?thesis by blast
  next
    case (Inr y)
    with rr(2) have h: "holder avail (conts v s) (keyName l) = None" by (auto split: if_splits)
    from assms(1) q Inr have "persist_key e ''NCryptCreatePersistedKey'' ''NCryptFinalizeKey'' algECDSAP256 (keyName l)
       (hello_policy ''p3sig SSH key'' (''p3sig SSH key ('' @ l @ '')'') ''Authorize an SSH login with your p3sig chip key'')
       (\<lambda>hKey. exportPub e hKey l) u = (r, t)" by (simp add: win_Create_def bindS_def)
    from persist_result [OF this utf16_keys(1) [OF assms(2)] utf16_names(3)] rr(1) h export_result show ?thesis
      unfolding stored_by_def by fastforce
  qed
qed

lemma win_agreement_result:
  assumes "win_CreateAgreementKey e l s = (r, t)" "nul_free l"
  shows "(conts v t = conts v s \<and> (\<exists>y. r = Inl y)) \<or>
    (\<exists>P b. find avail providers = Some P \<and> holder avail (conts v s) (agreeName l) = None \<and>
       conts v t = (conts v s)((P, agreeName l) \<mapsto> b) \<and> getLE32 b = bcryptECDHPublicP256Magic \<and>
       (\<forall>p. r = Inr p \<longrightarrow> sec1_of_blob b = Inr p))"
proof -
  obtain q u where q: "refuse_existing e (agreeName l) s = (q, u)" by (metis prod.exhaust)
  from refuse_result [OF q] assms(2) have rr: "conts v u = conts v s"
    "if holder avail (conts v s) (agreeName l) = None then q = Inr () else q = Inl (Msg ''already exists; remove it first'')" by simp_all
  show ?thesis
  proof (cases q)
    case (Inl y)
    with assms(1) q have "r = Inl y" "t = u" by (simp_all add: win_CreateAgreementKey_def bindS_def)
    with rr(1) show ?thesis by blast
  next
    case (Inr y)
    with rr(2) have h: "holder avail (conts v s) (agreeName l) = None" by (auto split: if_splits)
    from assms(1) q Inr have "persist_key e ''NCryptCreatePersistedKey(ECDH)'' ''NCryptFinalizeKey(ECDH)'' algECDHP256 (agreeName l)
       (hello_policy ''p3sig device key'' (''p3sig device-unlock key ('' @ l @ '')'')
         ''Authorize unlocking your p3sig vault key with your chip'') (exportPubSEC1 e) u = (r, t)"
      by (simp add: win_CreateAgreementKey_def bindS_def)
    from persist_result [OF this utf16_keys(2) [OF assms(2)] utf16_names(4)] rr(1) h export_sec1_result show ?thesis
      unfolding stored_by_def by fastforce
  qed
qed

text \<open>The operations that open a key and do something with it that stores nothing.\<close>

lemma on_net_conts: "(\<And>n. v_cont v (snd (f n)) = v_cont v n) \<Longrightarrow> conts v (snd (on_net f s)) = conts v s"
  by (simp add: conts_def)

lemma bind_conts:
  assumes "conts v (snd (m s)) = conts v s" "\<And>x u. m s = (Inr x, u) \<Longrightarrow> conts v (snd (k x u)) = conts v u"
  shows "conts v (snd (bindS m k s)) = conts v s"
  using assms by (auto simp: bindS_def split: prod.split sum.split)

lemma defer_keeps: "conts v (snd (m s)) = conts v s \<Longrightarrow> conts v (snd (deferS (freeObject e k) m s)) = conts v s"
  using free_conts by (cases "m s") (simp add: deferS_def)

lemma handle_conts: "(\<And>n. v_cont v (snd (f n)) = v_cont v n) \<Longrightarrow> conts v (snd (handle_call op f s)) = conts v s"
  unfolding handle_call_def by (rule bind_conts) (auto intro!: on_net_conts simp: bindS_def split: sum.split)

lemma sized_conts: "(\<And>sz n. v_cont v (snd (f sz n)) = v_cont v n) \<Longrightarrow> conts v (snd (sized_call pr op f s)) = conts v s"
  unfolding sized_call_def
  by (rule bind_conts, rule on_net_conts, simp) (auto simp: bindS_def on_net_def conts_def split: sum.split prod.split, (metis snd_conv)+)

lemma existing_conts: "utf16 x = Some x \<Longrightarrow> conts v (snd (openExistingKeyByName e x s)) = conts v s"
  using existing_result [of x s] by (metis prod.collapse)

lemma win_sign_keeps: "nul_free l \<Longrightarrow> conts v (snd (win_Sign e l d s)) = conts v s"
  unfolding win_Sign_def openExistingKey_def
  by (rule bind_conts, simp add: existing_conts) (auto intro!: defer_keeps sized_conts sign_keeps)

lemma derive_conts: "conts v (snd (derive_secret e k s)) = conts v s"
  unfolding derive_secret_def
  by (rule bind_conts, rule on_net_conts, rule derive_keeps) (auto simp: bindS_def split: sum.split)

lemma win_agree_keeps: "nul_free l \<Longrightarrow> conts v (snd (win_Agree e l p s)) = conts v s"
  unfolding win_Agree_def
  by (auto intro!: bind_conts defer_keeps handle_conts import_keeps agreement_keeps derive_conts simp: existing_conts)

lemma win_public_result:
  assumes "win_PublicKey e l s = (r, t)" "nul_free l"
  shows "conts v t = conts v s \<and> (\<forall>line. r = Inr line \<longrightarrow> win_keys e v avail s l = Some line)"
proof -
  obtain q u where q: "openExistingKeyByName e (keyName l) s = (q, u)" by (metis prod.exhaust)
  note er = existing_result [OF q utf16_keys(1) [OF assms(2)]]
  show ?thesis
  proof (cases q)
    case (Inl y)
    with assms(1) q er show ?thesis by (auto simp: win_PublicKey_def openExistingKey_def bindS_def)
  next
    case (Inr pkP)
    obtain p k P where pk: "pkP = (p, k, P)" by (cases pkP)
    with assms(1) q Inr have "deferS (freeObject e p) (deferS (freeObject e k) (exportPub e k l)) u = (r, t)"
      by (simp add: win_PublicKey_def openExistingKey_def bindS_def)
    from defer_conts [OF this] obtain u1 where u1: "deferS (freeObject e k) (exportPub e k l) u = (r, u1)" "conts v t = conts v u1" by blast
    from defer_conts [OF u1(1)] obtain u2 where u2: "exportPub e k l u = (r, u2)" "conts v u1 = conts v u2" by blast
    from er Inr pk have h: "holder avail (conts v s) (keyName l) = Some P" "v_key v (w_net u) k = Some (P, keyName l)" "conts v u = conts v s" by simp_all
    from export_result [OF u2(1) h(2)] h u1 u2 show ?thesis by (auto simp: win_keys_def)
  qed
qed

lemma win_delete_result:
  assumes "win_Delete e l s = (r, t)" "nul_free l"
  shows "(conts v t = conts v s \<and> (\<exists>y. r = Inl y)) \<or>
    (\<exists>P. r = Inr () \<and> holder avail (conts v s) (keyName l) = Some P \<and> conts v t = (conts v s)((P, keyName l) := None))"
proof -
  obtain q u where q: "openExistingKeyByName e (keyName l) s = (q, u)" by (metis prod.exhaust)
  note er = existing_result [OF q utf16_keys(1) [OF assms(2)]]
  show ?thesis
  proof (cases q)
    case (Inl y)
    with assms(1) q er show ?thesis by (auto simp: win_Delete_def openExistingKey_def bindS_def)
  next
    case (Inr pkP)
    obtain p k P where pk: "pkP = (p, k, P)" by (cases pkP)
    let ?body = "bindS (tryS (status_call ''NCryptDeleteKey'' (nc_delete e k))) (case_sum (\<lambda>x. bindS (freeObject e k) (\<lambda>_. failS x)) retS)"
    from assms(1) q Inr pk have "deferS (freeObject e p) ?body u = (r, t)"
      by (simp add: win_Delete_def openExistingKey_def bindS_def)
    from defer_conts [OF this] obtain u1 where u1: "?body u = (r, u1)" "conts v t = conts v u1" by blast
    from er Inr pk have h: "holder avail (conts v s) (keyName l) = Some P" "v_key v (w_net u) k = Some (P, keyName l)" "conts v u = conts v s" by simp_all
    obtain d u2 where d: "status_call ''NCryptDeleteKey'' (nc_delete e k) u = (d, u2)" by (metis prod.exhaust)
    from status_call_result [OF d] obtain c where c: "nc_delete e k (w_net u) = (c, w_net u2)"
      "if c = 0 then d = Inr () else (\<exists>x. d = Inl x)" by blast
    from delete_key [OF h(2) c(1)] have dk: "conts v u2 = (if c = 0 then (conts v u)((P, keyName l) := None) else conts v u)"
      by (simp add: conts_def)
    obtain u3 where u3: "freeObject e k u2 = (Inr (), u3)" "conts v u3 = conts v u2" using free_result by blast
    from u1 d c(2) dk h u3 show ?thesis by (cases "c = 0") (auto simp: bindS_def tryS_def)
  qed
qed

lemma win_invar_cong: "conts v t = conts v s \<Longrightarrow> win_invar v avail s \<Longrightarrow> win_invar v avail t"
  by (simp add: win_invar_def)

lemma win_create_keys:
  assumes "win_Create e l s = (r, t)" "nul_free l" "win_invar v avail s"
  shows "win_invar v avail t" "win_keys e v avail s \<subseteq>\<^sub>m win_keys e v avail t" "m \<noteq> l \<Longrightarrow> win_keys e v avail t m = win_keys e v avail s m"
    and "r = Inr line \<Longrightarrow> win_keys e v avail s l = None \<and> win_keys e v avail t = (win_keys e v avail s)(l \<mapsto> line)"
proof -
  from win_create_result [OF assms(1,2)]
  consider (same) y where "conts v t = conts v s" "r = Inl y" | (added) P b where "find avail providers = Some P"
    "holder avail (conts v s) (keyName l) = None" "conts v t = (conts v s)((P, keyName l) \<mapsto> b)"
    "\<forall>line. r = Inr line \<longrightarrow> eccBlobToSSH e b l = Inr line" by blast
  then have "win_invar v avail t \<and> win_keys e v avail s \<subseteq>\<^sub>m win_keys e v avail t \<and>
      (\<forall>m. m \<noteq> l \<longrightarrow> win_keys e v avail t m = win_keys e v avail s m) \<and>
      (\<forall>line. r = Inr line \<longrightarrow> win_keys e v avail s l = None \<and> win_keys e v avail t = (win_keys e v avail s)(l \<mapsto> line))"
  proof cases
    case same
    with assms(3) win_invar_cong [of t s] win_keys_cong [of v t s] show ?thesis by simp
  next
    case added
    note k = win_keys_added [OF added(3,1,2)]
    from win_keys_absent [OF added(2)] k have "win_keys e v avail s \<subseteq>\<^sub>m win_keys e v avail t"
      by (auto simp: map_le_def dom_def)
    with win_invar_added [OF assms(3) added(3,2)] k win_keys_absent [OF added(2)] added(4) show ?thesis
      by (auto simp: fun_eq_iff)
  qed
  then show "win_invar v avail t" "win_keys e v avail s \<subseteq>\<^sub>m win_keys e v avail t" "m \<noteq> l \<Longrightarrow> win_keys e v avail t m = win_keys e v avail s m"
    "r = Inr line \<Longrightarrow> win_keys e v avail s l = None \<and> win_keys e v avail t = (win_keys e v avail s)(l \<mapsto> line)" by blast+
qed

lemma win_agreement_keys:
  assumes "nul_free l" "win_invar v avail s"
  shows "win_invar v avail (snd (win_CreateAgreementKey e l s))"
    and "win_keys e v avail (snd (win_CreateAgreementKey e l s)) = win_keys e v avail s"
proof -
  obtain r t where rt: "win_CreateAgreementKey e l s = (r, t)" by (metis prod.exhaust)
  from win_agreement_result [OF rt assms(1)]
  consider (same) "conts v t = conts v s" | (added) P b where "find avail providers = Some P"
    "holder avail (conts v s) (agreeName l) = None" "conts v t = (conts v s)((P, agreeName l) \<mapsto> b)"
    "getLE32 b = bcryptECDHPublicP256Magic" by blast
  then have "win_invar v avail t \<and> win_keys e v avail t = win_keys e v avail s"
  proof cases
    case same
    with assms(2) win_invar_cong [of t s] win_keys_cong [of v t s] show ?thesis by simp
  next
    case added
    have "win_keys e v avail t m = win_keys e v avail s m" for m
      using win_keys_added [OF added(3,1,2), of e m] agreement_blob_no_line [OF added(4), of e m]
        win_keys_absent [of avail v s m e] added(2) by auto
    with win_invar_added [OF assms(2) added(3,2)] show ?thesis by blast
  qed
  with rt show "win_invar v avail (snd (win_CreateAgreementKey e l s))"
    "win_keys e v avail (snd (win_CreateAgreementKey e l s)) = win_keys e v avail s" by simp_all
qed

lemma win_delete_keys:
  assumes "win_Delete e l s = (r, t)" "nul_free l" "win_invar v avail s"
  shows "win_invar v avail t \<and> win_keys e v avail t = (case r of Inl _ \<Rightarrow> win_keys e v avail s | Inr _ \<Rightarrow> (win_keys e v avail s)(l := None))"
  using win_delete_result [OF assms(1,2)]
proof
  assume "conts v t = conts v s \<and> (\<exists>y. r = Inl y)"
  with assms(3) win_invar_cong [of t s] win_keys_cong [of v t s] show ?thesis by auto
next
  assume "\<exists>P. r = Inr () \<and> holder avail (conts v s) (keyName l) = Some P \<and> conts v t = (conts v s)((P, keyName l) := None)"
  with win_keys_removed [OF assms(3)] win_invar_removed [OF assms(3)] show ?thesis by fastforce
qed

lemma win_reads_keep:
  assumes "nul_free l"
  shows "conts v (snd (win_PublicKey e l s)) = conts v s" "conts v (snd (win_Sign e l d s)) = conts v s"
    "conts v (snd (win_Agree e l p s)) = conts v s"
  using assms win_sign_keeps win_agree_keeps win_public_result [of l s] by (metis prod.collapse)+

lemma win_call_invar:
  assumes "win_invar v avail s" "nul_free (call_label c)" "run_call (winHello e) c s = (r, t)"
  shows "win_invar v avail t"
proof -
  from assms(3) have t: "t = snd (run_call (winHello e) c s)" by simp
  show ?thesis
  proof (cases c)
    case (CCreate l)
    with t assms win_create_keys(1) [of l s "fst (win_Create e l s)" t] show ?thesis by (simp add: winHello_def snd_bind_ret)
  next
    case (CDelete l)
    with t assms win_delete_keys [of l s "fst (win_Delete e l s)" t] show ?thesis by (simp add: winHello_def snd_bind_ret)
  next
    case (CAgreementKey l)
    with t assms win_agreement_keys(1) [of l s] show ?thesis by (simp add: winHello_def snd_bind_ret)
  qed (use t assms win_reads_keep win_invar_cong in \<open>auto simp: winHello_def snd_bind_ret\<close>)
qed

end

sublocale cng_library \<subseteq> store: chip_store "win_keys e v avail" "win_invar v avail" nul_free "winHello e"
proof (unfold_locales, goal_cases)
  case (1 s c r t) then show ?case by (rule win_call_invar)
next
  case (2 s l line t) then show ?case using win_create_keys(4) by (simp add: winHello_def)
next
  case (3 s l y t) then show ?case using win_create_keys(2,3) by (simp add: winHello_def)
next
  case (4 s l line t) then show ?case using win_public_result by (simp add: winHello_def)
next
  case (5 s l) then show ?case using win_keys_cong [OF win_reads_keep(1)] by (simp add: winHello_def)
next
  case (6 s l t) then show ?case using win_delete_keys by (fastforce simp: winHello_def)
next
  case (7 s l y t) then show ?case using win_delete_keys by (fastforce simp: winHello_def)
next
  case (8 s l d) then show ?case using win_keys_cong [OF win_reads_keep(2)] by (simp add: winHello_def)
next
  case (9 s l) then show ?case using win_agreement_keys(2) by (simp add: winHello_def)
next
  case (10 s l p) then show ?case using win_keys_cong [OF win_reads_keep(3)] by (simp add: winHello_def)
qed

context cng_library
begin

lemma windows_simulates:
  assumes "win_invar v avail s" "nul_free (call_label c)" "run_call (winHello e) c s = (r, t)"
  shows "store_step (win_keys e v avail s) c r (win_keys e v avail t) \<and> win_invar v avail t"
  using store.simulates [OF assms] store.invar_call [OF assms] by blast

end

section \<open>Nothing but CNG changes\<close>

definition net_same :: "'n world \<Rightarrow> 'n world \<Rightarrow> bool" where
  "net_same s t \<longleftrightarrow> t = s\<lparr>w_net := w_net t\<rparr>"

definition net_only :: "('n, 'a) io \<Rightarrow> bool" where
  "net_only m \<longleftrightarrow> (\<forall>s. net_same s (snd (m s)))"

lemma net_same_trans: "net_same s t \<Longrightarrow> net_same t u \<Longrightarrow> net_same s u"
  by (cases s; cases t; cases u) (simp add: net_same_def)

lemma net_only_basic: "net_only (on_net f)" "net_only (on_net_unit g)" "net_only (retS x)" "net_only (failS y)" "net_only (liftS r)"
  by (auto simp: net_only_def net_same_def on_net_def on_net_unit_def split: prod.split)

lemma net_only_bind: "net_only m \<Longrightarrow> (\<And>x. net_only (k x)) \<Longrightarrow> net_only (bindS m k)"
  unfolding net_only_def bindS_def by (auto split: prod.split sum.split) (metis net_same_trans snd_conv)+

lemma net_only_around: "net_only m \<Longrightarrow> net_only (tryS m)" "net_only m \<Longrightarrow> net_only (wrapS w m)"
  "net_only d \<Longrightarrow> net_only m \<Longrightarrow> net_only (deferS d m)"
  unfolding net_only_def tryS_def wrapS_def deferS_def by (auto split: prod.split) (metis net_same_trans snd_conv)+

lemma net_only_cases:
  "(\<And>x. r = Inl x \<Longrightarrow> net_only (f x)) \<Longrightarrow> (\<And>y. r = Inr y \<Longrightarrow> net_only (g y)) \<Longrightarrow> net_only (case r of Inl x \<Rightarrow> f x | Inr y \<Rightarrow> g y)"
  "(\<And>a b. p = (a, b) \<Longrightarrow> net_only (k a b)) \<Longrightarrow> net_only (case p of (a, b) \<Rightarrow> k a b)"
  "(c \<Longrightarrow> net_only m) \<Longrightarrow> (\<not> c \<Longrightarrow> net_only m') \<Longrightarrow> net_only (if c then m else m')"
  by (auto split: sum.split prod.split)

lemmas net_only_intros = net_only_basic net_only_bind net_only_around net_only_cases

lemma net_only_calls: "net_only (handle_call op f)" "net_only (status_call op g)" "net_only (sized_call pr op h)" "net_only (freeObject e k)"
  unfolding handle_call_def status_call_def sized_call_def freeObject_def by (intro net_only_intros)+

lemma net_only_existing: "net_only (open_existing_loop e x fe pns)"
  by (induction pns arbitrary: fe)
    (simp_all only: open_existing_loop.simps openProviderByName_def openKeyHandle_def, (intro net_only_intros net_only_calls | assumption)+)

lemma net_only_persist: "(\<And>k. net_only (act k)) \<Longrightarrow> net_only (persist_key e opc opf a x pol act)"
  unfolding persist_key_def openProvider_def openProviderByName_def setProperty_def by (intro net_only_intros net_only_calls)

lemmas net_only_parts = net_only_intros net_only_calls net_only_existing net_only_persist

lemma win_net_only:
  "net_only (win_Create e l)" "net_only (win_PublicKey e l)" "net_only (win_Sign e l d)" "net_only (win_CreateAgreementKey e l)"
  "net_only (win_Agree e l p)" "net_only (win_Delete e l)"
  unfolding win_Create_def win_PublicKey_def win_Sign_def win_CreateAgreementKey_def win_Agree_def win_Delete_def refuse_existing_def
    openExistingKey_def openExistingKeyByName_def exportPub_def exportPubSEC1_def derive_secret_def
  by (intro net_only_parts)+

section \<open>The commands\<close>

definition init_label :: "flags \<Rightarrow> string" where
  "init_label f = (if flag f ''label'' = [] then ksDefaultLabel else flag f ''label'')"

lemma readFile_net: "readFile p s = (r, t) \<Longrightarrow> w_net t = w_net s"
  by (auto simp: readFile_def with_fault_def split: list.splits if_splits option.splits)

lemma read_ks_config_net: "read_ks_config h p s = (r, t) \<Longrightarrow> w_net t = w_net s"
  using readFile_net [of p s] by (auto simp: read_ks_config_def bindS_def Let_def split: prod.splits sum.splits)

context cng_library
begin

lemma agreement_refused:
  assumes "nul_free l" "holder avail (conts v s) (agreeName l) \<noteq> None"
  shows "fst (win_CreateAgreementKey e l s) = Inl (Msg ''already exists; remove it first'')"
proof -
  obtain q u where q: "refuse_existing e (agreeName l) s = (q, u)" by (metis prod.exhaust)
  from refuse_result [OF q utf16_keys(2) [OF assms(1)]] assms(2) q show ?thesis
    by (simp add: win_CreateAgreementKey_def bindS_def)
qed

lemma agreement_stored:
  assumes "nul_free l" "win_CreateAgreementKey e l s = (Inr point, t)"
  shows "\<exists>P b. holder avail (conts v t) (agreeName l) = Some P \<and> conts v t (P, agreeName l) = Some b \<and> sec1_of_blob b = Inr point"
  using win_agreement_result [OF assms(2,1)] by (auto simp: holder_add simp del: find.simps)

lemma init_stores_agreement:
  assumes "nul_free (init_label f)" "cmdKeyserverInit (openKeystore_windows e) f s = (Inr (), t)"
  shows "holder avail (conts v t) (agreeName (init_label f)) \<noteq> None"
proof -
  from assms(2) obtain point s1 s2 where "win_CreateAgreementKey e (init_label f) s1 = (Inr point, s2)" "w_net t = w_net s2"
    by (auto simp: cmdKeyserverInit_def openKeystore_windows_def winHello_def init_label_def Let_def result_simps println_def print_text_def)
  with agreement_stored [OF assms(1)] show ?thesis by (fastforce simp: conts_def)
qed

end

text \<open>The agreement that CNG computes for a stored key and an imported peer is the curve's, with its lowest byte first.\<close>

definition cng_agrees :: "'n win_env \<Rightarrow> 'n cng_view \<Rightarrow> wrap_crypto \<Rightarrow> bool" where
  "cng_agrees e v wc \<longleftrightarrow>
     (\<forall>n k c b point x z p hp n1 hs n2 w n3. v_key v n k = Some c \<longrightarrow> v_cont v n c = Some b \<longrightarrow> sec1_of_blob b = Inr point \<longrightarrow>
        ecdh wc x point = Some z \<longrightarrow> nc_import e p (utf16 blobECCPublic) (peer_blob (eph_pub wc x)) n = ((0, hp), n1) \<longrightarrow>
        nc_agreement e k hp n1 = ((0, hs), n2) \<longrightarrow> nc_derive e hs (utf16 bcryptKDFRawSecret) 32 n2 = ((0, 32, w), n3) \<longrightarrow>
        length z = 32 \<and> filled 32 w = rev z)"

lemma handle_call_Inr: "handle_call op f s = (Inr k, t) \<Longrightarrow> f (w_net s) = ((0, k), w_net t)"
  using handle_call_result [of op f s "Inr k" t] by (auto split: if_splits)

lemma derive_secret_Inr:
  assumes "derive_secret e k s = (Inr z, t)"
  shows "\<exists>w. nc_derive e k (utf16 bcryptKDFRawSecret) 32 (w_net s) = ((0, 32, w), w_net t) \<and> z = rev (filled 32 w)"
proof -
  obtain c cb w n where n: "nc_derive e k (utf16 bcryptKDFRawSecret) 32 (w_net s) = ((c, cb, w), n)" by (metis prod.exhaust)
  with assms ncCheck_cases [of c "''NCryptDeriveKey(RAW_SECRET)''"] show ?thesis
    by (auto simp: derive_secret_def bindS_def on_net_def split: if_splits)
qed

definition win_agree :: "'n win_env \<Rightarrow> 'n world \<Rightarrow> string \<Rightarrow> bytes \<Rightarrow> wrap_error + bytes" where
  "win_agree e s l p = wrapE (\<lambda>_. ErrAgree ''chip'') (fst (win_Agree e l p s))"

context cng_library
begin

lemma win_agree_value:
  assumes "cng_agrees e v wc" "nul_free l" "holder avail (conts v s) (agreeName l) = Some P" "conts v s (P, agreeName l) = Some b"
    and "sec1_of_blob b = Inr point" "ecdh wc x point = Some z'" "win_Agree e l (eph_pub wc x) s = (Inr z, t)"
  shows "length z = 32 \<and> z = z'"
proof -
  obtain q u where q: "openExistingKeyByName e (agreeName l) s = (q, u)" by (metis prod.exhaust)
  from existing_result [OF q utf16_keys(2) [OF assms(2)]] assms(3,7) q obtain p k where
    u: "conts v u = conts v s" "v_key v (w_net u) k = Some (P, agreeName l)" "q = Inr (p, k, P)"
    by (cases q) (auto simp: win_Agree_def bindS_def split: if_splits)
  from assms(7) q u(3) obtain hp u1 hs u2 t2 where
    1: "handle_call ''NCryptImportKey(peer)'' (nc_import e p (utf16 blobECCPublic) (peer_blob (eph_pub wc x))) u = (Inr hp, u1)"
      "handle_call ''NCryptSecretAgreement'' (nc_agreement e k hp) u1 = (Inr hs, u2)" "derive_secret e hs u2 = (Inr z, t2)"
    by (auto simp: win_Agree_def bindS_def result_simps dest!: deferS_Inr split: if_splits prod.splits sum.splits)
  from derive_secret_Inr [OF 1(3)] obtain w where w: "nc_derive e hs (utf16 bcryptKDFRawSecret) 32 (w_net u2) = ((0, 32, w), w_net t2)"
    "z = rev (filled 32 w)" by blast
  from u(1) assms(4) have "v_cont v (w_net u) (P, agreeName l) = Some b" by (simp add: conts_def)
  from assms(1) [unfolded cng_agrees_def, rule_format, OF u(2) this assms(5,6) handle_call_Inr [OF 1(1)] handle_call_Inr [OF 1(2)] w(1)] w(2)
  show ?thesis by simp
qed

end

end
