(* ===== verification/Windows.thy ===== *)
theory Windows
  imports WinStore
begin

text \<open>
  A small CNG that fulfils the laws of \<open>WinStore\<close>, and the properties of the Windows keystore: it refines the abstract store; the key server never
  starts after its \<open>init\<close>; what is wrapped to a reported point opens.
\<close>

section \<open>A CNG\<close>

text \<open>A small CNG with the TPM provider only, whose keys all have one point. It fulfils the laws.\<close>

record cng_state =
  ts_cont :: "string \<times> string \<Rightarrow> bytes option"
  ts_prov :: "nat \<Rightarrow> string option"
  ts_key :: "nat \<Rightarrow> (string \<times> string) option"
  ts_new :: "nat \<Rightarrow> (string \<times> string \<times> string option) option"
  ts_next :: nat

definition toy_blob :: "string \<Rightarrow> bytes" where
  "toy_blob a = putLE32 (if a = algECDHP256 then bcryptECDHPublicP256Magic else bcryptECDSAPublicP256Magic) @ putLE32 32 @
     be_fixed 32 0 @ be_fixed 32 toy_y"

definition next_handle :: "cng_state \<Rightarrow> cng_state" where
  "next_handle n = n\<lparr>ts_next := Suc (ts_next n)\<rparr>"

definition toy_cng :: "cng_state win_env" where
  "toy_cng = \<lparr>
     nc_open_provider = (\<lambda>x n. if x = Some msPlatformProvider
       then ((0, ts_next n), next_handle (n\<lparr>ts_prov := (ts_prov n)(ts_next n := x)\<rparr>)) else ((0x80090030, 0), n)),
     nc_create = (\<lambda>p a x n. case (ts_prov n p, a) of
         (Some P, Some a) \<Rightarrow> ((0, ts_next n), next_handle (n\<lparr>ts_new := (ts_new n)(ts_next n \<mapsto> (P, a, x))\<rparr>))
       | _ \<Rightarrow> ((0x80090026, 0), n)),
     nc_open_key = (\<lambda>p x n. case (ts_prov n p, x) of
         (Some P, Some y) \<Rightarrow> if ts_cont n (P, y) \<noteq> None
           then ((0, ts_next n), next_handle (n\<lparr>ts_key := (ts_key n)(ts_next n \<mapsto> (P, y))\<rparr>)) else ((0x80090016, 0), n)
       | _ \<Rightarrow> ((0x80090027, 0), n)),
     nc_set_property = (\<lambda>k x pol n. (0, n)),
     nc_finalize = (\<lambda>k n. case ts_new n k of
         Some (P, a, Some y) \<Rightarrow> (0, n\<lparr>ts_cont := (ts_cont n)((P, y) \<mapsto> toy_blob a), ts_key := (ts_key n)(k \<mapsto> (P, y))\<rparr>)
       | _ \<Rightarrow> (0x80090026, n)),
     nc_export = (\<lambda>k ty sz n. case ts_key n k of None \<Rightarrow> ((0x80090026, 0, []), n)
       | Some c \<Rightarrow> (case ts_cont n c of None \<Rightarrow> ((0x80090011, 0, []), n)
           | Some b \<Rightarrow> (case sz of None \<Rightarrow> ((0, word_of_nat (length b), []), n)
               | Some m \<Rightarrow> if length b \<le> unat m then ((0, word_of_nat (length b), b), n) else ((0x80090027, 0, []), n)))),
     nc_import = (\<lambda>p ty b n. ((0, 1), n)),
     nc_agreement = (\<lambda>k k' n. ((0, 1), n)),
     nc_derive = (\<lambda>k ty m n. ((0, 32, [7]), n)),
     nc_sign = (\<lambda>k d sz n. ((0, 64, case sz of None \<Rightarrow> [] | Some _ \<Rightarrow> d @ d), n)),
     nc_delete = (\<lambda>k n. case ts_key n k of None \<Rightarrow> (0x80090026, n) | Some c \<Rightarrow> (0, n\<lparr>ts_cont := (ts_cont n)(c := None)\<rparr>)),
     nc_free = (\<lambda>k n. n),
     wn_sha = (\<lambda>b. take 32 (b @ replicate 32 0)), wn_line = (\<lambda>_. Some (''ec G'' @ [nl]))\<rparr>"

definition toy_view :: "cng_state cng_view" where
  "toy_view = \<lparr>v_cont = ts_cont, v_prov = ts_prov, v_key = ts_key, v_new = ts_new\<rparr>"

lemma LE32_round_trip: "getLE32 (putLE32 x @ b) = x"
  using get_put [of x "[]"] by (simp add: getLE32_def putLE32_def putUint32_def)

lemma toy_cng_laws: "cng_library toy_cng toy_view (\<lambda>P. P = msPlatformProvider)"
  by unfold_locales
    (auto simp: toy_cng_def toy_view_def next_handle_def toy_blob_def LE32_round_trip simp del: be_fixed.simps
       split: if_splits option.splits)

interpretation toy_cng: cng_library toy_cng toy_view "\<lambda>P. P = msPlatformProvider"
  by (rule toy_cng_laws)

definition win_world :: "cng_state world" where
  "win_world = \<lparr>w_files = [''/cfg'' \<mapsto> \<lparr>fl_data = ''{}'', fl_mode = mode600\<rparr>], w_faults = [], w_stdin = [], w_out = [], w_rand = (\<lambda>_. 7), w_pos = 0,
     w_cache = Map.empty, w_now = timeUnix 1000,
     w_net = \<lparr>ts_cont = Map.empty, ts_prov = Map.empty, ts_key = Map.empty, ts_new = Map.empty, ts_next = 1\<rparr>\<rparr>"

lemma toy_blob_length: "length (toy_blob a) = 72"
  by (simp add: toy_blob_def putLE32_def putUint32_def)

lemma toy_blob_line: "eccBlobToSSH toy_cng (toy_blob algECDSAP256) l = Inr (''ec G'' @ (if l \<noteq> [] then '' '' @ l else []))"
proof -
  have m: "getLE32 (toy_blob algECDSAP256) = bcryptECDSAPublicP256Magic" by (simp add: toy_blob_def LE32_round_trip del: be_fixed.simps)
  have "drop 4 (toy_blob a) = putLE32 32 @ be_fixed 32 0 @ be_fixed 32 toy_y" for a
    by (simp add: toy_blob_def putLE32_def putUint32_def del: be_fixed.simps)
  with m have h: "ecc_header bcryptECDSAPublicP256Magic (toy_blob algECDSAP256) = Inr 32"
    by (simp add: ecc_header_def toy_blob_length LE32_round_trip del: be_fixed.simps)
  have x: "slice32 (toy_blob algECDSAP256) 8 40 = Inr (be_fixed 32 0)"
    "slice32 (toy_blob algECDSAP256) 40 72 = Inr (be_fixed 32 toy_y)"
    by (simp_all add: slice32_def toy_blob_length)
       (simp_all add: toy_blob_def putLE32_def putUint32_def del: be_fixed.simps)
  have "ec_line toy_cng 0 toy_y = Inr (''ec G'' @ [nl])"
    by (simp add: ec_line_def toy_on_curve toy_cng_def)
  with h x toy_y_bound(2) show ?thesis by (simp add: eccBlobToSSH_def del: be_fixed.simps)
qed

lemma toy_blob_sec1: "sec1_of_blob (toy_blob algECDHP256) = Inr (4 # be_fixed 32 0 @ be_fixed 32 toy_y)"
proof -
  have m: "getLE32 (toy_blob algECDHP256) = bcryptECDHPublicP256Magic" by (simp add: toy_blob_def LE32_round_trip del: be_fixed.simps)
  have "drop 4 (toy_blob a) = putLE32 32 @ be_fixed 32 0 @ be_fixed 32 toy_y" for a
    by (simp add: toy_blob_def putLE32_def putUint32_def del: be_fixed.simps)
  with m have h: "ecc_header bcryptECDHPublicP256Magic (toy_blob algECDHP256) = Inr 32"
    by (simp add: ecc_header_def toy_blob_length LE32_round_trip del: be_fixed.simps)
  have x: "slice32 (toy_blob algECDHP256) 8 72 = Inr (be_fixed 32 0 @ be_fixed 32 toy_y)"
    by (simp add: slice32_def toy_blob_length)
       (simp add: toy_blob_def putLE32_def putUint32_def del: be_fixed.simps)
  with h show ?thesis by (simp add: sec1_of_blob_def del: be_fixed.simps)
qed

lemma toy_free [simp]: "freeObject toy_cng k s = (Inr (), s)"
  by (simp add: freeObject_def on_net_unit_def on_net_def toy_cng_def)

lemma toy_defer [simp]: "deferS (freeObject toy_cng k) m = m"
  by (simp add: fun_eq_iff deferS_def split: prod.split)

definition toy_opened :: "cng_state world \<Rightarrow> cng_state world" where
  "toy_opened s = s\<lparr>w_net := next_handle ((w_net s)\<lparr>ts_prov := (ts_prov (w_net s))(ts_next (w_net s) \<mapsto> msPlatformProvider)\<rparr>)\<rparr>"

lemma toy_openProvider: "openProvider toy_cng s = (Inr (ts_next (w_net s), msPlatformProvider), toy_opened s)"
  by (simp add: openProvider_def openProviderByName_def handle_call_def on_net_def bindS_def tryS_def toy_cng_def toy_opened_def)

lemma toy_new_key:
  assumes "ts_prov (w_net s) p = Some P"
  shows "handle_call opc (nc_create toy_cng p (Some a) (Some x)) s = (Inr (ts_next (w_net s)),
    s\<lparr>w_net := next_handle ((w_net s)\<lparr>ts_new := (ts_new (w_net s))(ts_next (w_net s) \<mapsto> (P, a, Some x))\<rparr>)\<rparr>)"
  using assms by (simp add: handle_call_def on_net_def bindS_def toy_cng_def)

lemma toy_set [simp]: "setProperty toy_cng k x pol s = (Inr (), s)"
  by (simp add: setProperty_def status_call_def on_net_def bindS_def toy_cng_def)

lemma toy_finish:
  assumes "ts_new (w_net s) k = Some (P, a, Some x)"
  shows "status_call opf (nc_finalize toy_cng k) s = (Inr (),
    s\<lparr>w_net := (w_net s)\<lparr>ts_cont := (ts_cont (w_net s))((P, x) \<mapsto> toy_blob a), ts_key := (ts_key (w_net s))(k \<mapsto> (P, x))\<rparr>\<rparr>)"
  using assms by (simp add: status_call_def on_net_def bindS_def toy_cng_def)

lemma toy_persist:
  assumes "utf16 x = Some x" "utf16 a = Some a"
  shows "\<exists>k u. persist_key toy_cng opc opf a x pol act s = act k u \<and> ts_key (w_net u) k = Some (msPlatformProvider, x) \<and>
    ts_cont (w_net u) = (ts_cont (w_net s))((msPlatformProvider, x) \<mapsto> toy_blob a)"
  by (simp add: persist_key_def bindS_def wrapS_def toy_openProvider assms)
    (simp add: toy_opened_def next_handle_def toy_new_key toy_finish bindS_def wrapS_def, intro exI conjI, rule refl, simp_all)

lemma toy_export:
  assumes "ts_key (w_net s) k = Some c" "ts_cont (w_net s) c = Some (toy_blob a)"
  shows "sized_call pr op (nc_export toy_cng k ty) s = (Inr (toy_blob a), s)"
  using assms by (simp add: sized_call_def bindS_def on_net_def toy_cng_def toy_blob_length filled_def)

lemma toy_cng_create:
  assumes "nul_free l" "ts_cont (w_net s) (msPlatformProvider, keyName l) = None" "l \<noteq> []"
  shows "\<exists>t. win_Create toy_cng l s = (Inr (''ec G '' @ l), t) \<and>
    ts_cont (w_net t) = (ts_cont (w_net s))((msPlatformProvider, keyName l) \<mapsto> toy_blob algECDSAP256)"
proof -
  obtain q u where q: "refuse_existing toy_cng (keyName l) s = (q, u)" by (metis prod.exhaust)
  from toy_cng.refuse_result [OF q] assms have rr: "ts_cont (w_net u) = ts_cont (w_net s)" "q = Inr ()"
    by (simp_all add: conts_def toy_view_def holder_def)
  from toy_persist [OF utf16_keys(1) [OF assms(1)] utf16_names(3), of "''NCryptCreatePersistedKey''" "''NCryptFinalizeKey''"
      "hello_policy ''p3sig SSH key'' (''p3sig SSH key ('' @ l @ '')'') ''Authorize an SSH login with your p3sig chip key''"
      "\<lambda>hKey. exportPub toy_cng hKey l" u]
  obtain k w where k: "win_Create toy_cng l s = exportPub toy_cng k l w" "ts_key (w_net w) k = Some (msPlatformProvider, keyName l)"
    "ts_cont (w_net w) = (ts_cont (w_net u))((msPlatformProvider, keyName l) \<mapsto> toy_blob algECDSAP256)"
    using q rr(2) by (auto simp: win_Create_def bindS_def)
  with toy_export [OF k(2), of algECDSAP256] rr(1) toy_blob_line [of l] assms(3) show ?thesis by (simp add: exportPub_def bindS_def)
qed

lemma toy_agreement:
  assumes "nul_free l" "ts_cont (w_net s) (msPlatformProvider, agreeName l) = None"
  shows "\<exists>t. win_CreateAgreementKey toy_cng l s = (Inr (4 # be_fixed 32 0 @ be_fixed 32 toy_y), t)"
proof -
  obtain q u where q: "refuse_existing toy_cng (agreeName l) s = (q, u)" by (metis prod.exhaust)
  from toy_cng.refuse_result [OF q] assms have rr: "ts_cont (w_net u) = ts_cont (w_net s)" "q = Inr ()"
    by (simp_all add: conts_def toy_view_def holder_def)
  from toy_persist [OF utf16_keys(2) [OF assms(1)] utf16_names(4), of "''NCryptCreatePersistedKey(ECDH)''" "''NCryptFinalizeKey(ECDH)''"
      "hello_policy ''p3sig device key'' (''p3sig device-unlock key ('' @ l @ '')'') ''Authorize unlocking your p3sig vault key with your chip''"
      "exportPubSEC1 toy_cng" u]
  obtain k w where k: "win_CreateAgreementKey toy_cng l s = exportPubSEC1 toy_cng k w" "ts_key (w_net w) k = Some (msPlatformProvider, agreeName l)"
    "ts_cont (w_net w) = (ts_cont (w_net u))((msPlatformProvider, agreeName l) \<mapsto> toy_blob algECDHP256)"
    using q rr(2) by (auto simp: win_CreateAgreementKey_def bindS_def)
  with toy_export [OF k(2), of algECDHP256] rr(1) toy_blob_sec1 show ?thesis by (simp add: exportPubSEC1_def bindS_def del: be_fixed.simps)
qed

lemma toy_existing:
  assumes "ts_cont (w_net s) (msPlatformProvider, x) \<noteq> None" "utf16 x = Some x"
  shows "\<exists>p k t. openExistingKeyByName toy_cng x s = (Inr (p, k, msPlatformProvider), t)"
  using assms
  by (auto simp: openExistingKeyByName_def openProviderByName_def openKeyHandle_def handle_call_def on_net_def bindS_def tryS_def
    toy_cng_def next_handle_def)

section \<open>Properties\<close>

text \<open>C25. The Windows keystore refines the same abstract store, for labels without a NUL and as long as no container is in both providers,
  which every call keeps: creating succeeds for a free label only and adds the key it returns, deleting frees the label,
  and the key for agreements, which has a container of its own, changes no key of the store.\<close>

theorem windows_refines_store:
  assumes "cng_library e v avail" "win_invar v avail s" "nul_free (call_label c)" "run_call (winHello e) c s = (r, t)"
  shows "store_step (win_keys e v avail s) c r (win_keys e v avail t) \<and> win_invar v avail t"
  by (rule cng_library.windows_simulates [OF assms])

lemma win_world_invar: "win_invar toy_view (\<lambda>P. P = msPlatformProvider) win_world"
  by (simp add: win_invar_def conts_def toy_view_def win_world_def)

theorem windows_refines_store_witness:
  "\<exists>t. run_call (winHello toy_cng) (CCreate ''web'') win_world = (Inr (RLine ''ec G web''), t) \<and>
     store_step (win_keys toy_cng toy_view (\<lambda>P. P = msPlatformProvider) win_world) (CCreate ''web'') (Inr (RLine ''ec G web''))
       (win_keys toy_cng toy_view (\<lambda>P. P = msPlatformProvider) t)"
proof -
  have l: "nul_free ''web''" by (simp add: nul_free_def)
  from toy_cng_create [OF l, of win_world] obtain t where "win_Create toy_cng ''web'' win_world = (Inr ''ec G web'', t)"
    by (auto simp: win_world_def)
  then have "run_call (winHello toy_cng) (CCreate ''web'') win_world = (Inr (RLine ''ec G web''), t)"
    by (simp add: winHello_def bindS_def)
  with windows_refines_store [OF toy_cng_laws win_world_invar _ this] l show ?thesis by simp
qed

text \<open>C26. After \<open>keyserver init\<close> has succeeded on Windows, and as long as its keys stay, \<open>keyserver serve\<close> never starts for that label: it
  asks for the agreement key again, and the Windows keystore refuses to make the one that exists. A second \<open>init\<close> fails as well.\<close>

theorem windows_serve_refused:
  assumes "cng_library e v avail" "nul_free (init_label f)" "cmdKeyserverInit (openKeystore_windows e) f s = (Inr (), t)"
    and "conts v u = conts v t" "ksConfigPath h g = Inr path" "read_ks_config h path u = (Inr cfg, w)" "c_Label cfg = init_label f"
  shows "fst (cmdKeyserverServe h (openKeystore_windows e) g u) = Inl (Ctx ''chip key'' (Msg ''already exists; remove it first'')) \<and>
    fst (win_CreateAgreementKey e (init_label f) u) = Inl (Msg ''already exists; remove it first'')"
proof -
  from cng_library.init_stores_agreement [OF assms(1-3)] assms(4)
  have held: "holder avail (conts v u) (agreeName (init_label f)) \<noteq> None" by simp
  moreover have "conts v w = conts v u" using read_ks_config_net [OF assms(6)] by (simp add: conts_def)
  ultimately have "fst (win_CreateAgreementKey e (init_label f) w) = Inl (Msg ''already exists; remove it first'')"
    using cng_library.agreement_refused [OF assms(1,2)] by simp
  moreover obtain r w' where "win_CreateAgreementKey e (init_label f) w = (r, w')" by (metis prod.exhaust)
  ultimately show ?thesis
    using assms(5-7) cng_library.agreement_refused [OF assms(1,2) held]
    by (simp add: cmdKeyserverServe_def openKeystore_windows_def winHello_def bindS_def wrapS_def)
qed

definition no_tpm :: "cng_state tpm" where
  "no_tpm = \<lparr>t_open = (\<lambda>_ n. (False, n)), t_close = (\<lambda>n. n), t_primary = (\<lambda>n. (None, n)), t_flush = (\<lambda>_ n. n), t_create = (\<lambda>_ _ n. (None, n)),
     t_load = (\<lambda>_ _ _ n. (None, n)), t_sign = (\<lambda>_ _ n. (None, n)), t_zgen = (\<lambda>_ _ n. (None, n)), t_contents = (\<lambda>_. None),
     t_marshal_pub = (\<lambda>b. b), t_unmarshal_pub = Some, t_marshal_priv = (\<lambda>b. b), t_unmarshal_priv = Some\<rparr>"

definition win_ks_host :: "(string, bytes, cng_state) ks_host" where
  "win_ks_host = \<lparr>h_env = Map.empty, h_config_dir = Some ''/c'', h_home = ''/h'', h_sign = (\<lambda>k m. take 32 k @ m), h_public = (\<lambda>s. s),
     h_http = (\<lambda>n u f. (None, n)), h_response = (\<lambda>_. None), h_wrap = example_crypto, h_card = example_card, h_policy = sample_env,
     dec_config = (\<lambda>_. (False, empty_config)), enc_config = (\<lambda>_. []), h_goos = ''linux'', h_read_dir = (\<lambda>_. Some []), h_symlink = (\<lambda>_. []),
     h_key_line = (\<lambda>b. ''k''), h_key_fp = (\<lambda>b. ''SHA256:k''), h_raw_key = (\<lambda>_. None), h_tpm = no_tpm, h_ec_line = (\<lambda>_. Some ''ec G''),
     h_authorized_key = (\<lambda>l. Some (''ec'', [7])), h_mpints = (\<lambda>_. [9]), h_ks = ex_env, dec_ks_config = (\<lambda>_. Some toy_ks_config),
     app_order = (\<lambda>_. []), dec_ks_event = (\<lambda>_. None), why_order = (\<lambda>_ _. []), dec_values = (\<lambda>_. True), enc_ks_bundle = (\<lambda>_. []),
     h_p256_pub = (\<lambda>_. True), h_xseal = (\<lambda>_ _ v _. v)\<rparr>"

lemma toy_init:
  "\<exists>t. cmdKeyserverInit (openKeystore_windows toy_cng) [''label'' \<mapsto> ''web''] win_world = (Inr (), t) \<and>
     w_files t = w_files win_world \<and> w_faults t = []"
proof -
  let ?TPM = msPlatformProvider
  have l: "nul_free ''web''" by (simp add: nul_free_def)
  have files: "w_files (snd (m s)) = w_files s" "w_faults (snd (m s)) = w_faults s" if "net_only m" for m and s :: "cng_state world"
    using that unfolding net_only_def net_same_def by (metis world.select_convs world.update_convs(9) world.surjective)+
  obtain p u where p: "win_PublicKey toy_cng ''web'' win_world = (p, u)" by (metis prod.exhaust)
  from toy_cng.win_public_result [OF p l] have "ts_cont (w_net u) = Map.empty" "\<exists>x. p = Inl x"
    by (cases p; simp add: conts_def toy_view_def win_keys_def holder_def win_world_def)+
  moreover from toy_cng_create [OF l, of u] calculation obtain t where t: "win_Create toy_cng ''web'' u = (Inr ''ec G web'', t)"
    "ts_cont (w_net t) = [(?TPM, keyName ''web'') \<mapsto> toy_blob algECDSAP256]" by auto
  moreover have "agreeName ''web'' \<noteq> keyName ''web''" by (simp add: agreeName_def)
  ultimately obtain q where q: "win_CreateAgreementKey toy_cng ''web'' t = (Inr (4 # be_fixed 32 0 @ be_fixed 32 toy_y), q)"
    using toy_agreement [OF l, of t] by auto
  from files [OF win_net_only(2), of toy_cng "''web''" win_world] files [OF win_net_only(1), of toy_cng "''web''" u]
    files [OF win_net_only(4), of toy_cng "''web''" t] p t q
  have "w_files q = w_files win_world" "w_faults q = []" by (simp_all add: win_world_def)
  with p t(1) q \<open>\<exists>x. p = Inl x\<close> show ?thesis
    by (auto simp: cmdKeyserverInit_def openKeystore_windows_def winHello_def flag_def bindS_def tryS_def println_def print_text_def Let_def
      simp del: be_fixed.simps b64_encode.simps)
qed

theorem windows_serve_refused_witness:
  "\<exists>t. cmdKeyserverInit (openKeystore_windows toy_cng) [''label'' \<mapsto> ''web''] win_world = (Inr (), t) \<and>
     fst (cmdKeyserverServe win_ks_host (openKeystore_windows toy_cng) [''config'' \<mapsto> ''/cfg''] t)
       = Inl (Ctx ''chip key'' (Msg ''already exists; remove it first''))"
proof -
  obtain t where t: "cmdKeyserverInit (openKeystore_windows toy_cng) [''label'' \<mapsto> ''web''] win_world = (Inr (), t)"
    "w_files t = w_files win_world" "w_faults t = []" using toy_init by blast
  have l: "init_label [''label'' \<mapsto> ''web''] = ''web''" by (simp add: init_label_def flag_def)
  have "read_ks_config win_ks_host ''/cfg'' t = (Inr toy_ks_config, t)"
    by (simp add: read_ks_config_def bindS_def readFile_def with_fault_def t win_world_def win_ks_host_def loadKSConfig_def toy_ks_config_def)
  moreover have "ksConfigPath win_ks_host [''config'' \<mapsto> ''/cfg''] = Inr ''/cfg''" by (simp add: ksConfigPath_def flag_def)
  ultimately show ?thesis
    using windows_serve_refused [OF toy_cng_laws _ t(1) refl, of win_ks_host "[''config'' \<mapsto> ''/cfg'']" "''/cfg''" toy_ks_config t] t(1)
    by (simp add: l nul_free_def toy_ks_config_def)
qed

text \<open>C28. What is wrapped to the point that the Windows keystore reported for a label opens with its agreement, although CNG hands the agreed
  number over with its lowest byte first: as long as the keys stay, an agreement that returns leads to the secret, never to another.\<close>

theorem windows_opens_wrap:
  assumes "cng_library e v avail" "cng_agrees e v wc" "gcm_correct wc" "point_length wc" "length nonce = 12" "nul_free l"
    and "win_CreateAgreementKey e l s = (Inr point, t)" "conts v u = conts v t" "win_Agree e l (eph_pub wc x) u = (Inr z, u')"
    and "wrapECDHWith wc secret point x nonce = Inr blob"
  shows "UnwrapECDH wc blob (win_agree e u l) = Inr secret"
proof -
  from assms(10) obtain z' where z': "ecdh wc x point = Some z'" by (auto simp: wrapECDHWith_def result_simps)
  from cng_library.agreement_stored [OF assms(1,6,7)] assms(8) obtain P b where
    "holder avail (conts v u) (agreeName l) = Some P" "conts v u (P, agreeName l) = Some b" "sec1_of_blob b = Inr point" by metis
  from cng_library.win_agree_value [OF assms(1,2,6) this z' assms(9)] have "length z' = 32" "z = z'" by auto
  with unwrap_wrap_ecdh(1) [OF assms(3-5) z' _ _ assms(10)] assms(9) show ?thesis by (simp add: win_agree_def)
qed

definition win_crypto :: wrap_crypto where
  "win_crypto = example_crypto\<lparr>eph_pub := (\<lambda>_. 4 # be_fixed 32 0 @ be_fixed 32 toy_y), ecdh := (\<lambda>_ _. Some (rev (filled 32 [7])))\<rparr>"

lemma win_crypto_laws: "gcm_correct win_crypto" "point_length win_crypto" "cng_agrees toy_cng toy_view win_crypto"
proof -
  show "gcm_correct win_crypto" using example_crypto_laws(1) by (simp add: gcm_correct_def win_crypto_def)
  show "point_length win_crypto" by (simp add: point_length_def win_crypto_def del: be_fixed.simps)
  show "cng_agrees toy_cng toy_view win_crypto"
    by (auto simp: cng_agrees_def win_crypto_def toy_cng_def filled_def del: be_fixed.simps)
qed

lemma toy_win_agree:
  assumes "ts_cont (w_net s) (msPlatformProvider, agreeName l) \<noteq> None" "nul_free l"
  shows "\<exists>t. win_Agree toy_cng l (eph_pub win_crypto []) s = (Inr (rev (filled 32 [7])), t)"
proof -
  obtain p k t where t: "openExistingKeyByName toy_cng (agreeName l) s = (Inr (p, k, msPlatformProvider), t)"
    using toy_existing [OF assms(1) utf16_keys(2) [OF assms(2)]] by blast
  have calls: "nc_import toy_cng q ty b n = ((0, 1), n)" "nc_agreement toy_cng j j' n = ((0, 1), n)"
    "nc_derive toy_cng j ty m n = ((0, 32, [7]), n)" for q ty b n j j' m by (simp_all add: toy_cng_def)
  have peer: "length (eph_pub win_crypto []) = ecdhPubLen" "eph_pub win_crypto [] ! 0 = 4"
    by (simp_all add: win_crypto_def ecdhPubLen_def del: be_fixed.simps)
  show ?thesis
    by (simp add: win_Agree_def peer bindS_def t handle_call_def derive_secret_def on_net_def calls)
qed

theorem windows_opens_wrap_witness:
  "\<exists>t blob. win_CreateAgreementKey toy_cng ''web'' win_world = (Inr (4 # be_fixed 32 0 @ be_fixed 32 toy_y), t) \<and>
     wrapECDHWith win_crypto [1, 2, 3] (4 # be_fixed 32 0 @ be_fixed 32 toy_y) [] (replicate 12 6) = Inr blob \<and>
     UnwrapECDH win_crypto blob (win_agree toy_cng t ''web'') = Inr [1, 2, 3]"
proof -
  have l: "nul_free ''web''" by (simp add: nul_free_def)
  from toy_agreement [OF l, of win_world] obtain t where
    t: "win_CreateAgreementKey toy_cng ''web'' win_world = (Inr (4 # be_fixed 32 0 @ be_fixed 32 toy_y), t)"
    by (auto simp: win_world_def simp del: be_fixed.simps)
  from toy_cng.agreement_stored [OF l t] have "ts_cont (w_net t) (msPlatformProvider, agreeName ''web'') \<noteq> None"
    by (auto simp: holder_def conts_def toy_view_def split: if_splits)
  from toy_win_agree [OF this l] obtain u where u: "win_Agree toy_cng ''web'' (eph_pub win_crypto []) t = (Inr (rev (filled 32 [7])), u)"
    by blast
  obtain blob where b: "wrapECDHWith win_crypto [1, 2, 3] (4 # be_fixed 32 0 @ be_fixed 32 toy_y) [] (replicate 12 6) = Inr blob"
    by (simp add: wrapECDHWith_def win_crypto_def Let_def del: be_fixed.simps)
  from windows_opens_wrap [OF toy_cng_laws win_crypto_laws(3,1,2) _ l t refl u b] b t show ?thesis by simp
qed

end
