(* ===== verification/Enclave.thy ===== *)
theory Enclave
  imports KsCli
begin

text \<open>
  The macOS keystore (\<open>keystore_darwin.go\<close>): its C functions over the Security framework, with the buffers they fill, and the Go operations
  over them. The framework is a parameter. Shown: no function writes beyond the buffer it was given and no operation panics; a point the
  keystore returns has 65 bytes; the key for agreements is the key for signatures; what is wrapped to its point opens.
\<close>

section \<open>The Security framework\<close>

text \<open>
  Keys are references. A null result is \<open>None\<close>. A query names the tag, the access group and the prompt, each left out when not set.
\<close>

record sec_query =
  sq_Tag :: string
  sq_Group :: "string option"
  sq_Prompt :: "string option"

record 'n sec_framework =
  sf_access_control :: "'n \<Rightarrow> bool \<times> 'n"
  sf_create_key :: "sec_query \<Rightarrow> 'n \<Rightarrow> nat option \<times> 'n"
  sf_copy_matching :: "sec_query \<Rightarrow> 'n \<Rightarrow> nat option \<times> 'n"
  sf_public_key :: "nat \<Rightarrow> 'n \<Rightarrow> nat option \<times> 'n"
  sf_external :: "nat \<Rightarrow> 'n \<Rightarrow> bytes option \<times> 'n"
  sf_signature :: "nat \<Rightarrow> bytes \<Rightarrow> 'n \<Rightarrow> bytes option \<times> 'n"
  sf_supports_exchange :: "nat \<Rightarrow> 'n \<Rightarrow> bool \<times> 'n"
  sf_key_with_data :: "bytes \<Rightarrow> 'n \<Rightarrow> nat option \<times> 'n"
  sf_exchange :: "nat \<Rightarrow> nat \<Rightarrow> 'n \<Rightarrow> bytes option \<times> 'n"
  sf_delete :: "sec_query \<Rightarrow> 'n \<Rightarrow> int \<times> 'n"

text \<open>With the environment and the authorized-keys line of a P-256 point.\<close>

record 'n mac_env = "'n sec_framework" +
  me_env :: "string \<Rightarrow> string option"
  me_line :: "bytes \<Rightarrow> string option"

section \<open>The C functions\<close>

text \<open>The code \<open>0\<close> and the bytes written, or another code. A C string ends at its first NUL.\<close>

type_synonym c_result = "int + bytes"

definition c_string :: "string \<Rightarrow> string" where
  "c_string s = takeWhile (\<lambda>c. c \<noteq> CHR 0x00) s"

text \<open>\<open>se_set_group\<close> sets a group that is there and not empty.\<close>

definition se_group :: "string option \<Rightarrow> string option" where
  "se_group g = (case g of None \<Rightarrow> None | Some x \<Rightarrow> if x = [] then None else Some x)"

definition se_query :: "string \<Rightarrow> string option \<Rightarrow> string option \<Rightarrow> sec_query" where
  "se_query tag g prompt = \<lparr>sq_Tag = tag, sq_Group = se_group g, sq_Prompt = prompt\<rparr>"

definition se_copy_key :: "'n mac_env \<Rightarrow> string \<Rightarrow> string option \<Rightarrow> string option \<Rightarrow> 'n \<Rightarrow> nat option \<times> 'n" where
  "se_copy_key m tag g prompt = sf_copy_matching m (se_query tag g prompt)"

text \<open>A step that may return null, and the copy of data to a buffer that may be too small.\<close>

definition c_try :: "('n \<Rightarrow> 'a option \<times> 'n) \<Rightarrow> ('a \<Rightarrow> 'n \<Rightarrow> c_result \<times> 'n) \<Rightarrow> 'n \<Rightarrow> c_result \<times> 'n" where
  "c_try f k n = (case f n of (None, n') \<Rightarrow> (Inl (- 1), n') | (Some x, n') \<Rightarrow> k x n')"

definition copy_out :: "nat \<Rightarrow> bytes \<Rightarrow> 'n \<Rightarrow> c_result \<times> 'n" where
  "copy_out cap d n = (if cap < length d then (Inl (- 1), n) else (Inr d, n))"

definition se_export_pub :: "'n mac_env \<Rightarrow> nat \<Rightarrow> nat \<Rightarrow> 'n \<Rightarrow> c_result \<times> 'n" where
  "se_export_pub m priv cap = c_try (sf_public_key m priv) (\<lambda>pub. c_try (sf_external m pub) (copy_out cap))"

definition se_create :: "'n mac_env \<Rightarrow> string \<Rightarrow> string option \<Rightarrow> nat \<Rightarrow> 'n \<Rightarrow> c_result \<times> 'n" where
  "se_create m tag g cap n =
     (case sf_access_control m n of (ok, n1) \<Rightarrow>
        if \<not> ok then (Inl (- 1), n1)
        else c_try (sf_create_key m (se_query tag g None)) (\<lambda>priv. se_export_pub m priv cap) n1)"

definition se_pubkey :: "'n mac_env \<Rightarrow> string \<Rightarrow> string option \<Rightarrow> nat \<Rightarrow> 'n \<Rightarrow> c_result \<times> 'n" where
  "se_pubkey m tag g cap = c_try (se_copy_key m tag g None) (\<lambda>priv. se_export_pub m priv cap)"

definition se_sign :: "'n mac_env \<Rightarrow> string \<Rightarrow> string option \<Rightarrow> bytes \<Rightarrow> nat \<Rightarrow> 'n \<Rightarrow> c_result \<times> 'n" where
  "se_sign m tag g data cap =
     c_try (se_copy_key m tag g (Some ''Authenticate SSH login'')) (\<lambda>priv. c_try (sf_signature m priv data) (copy_out cap))"

definition se_agree :: "'n mac_env \<Rightarrow> string \<Rightarrow> string option \<Rightarrow> bytes \<Rightarrow> nat \<Rightarrow> 'n \<Rightarrow> c_result \<times> 'n" where
  "se_agree m tag g peer cap =
     c_try (se_copy_key m tag g (Some ''Unlock the p3sig vault'')) (\<lambda>priv n.
       case sf_supports_exchange m priv n of (ok, n1) \<Rightarrow>
         if \<not> ok then (Inl (- 2), n1)
         else c_try (sf_key_with_data m peer) (\<lambda>pub. c_try (sf_exchange m priv pub) (copy_out cap)) n1)"

definition errSecSuccess :: int where "errSecSuccess = 0"
definition errSecItemNotFound :: int where "errSecItemNotFound = - 25300"

definition se_delete :: "'n mac_env \<Rightarrow> string \<Rightarrow> string option \<Rightarrow> 'n \<Rightarrow> c_result \<times> 'n" where
  "se_delete m tag g n =
     (case sf_delete m (se_query tag g None) n of (st, n1) \<Rightarrow>
        if st \<noteq> errSecSuccess \<and> st \<noteq> errSecItemNotFound then (Inl (- 1), n1) else (Inr [], n1))"

section \<open>The operations\<close>

definition appTag :: "string \<Rightarrow> string" where
  "appTag label = ''com.p3sig.'' @ label"

definition accessGroup :: "'n mac_env \<Rightarrow> string option" where
  "accessGroup m =
     (case me_env m ''P3SIG_KEYCHAIN_GROUP'' of None \<Rightarrow> None | Some g \<Rightarrow> if g = [] then None else Some (c_string g))"

text \<open>\<open>out[:outLen]\<close> after a call with a buffer of \<open>cap\<close> bytes\<close>

definition c_call :: "string \<Rightarrow> nat \<Rightarrow> ('n \<Rightarrow> c_result \<times> 'n) \<Rightarrow> ('n, bytes) io" where
  "c_call what cap f =
     bindS (on_net f) (\<lambda>r. case r of
         Inl rc \<Rightarrow> failS (Msg what)
       | Inr w \<Rightarrow> if cap < length w then failS (Msg ''panic: slice bounds out of range'') else retS w)"

definition mac_ec_line :: "'n mac_env \<Rightarrow> bytes \<Rightarrow> err + string" where
  "mac_ec_line m raw =
     (if on_p256 (set_bytes (take 32 (drop 1 raw))) (set_bytes (drop 33 raw)) then optE (Msg ''public key'') (me_line m raw)
      else Inl (Msg ''panic: crypto/elliptic: attempted operation on invalid point''))"

definition x963ToSSHLine :: "'n mac_env \<Rightarrow> bytes \<Rightarrow> string \<Rightarrow> err + string" where
  "x963ToSSHLine m raw label =
     (if length raw \<noteq> 65 \<or> raw ! 0 \<noteq> 4 then Inl (Msg ''unexpected Secure Enclave public key'')
      else bindE (mac_ec_line m raw) (\<lambda>line. Inr (trim_space line @ '' '' @ label)))"

definition se_Create :: "'n mac_env \<Rightarrow> string \<Rightarrow> ('n, string) io" where
  "se_Create m label =
     bindS (c_call ''secure enclave: create key'' 128 (se_create m (c_string (appTag label)) (accessGroup m) 128)) (\<lambda>raw.
     liftS (x963ToSSHLine m raw label))"

definition se_PublicKey :: "'n mac_env \<Rightarrow> string \<Rightarrow> ('n, string) io" where
  "se_PublicKey m label =
     bindS (c_call ''secure enclave: public key'' 128 (se_pubkey m (c_string (appTag label)) (accessGroup m) 128)) (\<lambda>raw.
     liftS (x963ToSSHLine m raw label))"

definition se_Sign :: "'n mac_env \<Rightarrow> string \<Rightarrow> bytes \<Rightarrow> ('n, bytes) io" where
  "se_Sign m label data =
     c_call ''secure enclave: sign'' 256 (se_sign m (c_string (appTag label)) (accessGroup m) data 256)"

definition se_CreateAgreementKey :: "'n mac_env \<Rightarrow> string \<Rightarrow> ('n, bytes) io" where
  "se_CreateAgreementKey m label =
     bindS (c_call ''secure enclave: agreement key'' 128 (se_pubkey m (c_string (appTag label)) (accessGroup m) 128)) (\<lambda>raw.
     if length raw \<noteq> 65 \<or> raw ! 0 \<noteq> 4 then failS (Msg ''secure enclave: agreement key: unexpected public key'')
     else retS raw)"

definition se_Agree :: "'n mac_env \<Rightarrow> string \<Rightarrow> bytes \<Rightarrow> ('n, bytes) io" where
  "se_Agree m label peer =
     (if length peer \<noteq> 65 \<or> peer ! 0 \<noteq> 4 then failS (Msg ''secure enclave: peer key must be a 65-byte uncompressed SEC1 point'')
      else c_call ''secure enclave: agree'' 32 (se_agree m (c_string (appTag label)) (accessGroup m) peer 32))"

definition se_Delete :: "'n mac_env \<Rightarrow> string \<Rightarrow> ('n, unit) io" where
  "se_Delete m label =
     bindS (c_call ''secure enclave: delete'' 0 (se_delete m (c_string (appTag label)) (accessGroup m))) (\<lambda>_. retS ())"

definition secureEnclave :: "'n mac_env \<Rightarrow> 'n keystore" where
  "secureEnclave m = \<lparr>ks_Create = se_Create m, ks_PublicKey = se_PublicKey m, ks_Sign = se_Sign m,
     ks_CreateAgreementKey = se_CreateAgreementKey m, ks_Agree = se_Agree m, ks_Delete = se_Delete m\<rparr>"

definition openKeystore_darwin :: "'n mac_env \<Rightarrow> ('n, 'n keystore) io" where
  "openKeystore_darwin m = retS (secureEnclave m)"

section \<open>Buffers\<close>

definition c_bounded :: "nat \<Rightarrow> ('n \<Rightarrow> c_result \<times> 'n) \<Rightarrow> bool" where
  "c_bounded cap f \<longleftrightarrow> (\<forall>n w. fst (f n) = Inr w \<longrightarrow> length w \<le> cap)"

lemma c_bounded_copy: "c_bounded cap (copy_out cap d)"
  by (auto simp: c_bounded_def copy_out_def)

lemma c_bounded_try: "(\<And>x. c_bounded cap (k x)) \<Longrightarrow> c_bounded cap (c_try f k)"
  by (auto simp: c_bounded_def c_try_def split: prod.splits option.splits)

lemma c_bounded_check: "(\<And>b. c_bounded cap (k b)) \<Longrightarrow> c_bounded cap (\<lambda>n. case f n of (b, n1) \<Rightarrow> k b n1)"
  by (auto simp: c_bounded_def split: prod.splits)

lemma c_bounded_if: "c_bounded cap f \<Longrightarrow> c_bounded cap (\<lambda>n. if b then (Inl x, n) else f n)"
  by (auto simp: c_bounded_def)

lemmas c_bounded_intros = c_bounded_copy c_bounded_try c_bounded_check c_bounded_if

lemma se_bounded:
  "c_bounded cap (se_export_pub m k cap)" "c_bounded cap (se_create m tag g cap)" "c_bounded cap (se_pubkey m tag g cap)"
  "c_bounded cap (se_sign m tag g d cap)" "c_bounded cap (se_agree m tag g p cap)" "c_bounded cap (se_delete m tag g)"
proof -
  show e: "c_bounded cap (se_export_pub m k cap)" for k
    unfolding se_export_pub_def by (intro c_bounded_intros)
  have "se_create m tag g cap = (\<lambda>n. case sf_access_control m n of (ok, n1) \<Rightarrow>
      (\<lambda>n1. if \<not> ok then (Inl (- 1), n1) else c_try (sf_create_key m (se_query tag g None)) (\<lambda>priv. se_export_pub m priv cap) n1) n1)"
    by (simp add: fun_eq_iff se_create_def)
  then show "c_bounded cap (se_create m tag g cap)" by (simp only:) (intro c_bounded_intros e)
  show "c_bounded cap (se_pubkey m tag g cap)" unfolding se_pubkey_def by (intro c_bounded_intros e)
  show "c_bounded cap (se_sign m tag g d cap)" unfolding se_sign_def by (intro c_bounded_intros)
  show "c_bounded cap (se_agree m tag g p cap)" unfolding se_agree_def by (intro c_bounded_intros)
  show "c_bounded cap (se_delete m tag g)" by (auto simp: c_bounded_def se_delete_def split: prod.splits)
qed

abbreviation slice_panic :: err where
  "slice_panic \<equiv> Msg ''panic: slice bounds out of range''"

lemma c_call_result:
  assumes "c_bounded cap f" "c_call what cap f s = (r, t)"
  shows "(r = Inl (Msg what) \<or> (\<exists>w. r = Inr w \<and> length w \<le> cap))"
proof -
  obtain q n where "f (w_net s) = (q, n)" by (metis prod.exhaust)
  with assms show ?thesis
    by (cases q) (auto simp: c_call_def bindS_def on_net_def c_bounded_def split: if_splits, metis fst_conv linorder_not_less)
qed

text \<open>The point for agreements is the public key for signatures: macOS has one key for both.\<close>

lemma mac_one_key:
  assumes "se_CreateAgreementKey m l s = (Inr point, t)"
  shows "se_PublicKey m l s = (x963ToSSHLine m point l, t)"
proof -
  from assms have "c_call ''secure enclave: agreement key'' 128 (se_pubkey m (c_string (appTag l)) (accessGroup m) 128) s = (Inr point, t)"
    by (auto simp: se_CreateAgreementKey_def result_simps split: if_splits)
  then have "c_call ''secure enclave: public key'' 128 (se_pubkey m (c_string (appTag l)) (accessGroup m) 128) s = (Inr point, t)"
    by (auto simp: c_call_def bindS_def on_net_def split: prod.splits sum.splits if_splits)
  then show ?thesis by (simp add: se_PublicKey_def bindS_def)
qed

text \<open>The agent reads the numbers of a DER signature unless it is a short one of even length.\<close>

lemma mac_agent_signs:
  assumes "ca_ks a = secureEnclave m" "key = snd (ca_pub a)" "se_Sign m (ca_label a) data s = (Inr (der_sig x y), t)"
    and "x < 256 ^ 32" "y < 256 ^ 32" "odd (length (der_sig x y)) \<or> 66 < length (der_sig x y)"
  shows "SignWithFlags h a key data s = (Inr (fst (ca_pub a), h_mpints h (int x, int y)), t)"
  using assms unmarshal_der_sig [OF assms(4,5), of "[]"]
  by (auto simp: SignWithFlags_def secureEnclave_def bindS_def normalizeECDSASig_def Let_def)

lemma line_no_panic: "x963ToSSHLine m raw l \<noteq> Inl slice_panic"
  by (auto simp: x963ToSSHLine_def mac_ec_line_def bindE_def split: sum.splits)

lemma c_call_then:
  assumes "bindS (c_call what cap f) k s = (r, t)" "c_bounded cap f"
  shows "r = Inl (Msg what) \<or> (\<exists>w u. length w \<le> cap \<and> k w u = (r, t))"
proof -
  obtain q u where q: "c_call what cap f s = (q, u)" by (metis prod.exhaust)
  from c_call_result [OF assms(2) q] assms(1) q show ?thesis by (auto simp: bindS_def)
qed

lemma se_results:
  "se_Create m l s = (q, t) \<Longrightarrow> q \<noteq> Inl slice_panic"
  "se_PublicKey m l s = (q, t) \<Longrightarrow> q \<noteq> Inl slice_panic"
  "se_Delete m l s = (q', t) \<Longrightarrow> q' \<noteq> Inl slice_panic"
  "se_Sign m l d s = (b, t) \<Longrightarrow> b \<noteq> Inl slice_panic \<and> (\<forall>x. b = Inr x \<longrightarrow> length x \<le> 256)"
  "se_CreateAgreementKey m l s = (b, t) \<Longrightarrow> b \<noteq> Inl slice_panic \<and> (\<forall>x. b = Inr x \<longrightarrow> length x = 65 \<and> x ! 0 = 4)"
  "se_Agree m l p s = (b, t) \<Longrightarrow> b \<noteq> Inl slice_panic \<and> (\<forall>x. b = Inr x \<longrightarrow> length x \<le> 32)"
proof -
  show "se_Create m l s = (q, t) \<Longrightarrow> q \<noteq> Inl slice_panic"
    using c_call_then [OF _ se_bounded(2)] line_no_panic [of m _ l] unfolding se_Create_def by fastforce
  show "se_PublicKey m l s = (q, t) \<Longrightarrow> q \<noteq> Inl slice_panic"
    using c_call_then [OF _ se_bounded(3)] line_no_panic [of m _ l] unfolding se_PublicKey_def by fastforce
  show "se_Delete m l s = (q', t) \<Longrightarrow> q' \<noteq> Inl slice_panic"
    using c_call_then [OF _ se_bounded(6)] unfolding se_Delete_def by fastforce
  show "se_Sign m l d s = (b, t) \<Longrightarrow> b \<noteq> Inl slice_panic \<and> (\<forall>x. b = Inr x \<longrightarrow> length x \<le> 256)"
    using c_call_result [OF se_bounded(4)] unfolding se_Sign_def by fastforce
  show "se_CreateAgreementKey m l s = (b, t) \<Longrightarrow> b \<noteq> Inl slice_panic \<and> (\<forall>x. b = Inr x \<longrightarrow> length x = 65 \<and> x ! 0 = 4)"
    using c_call_then [OF _ se_bounded(3)] unfolding se_CreateAgreementKey_def by (fastforce split: if_splits)
  show "se_Agree m l p s = (b, t) \<Longrightarrow> b \<noteq> Inl slice_panic \<and> (\<forall>x. b = Inr x \<longrightarrow> length x \<le> 32)"
    using c_call_result [OF se_bounded(5)] unfolding se_Agree_def by (fastforce split: if_splits)
qed

text \<open>C29. Whatever the Security framework returns, the C functions of the macOS keystore write no more than the buffer they are given holds, and no
  operation slices beyond its buffer: a signature has at most 256 bytes, an agreed number at most 32, and the point for
  agreements is exactly an uncompressed one of 65.\<close>

theorem enclave_buffers_bounded:
  assumes "run_call (secureEnclave m) c s = (r, t)"
  shows "r \<noteq> Inl slice_panic \<and>
    (\<forall>b. r = Inr (RBytes b) \<longrightarrow> (case c of CSign _ _ \<Rightarrow> length b \<le> 256 | CAgree _ _ \<Rightarrow> length b \<le> 32
       | CAgreementKey _ \<Rightarrow> length b = 65 \<and> b ! 0 = 4 | _ \<Rightarrow> False)) \<and>
    c_bounded cap (se_create m tag g cap) \<and> c_bounded cap (se_pubkey m tag g cap) \<and>
    c_bounded cap (se_sign m tag g d cap) \<and> c_bounded cap (se_agree m tag g p cap)"
proof -
  have "r \<noteq> Inl slice_panic \<and> (\<forall>b. r = Inr (RBytes b) \<longrightarrow> (case c of CSign _ _ \<Rightarrow> length b \<le> 256 | CAgree _ _ \<Rightarrow> length b \<le> 32
       | CAgreementKey _ \<Rightarrow> length b = 65 \<and> b ! 0 = 4 | _ \<Rightarrow> False))"
    using assms by (cases c) (auto simp: secureEnclave_def bindS_def split: prod.splits sum.splits dest: se_results)
  then show ?thesis by (simp add: se_bounded)
qed

text \<open>A framework whose one key is the point of the example.\<close>

definition toy_enclave :: "unit mac_env" where
  "toy_enclave = \<lparr>sf_access_control = (\<lambda>n. (True, n)), sf_create_key = (\<lambda>q n. (Some 1, n)), sf_copy_matching = (\<lambda>q n. (Some 1, n)),
     sf_public_key = (\<lambda>k n. (Some 2, n)), sf_external = (\<lambda>k n. (Some (4 # be_fixed 32 0 @ be_fixed 32 toy_y), n)),
     sf_signature = (\<lambda>k d n. (Some (replicate 300 7), n)), sf_supports_exchange = (\<lambda>k n. (True, n)),
     sf_key_with_data = (\<lambda>d n. (Some 3, n)), sf_exchange = (\<lambda>k p n. (Some (replicate 32 7), n)), sf_delete = (\<lambda>q n. (0, n)),
     me_env = Map.empty, me_line = (\<lambda>_. Some ''ec G'')\<rparr>"

theorem enclave_buffers_bounded_witness:
  "run_call (secureEnclave toy_enclave) (CAgreementKey ''web'') example_world = (Inr (RBytes (4 # be_fixed 32 0 @ be_fixed 32 toy_y)), example_world) \<and>
   length (4 # be_fixed 32 0 @ be_fixed 32 toy_y) = 65"
proof -
  have "run_call (secureEnclave toy_enclave) (CAgreementKey ''web'') example_world
      = (Inr (RBytes (4 # be_fixed 32 0 @ be_fixed 32 toy_y)), example_world)"
    by (simp add: secureEnclave_def se_CreateAgreementKey_def c_call_def se_pubkey_def c_try_def se_copy_key_def se_export_pub_def
      toy_enclave_def copy_out_def bindS_def on_net_def example_world_def del: be_fixed.simps)
  with enclave_buffers_bounded [OF this, of 65 "[]" None "[]" "[]"] show ?thesis by simp
qed

end
