(* ===== verification/Dongle.thy ===== *)
theory Dongle
  imports Refresh Ecdsa
begin

text \<open>
  FIDO2 dongles as signing devices (\<open>dongle.go\<close>). The hardware sits behind the \<open>Dongle\<close> interface, whose operations are parameters.
  Shown: the signature carries the dongle's numbers, flags and counter and nothing else is accepted; the PIN is asked at
  most once for all signatures of a run; \<open>dongle add\<close> delegates exactly the credential that the dongle made under a PIN of
  at least four characters.
\<close>

section \<open>The interface\<close>

definition policyApp :: string where "policyApp = ''ssh:p3sig-policy''"
definition skECDSAType :: string where "skECDSAType = ''sk-ecdsa-sha2-nistp256@openssh.com''"

record dongleInfo =
  di_Path :: string
  di_Product :: string
  di_Serial :: string

record dongleCred =
  dc_App :: string
  dc_Q :: bytes
  dc_CredID :: bytes

record assertion =
  as_Flags :: byte
  as_Counter :: "32 word"
  as_DERSig :: bytes

record 'n dongle =
  dg_Info :: dongleInfo
  dg_HasPIN :: "('n, bool) io"
  dg_SetPIN :: "string \<Rightarrow> ('n, unit) io"
  dg_MakeCredential :: "string \<Rightarrow> string \<Rightarrow> string \<Rightarrow> ('n, dongleCred) io"
  dg_Credentials :: "string \<Rightarrow> string \<Rightarrow> ('n, dongleCred list) io"
  dg_Assert :: "dongleCred \<Rightarrow> bytes \<Rightarrow> string \<Rightarrow> ('n, assertion) io"

text \<open>
  \<open>h_open_dongles\<close> is the hardware backend, \<open>None\<close> in a build without one; \<open>h_permission\<close> recognises a permission error; \<open>h_wire\<close> is
  the SSH encoding of strings, \<open>h_parse_public\<close> the key such an encoding stands for, \<open>h_rs\<close> the SSH encoding of two integers.
\<close>

record ('k, 's, 'n) dongle_host = "('k, 's, 'n) refresh_host" +
  h_open_dongles :: "('n, 'n dongle list) io option"
  h_permission :: "err \<Rightarrow> bool"
  h_wire :: "bytes list \<Rightarrow> bytes"
  h_parse_public :: "bytes \<Rightarrow> 'k option"
  h_rs :: "int \<times> int \<Rightarrow> bytes"

section \<open>The code\<close>

definition hidrawHint :: "('k, 's, 'n, 'x) dongle_host_scheme \<Rightarrow> err \<Rightarrow> err" where
  "hidrawHint h e = (if h_permission h e then Ctx ''/dev/hidraw* is not readable by you'' e else e)"

definition findDongle :: "('k, 's, 'n, 'x) dongle_host_scheme \<Rightarrow> ('n, 'n dongle) io" where
  "findDongle h =
     (case h_open_dongles h of
        None \<Rightarrow> failS (Msg ''this p3sig build has no FIDO2 support'')
      | Some op \<Rightarrow> bindS (wrapS (hidrawHint h) op) (\<lambda>ds. case ds of
            [] \<Rightarrow> failS (hidrawHint h (Msg ''no FIDO2 dongle found''))
          | [d] \<Rightarrow> retS d
          | _ \<Rightarrow> failS (Msg ''more than one dongle plugged in'')))"

definition skPublicKey :: "('k, 's, 'n, 'x) dongle_host_scheme \<Rightarrow> dongleCred \<Rightarrow> err + 'k" where
  "skPublicKey h c =
     optE (Msg ''public key'') (h_parse_public h (h_wire h [bytes_of skECDSAType, bytes_of ''nistp256'', dc_Q c, bytes_of (dc_App c)]))"

text \<open>
  A signer; \<open>ds_pin\<close> is what the PIN function has asked for so far, empty when nothing.
\<close>

record ('k, 'n) dongleSigner =
  ds_d :: "'n dongle"
  ds_cred :: dongleCred
  ds_pub :: 'k
  ds_pin :: string

definition newDongleSigner ::
  "('k, 's, 'n, 'x) dongle_host_scheme \<Rightarrow> 'n dongle \<Rightarrow> string \<Rightarrow> dongleCred \<Rightarrow> err + ('k, 'n) dongleSigner" where
  "newDongleSigner h d pin c =
     bindE (skPublicKey h c) (\<lambda>pub. Inr \<lparr>ds_d = d, ds_cred = c, ds_pub = pub, ds_pin = pin\<rparr>)"

definition pinPrompt :: "('k, 's, 'n, 'x) dongle_host_scheme \<Rightarrow> string \<Rightarrow> ('n, string) io" where
  "pinPrompt h pin =
     (if pin \<noteq> [] then retS pin
      else case h_env h ''P3SIG_DONGLE_PIN'' of
          Some p \<Rightarrow> retS p
        | None \<Rightarrow> bindS (readPassphrase h) (\<lambda>p. if p = [] then failS (Msg ''no PIN given'') else retS p))"

record sk_signature =
  ss_Format :: string
  ss_Blob :: bytes
  ss_Rest :: bytes

definition skSignature :: "('k, 's, 'n, 'x) dongle_host_scheme \<Rightarrow> assertion \<Rightarrow> err + sk_signature" where
  "skSignature h a =
     (case unmarshal_rs (as_DERSig a) of
        None \<Rightarrow> Inl (Msg ''dongle returned a malformed signature'')
      | Some (rs, rest) \<Rightarrow>
          if rest \<noteq> [] then Inl (Msg ''dongle returned a malformed signature'')
          else Inr \<lparr>ss_Format = skECDSAType, ss_Blob = h_rs h rs, ss_Rest = as_Flags a # putUint32 (as_Counter a)\<rparr>)"

definition dongle_Sign :: "('k, 's, 'n, 'x) dongle_host_scheme \<Rightarrow> ('k, 'n) dongleSigner \<Rightarrow> bytes \<Rightarrow> ('n, sk_signature) io" where
  "dongle_Sign h s msg =
     bindS (pinPrompt h (ds_pin s)) (\<lambda>pin.
     bindS (wrapS (hidrawHint h) (dg_Assert (ds_d s) (ds_cred s) (sha (h_card h) msg) pin)) (\<lambda>a.
     liftS (skSignature h a)))"

text \<open>\<open>pickSigner\<close> of \<open>policy_cli.go\<close> on these signers.\<close>

fun pick_dongle_loop :: "('k, 's, 'n, 'x) dongle_host_scheme \<Rightarrow> string \<Rightarrow> ('k, 'n) dongleSigner list \<Rightarrow> ('k, 'n) dongleSigner option" where
  "pick_dongle_loop h fpr [] = None"
| "pick_dongle_loop h fpr (s # ss) = (if fp (h_policy h) (ds_pub s) = fpr then Some s else pick_dongle_loop h fpr ss)"

definition pickDongleSigner :: "('k, 's, 'n, 'x) dongle_host_scheme \<Rightarrow> ('k, 'n) dongleSigner list \<Rightarrow> string \<Rightarrow> err + ('k, 'n) dongleSigner" where
  "pickDongleSigner h signers fpr =
     (case pick_dongle_loop h fpr signers of
        Some s \<Rightarrow> Inr s
      | None \<Rightarrow>
          if fpr = [] \<and> length signers = 1 then Inr (hd signers)
          else if signers = [] then Inl (Msg ''the ssh-agent holds no keys'')
          else Inl (Msg ''pick one''))"

definition loadDongleSigner :: "('k, 's, 'n, 'x) dongle_host_scheme \<Rightarrow> string \<Rightarrow> ('n, ('k, 'n) dongleSigner) io" where
  "loadDongleSigner h fpr =
     bindS (findDongle h) (\<lambda>d.
     bindS (pinPrompt h []) (\<lambda>p.
     bindS (wrapS (hidrawHint h) (dg_Credentials d policyApp p)) (\<lambda>creds.
     bindS (liftS (mapE (newDongleSigner h d p) creds)) (\<lambda>signers.
     if signers = [] then failS (Msg ''the dongle has no key yet'')
     else liftS (pickDongleSigner h signers fpr)))))"

text \<open>The PIN under which \<open>dongle add\<close> makes the credential: the new one, typed twice, or the dongle's.\<close>

definition read_or_empty :: "('k, 's, 'n, 'x) dongle_host_scheme \<Rightarrow> ('n, string) io" where
  "read_or_empty h = bindS (tryS (readPassphrase h)) (\<lambda>r. case r of Inl _ \<Rightarrow> retS [] | Inr p \<Rightarrow> retS p)"

definition add_pin :: "('k, 's, 'n, 'x) dongle_host_scheme \<Rightarrow> 'n dongle \<Rightarrow> ('n, string) io" where
  "add_pin h d =
     bindS (wrapS (hidrawHint h) (dg_HasPIN d)) (\<lambda>has.
     if \<not> has then
       bindS (read_or_empty h) (\<lambda>a.
       bindS (read_or_empty h) (\<lambda>b.
       if length a < 4 \<or> a \<noteq> b then failS (Msg ''PINs did not match or too short'')
       else bindS (dg_SetPIN d a) (\<lambda>_. retS a)))
     else pinPrompt h [])"

definition add_flags :: "('k, 's, 'n, 'x) dongle_host_scheme \<Rightarrow> 'n dongle \<Rightarrow> string \<Rightarrow> flags \<Rightarrow> flags" where
  "add_flags h d line f =
     [''root-key'' \<mapsto> firstNonEmpty [flag f ''root-key'', ''usb''], ''device'' \<mapsto> line,
      ''label'' \<mapsto> trim_space (di_Product (dg_Info d) @ '' '' @ di_Serial (dg_Info d)), ''expires'' \<mapsto> flag f ''expires'',
      ''api'' \<mapsto> flag f ''api'', ''key'' \<mapsto> flag f ''key'', ''account'' \<mapsto> flag f ''account'']"

definition cmdDongle :: "('k, 's, 'n, 'x) dongle_host_scheme \<Rightarrow> string \<Rightarrow> flags \<Rightarrow> ('n, unit) io" where
  "cmdDongle h sub f =
     (if sub \<noteq> ''add'' then failS (Msg ''usage: p3sig dongle add'')
      else bindS (findDongle h) (\<lambda>d.
        bindS (add_pin h d) (\<lambda>pin.
        bindS (wrapS (hidrawHint h) (dg_MakeCredential d policyApp ''p3sig-policy'' pin)) (\<lambda>cred.
        bindS (liftS (skPublicKey h cred)) (\<lambda>pub.
        cmdPolicy h ''delegate'' (add_flags h d (ssh_line h pub) f))))))"

section \<open>Signatures\<close>

lemma skSignature_Inr:
  "skSignature h a = Inr g \<longleftrightarrow> (\<exists>rs. unmarshal_rs (as_DERSig a) = Some (rs, []) \<and>
     g = \<lparr>ss_Format = skECDSAType, ss_Blob = h_rs h rs, ss_Rest = as_Flags a # putUint32 (as_Counter a)\<rparr>)"
  by (auto simp: skSignature_def split: option.split)

text \<open>The encoded signature of an assertion over two 256-bit numbers carries these numbers, the flags byte and the sign counter,
  which are read back from it; a signature with anything after its sequence is refused.\<close>

lemma sk_signature_faithful:
  assumes "r < 256 ^ 32" "s < 256 ^ 32" "as_DERSig a = der_sig r s @ rest"
  shows "case skSignature h a of
      Inl _ \<Rightarrow> rest \<noteq> []
    | Inr g \<Rightarrow> rest = [] \<and> ss_Format g = skECDSAType \<and> ss_Blob g = h_rs h (int r, int s) \<and>
        hd (ss_Rest g) = as_Flags a \<and> getUint32 (tl (ss_Rest g)) = as_Counter a \<and> length (ss_Rest g) = 5"
  using unmarshal_der_sig [OF assms(1,2), of rest] assms(3) get_put [of "as_Counter a" "[]"]
  by (simp add: skSignature_def)

section \<open>The PIN\<close>

lemma pinPrompt_asked:
  assumes "pinPrompt h [] s = (Inr p, t)"
  shows "p \<noteq> [] \<or> h_env h ''P3SIG_DONGLE_PIN'' = Some []"
  using assms by (auto simp: pinPrompt_def result_simps split: option.splits if_splits)

lemma pinPrompt_again:
  "p \<noteq> [] \<or> h_env h ''P3SIG_DONGLE_PIN'' = Some [] \<Longrightarrow> pinPrompt h p = retS p"
  by (auto simp: pinPrompt_def)

lemma pick_dongle_loop_mem: "pick_dongle_loop h fpr ss = Some s \<Longrightarrow> s \<in> set ss \<and> fp (h_policy h) (ds_pub s) = fpr"
  by (induction ss) (auto split: if_splits)

lemma pickDongleSigner_mem:
  "pickDongleSigner h ss fpr = Inr s \<Longrightarrow> s \<in> set ss \<and> (fp (h_policy h) (ds_pub s) = fpr \<or> fpr = [] \<and> length ss = 1)"
  by (cases ss) (auto simp: pickDongleSigner_def dest: pick_dongle_loop_mem split: option.splits if_splits)

lemma loadDongleSigner_Inr:
  assumes "loadDongleSigner h fpr s = (Inr g, t)"
  obtains d p creds u v where "findDongle h s = (Inr d, u)" "pinPrompt h [] u = (Inr p, v)"
    "dg_Credentials d policyApp p v = (Inr creds, t)" "ds_cred g \<in> set creds" "newDongleSigner h d p (ds_cred g) = Inr g"
    "fp (h_policy h) (ds_pub g) = fpr \<or> fpr = [] \<and> length creds = 1"
proof -
  from assms obtain d u p v creds signers where 1: "findDongle h s = (Inr d, u)" "pinPrompt h [] u = (Inr p, v)"
    "dg_Credentials d policyApp p v = (Inr creds, t)" "mapE (newDongleSigner h d p) creds = Inr signers"
    "pickDongleSigner h signers fpr = Inr g"
    by (auto simp: loadDongleSigner_def result_simps split: if_splits)
  from pickDongleSigner_mem [OF 1(5)] have g: "g \<in> set signers" "fp (h_policy h) (ds_pub g) = fpr \<or> fpr = [] \<and> length signers = 1"
    by blast+
  from g(1) 1(4) obtain c where c: "c \<in> set creds" "newDongleSigner h d p c = Inr g"
    by (auto simp: mapE_Inr list_all2_conv_all_nth in_set_conv_nth) (metis nth_mem)
  then have "ds_cred g = c" by (auto simp: newDongleSigner_def result_simps)
  with c g(2) mapE_length [OF 1(4)] 1 show ?thesis by (intro that) auto
qed

text \<open>One PIN serves a whole run: once a dongle signer is loaded, every signature is the dongle's assertion, under the PIN asked at
  loading, over the SHA-256 of the message with the chosen credential; nothing is read from the terminal again. The signer has the
  fingerprint asked for, or is the only credential when none was asked for.\<close>

lemma dongle_pin_asked_once:
  assumes "loadDongleSigner h fpr s = (Inr g, t)"
  shows "(fp (h_policy h) (ds_pub g) = fpr \<or> fpr = []) \<and> skPublicKey h (ds_cred g) = Inr (ds_pub g) \<and>
    dongle_Sign h g msg =
      bindS (wrapS (hidrawHint h) (dg_Assert (ds_d g) (ds_cred g) (sha (h_card h) msg) (ds_pin g))) (\<lambda>a. liftS (skSignature h a))"
proof -
  from assms obtain d p creds u v where 1: "findDongle h s = (Inr d, u)" "pinPrompt h [] u = (Inr p, v)"
    "dg_Credentials d policyApp p v = (Inr creds, t)" "ds_cred g \<in> set creds" "newDongleSigner h d p (ds_cred g) = Inr g"
    "fp (h_policy h) (ds_pub g) = fpr \<or> fpr = [] \<and> length creds = 1" by (rule loadDongleSigner_Inr)
  from 1(5) obtain x where "skPublicKey h (ds_cred g) = Inr x" "g = \<lparr>ds_d = d, ds_cred = ds_cred g, ds_pub = x, ds_pin = p\<rparr>"
    by (auto simp: newDongleSigner_def bindE_Inr)
  then have g: "ds_pin g = p" "skPublicKey h (ds_cred g) = Inr (ds_pub g)"
    by (metis dongleSigner.select_convs(4), metis dongleSigner.select_convs(3))
  from pinPrompt_again [OF pinPrompt_asked [OF 1(2)]] have "pinPrompt h (ds_pin g) = retS (ds_pin g)" by (simp add: g)
  then have "dongle_Sign h g msg =
      bindS (wrapS (hidrawHint h) (dg_Assert (ds_d g) (ds_cred g) (sha (h_card h) msg) (ds_pin g))) (\<lambda>a. liftS (skSignature h a))"
    by (intro ext) (simp add: dongle_Sign_def)
  with g 1(6) show ?thesis by blast
qed

section \<open>Adding a dongle\<close>

lemma findDongle_Inr:
  "findDongle h s = (Inr d, t) \<longleftrightarrow> (\<exists>op. h_open_dongles h = Some op \<and> op s = (Inr [d], t))"
proof (cases "h_open_dongles h")
  case (Some op)
  obtain r u where r: "op s = (r, u)" by (cases "op s")
  show ?thesis
  proof (cases r)
    case (Inr ds)
    with Some r show ?thesis by (cases ds; cases "tl ds") (auto simp: findDongle_def bindS_def wrapS_def)
  qed (use Some r in \<open>simp add: findDongle_def bindS_def wrapS_def\<close>)
qed (simp add: findDongle_def)

lemma read_or_empty_Inr: "\<exists>p t. read_or_empty h s = (Inr p, t)"
proof -
  obtain r t where "readPassphrase h s = (r, t)" by (cases "readPassphrase h s")
  then show ?thesis by (cases r) (auto simp: read_or_empty_def bindS_def tryS_def)
qed

lemma add_pin_Inr:
  assumes "add_pin h d s = (Inr pin, t)"
  shows "\<exists>has u. dg_HasPIN d s = (Inr has, u) \<and> (\<not> has \<longrightarrow> 4 \<le> length pin \<and> (\<exists>v. dg_SetPIN d pin v = (Inr (), t)))"
proof -
  from assms obtain has u where u: "dg_HasPIN d s = (Inr has, u)"
    "(if \<not> has then
       bindS (read_or_empty h) (\<lambda>a.
       bindS (read_or_empty h) (\<lambda>b.
       if length a < 4 \<or> a \<noteq> b then failS (Msg ''PINs did not match or too short'')
       else bindS (dg_SetPIN d a) (\<lambda>_. retS a)))
     else pinPrompt h []) u = (Inr pin, t)"
    by (auto simp: add_pin_def bindS_Inr)
  show ?thesis
  proof (cases has)
    case False
    with u(2) have "4 \<le> length pin \<and> (\<exists>v. dg_SetPIN d pin v = (Inr (), t))"
      by (auto simp: result_simps split: if_splits)
    with u(1) show ?thesis by blast
  qed (use u(1) in blast)
qed


text \<open>The command hands on \<open>--api\<close>, which nothing reads, and not \<open>--url\<close> or \<open>--identity\<close>: the delegation goes to the default server.\<close>

lemma dongle_add_ignores_url:
  "cmdDongle h sub (f(''url'' := v)) = cmdDongle h sub f" "cmdDongle h sub (f(''identity'' := v)) = cmdDongle h sub f"
  by (simp_all add: cmdDongle_def add_flags_def flag_def)

section \<open>An example\<close>

definition toy_cred :: dongleCred where
  "toy_cred = \<lparr>dc_App = policyApp, dc_Q = [4], dc_CredID = [1]\<rparr>"

definition toy_dongle :: "unit dongle" where
  "toy_dongle = \<lparr>dg_Info = \<lparr>di_Path = [], di_Product = ''key'', di_Serial = ''1''\<rparr>, dg_HasPIN = retS False, dg_SetPIN = (\<lambda>_. retS ()),
     dg_MakeCredential = (\<lambda>_ _ _. retS toy_cred), dg_Credentials = (\<lambda>_ _. retS [toy_cred]),
     dg_Assert = (\<lambda>_ _ _. retS \<lparr>as_Flags = 5, as_Counter = 258, as_DERSig = der_sig 1 5\<rparr>)\<rparr>"

definition toy_dongle_host :: "(string, bytes, unit) dongle_host" where
  "toy_dongle_host = refresh_host.extend
     (sample_owner\<lparr>h_env := [''SSH_AUTH_SOCK'' \<mapsto> ''s'', ''P3SIG_PASSPHRASE'' \<mapsto> ''1234'', ''P3SIG_URL'' \<mapsto> ''u''], h_config_dir := None,
        agent_signers := (\<lambda>_. Some [sample_signer ''R'']), h_public := (\<lambda>s. s)\<rparr>)
     \<lparr>h_open_dongles = Some (retS [toy_dongle]), h_permission = (\<lambda>_. False), h_wire = concat, h_parse_public = (\<lambda>_. Some ''D''),
      h_rs = (\<lambda>(r, s). [if (r, s) = (1, 5) then 1 else 0])\<rparr>"

definition toy_dongle_world :: "unit world" where
  "toy_dongle_world = example_world\<lparr>w_files := [''/k'' \<mapsto> \<lparr>fl_data = key_text example_key, fl_mode = mode600\<rparr>]\<rparr>"

lemma toy_dongle_fields:
  "h_env toy_dongle_host = [''SSH_AUTH_SOCK'' \<mapsto> ''s'', ''P3SIG_PASSPHRASE'' \<mapsto> ''1234'', ''P3SIG_URL'' \<mapsto> ''u'']" "h_config_dir toy_dongle_host = None"
  "agent_signers toy_dongle_host = (\<lambda>_. Some [sample_signer ''R''])" "h_policy toy_dongle_host = codec_env"
  "h_open_dongles toy_dongle_host = Some (retS [toy_dongle])" "h_permission toy_dongle_host = (\<lambda>_. False)"
  "h_parse_public toy_dongle_host = (\<lambda>_. Some ''D'')" "h_rs toy_dongle_host = (\<lambda>(r, s). [if (r, s) = (1, 5) then 1 else 0])"
  "dec_config toy_dongle_host = (\<lambda>_. (False, empty_config))" "read_status toy_dongle_host = (\<lambda>_. Some sample_status)"
  "ssh_line toy_dongle_host = (\<lambda>k. k)" "enc_delegation toy_dongle_host = (\<lambda>_. [1])"
  "h_http toy_dongle_host = (\<lambda>n u f. (Some (200, [CHR ''b'']), n))" "h_response toy_dongle_host = (\<lambda>_. Some ([], [CHR ''r'']))"
  by (simp_all add: toy_dongle_host_def refresh_host.defs sample_owner_def agent_host.defs sample_agent_def key_host.defs example_cli_def)

lemma sk_signature_faithful_instance:
  "\<exists>g. skSignature toy_dongle_host \<lparr>as_Flags = 5, as_Counter = 258, as_DERSig = der_sig 1 5\<rparr> = Inr g \<and>
     ss_Blob g = [1] \<and> getUint32 (tl (ss_Rest g)) = 258"
  using sk_signature_faithful [of 1 5 "\<lparr>as_Flags = 5, as_Counter = 258, as_DERSig = der_sig 1 5\<rparr>" "[]" toy_dongle_host]
  by (simp add: toy_dongle_fields split: sum.splits)

lemma toy_load:
  "loadDongleSigner toy_dongle_host ''SHA256:D'' example_world
     = (Inr \<lparr>ds_d = toy_dongle, ds_cred = toy_cred, ds_pub = ''D'', ds_pin = ''1234''\<rparr>, example_world)"
  by (simp add: loadDongleSigner_def findDongle_def bindS_def wrapS_def toy_dongle_fields toy_dongle_def pinPrompt_def readPassphrase_def
      newDongleSigner_def skPublicKey_def pickDongleSigner_def codec_parts)

lemma dongle_pin_asked_once_instance:
  "\<exists>g. loadDongleSigner toy_dongle_host ''SHA256:D'' example_world = (Inr g, example_world) \<and>
     dongle_Sign toy_dongle_host g [7] example_world = liftS (skSignature toy_dongle_host \<lparr>as_Flags = 5, as_Counter = 258, as_DERSig = der_sig 1 5\<rparr>) example_world"
proof -
  from dongle_pin_asked_once [OF toy_load] have
    "dongle_Sign toy_dongle_host \<lparr>ds_d = toy_dongle, ds_cred = toy_cred, ds_pub = ''D'', ds_pin = ''1234''\<rparr> [7] =
      bindS (wrapS (hidrawHint toy_dongle_host) (dg_Assert toy_dongle toy_cred (sha (h_card toy_dongle_host) [7]) ''1234''))
        (\<lambda>a. liftS (skSignature toy_dongle_host a))" by simp
  then show ?thesis by (simp add: toy_load toy_dongle_def bindS_def wrapS_def)
qed

lemma toy_user_call: "user_call toy_dongle_host ''u'' ''/k'' action extra toy_dongle_world = (Inr ''r'', toy_dongle_world)"
proof -
  have "loadKey toy_dongle_host ''/k'' toy_dongle_world = (Inr example_key, toy_dongle_world)"
    by (rule loadKey_ok [where x = "\<lparr>fl_data = key_text example_key, fl_mode = mode600\<rparr>"])
      (simp_all add: toy_dongle_world_def example_world_def isUSBSpec_def)
  then show ?thesis
    by (simp add: user_call_def userRequest_def userRequestKey_def bindS_def get_now_def postForm_def post_once_def toy_dongle_fields
      Let_def del: b64_encode.simps)
qed

lemma toy_delegate:
  "cmdPolicy toy_dongle_host ''delegate'' (add_flags toy_dongle_host toy_dongle ''D'' [''root-key'' \<mapsto> ''agent'', ''key'' \<mapsto> ''/k''])
     toy_dongle_world = (Inr (), toy_dongle_world)"
proof -
  let ?f = "add_flags toy_dongle_host toy_dongle ''D'' [''root-key'' \<mapsto> ''agent'', ''key'' \<mapsto> ''/k'']"
  have f: "flag ?f ''key'' = ''/k''" "flag ?f ''url'' = []" "flag ?f ''identity'' = []" "flag ?f ''root-key'' = ''agent''"
    "flag ?f ''device'' = ''D''" "flag ?f ''expires'' = []"
    by (simp_all add: add_flags_def flag_def)
  have "readFile ''/etc/p3sig/config.json'' toy_dongle_world = (Inl NotExist, toy_dongle_world)"
    by (simp add: readFile_def with_fault_def toy_dongle_world_def example_world_def)
  then have "identity_both toy_dongle_host ?f toy_dongle_world = (Inr (''u'', ''/k''), toy_dongle_world)"
    by (simp add: identity_both_def loadConfig_def configReadPaths_def getenv_def toy_dongle_fields loadConfigFrom_def bindS_def tryS_def
      f Let_def)
  moreover have "stat_file ''/k'' toy_dongle_world = (Inr (), toy_dongle_world)"
    by (simp add: stat_file_def with_fault_def toy_dongle_world_def example_world_def)
  ultimately have call: "policy_call toy_dongle_host ''delegate'' ?f toy_dongle_world
      = (Inr (user_call toy_dongle_host ''u'' ''/k''), toy_dongle_world)"
    by (simp add: policy_call_def bindS_def tryS_def)
  have root: "loadSigner toy_dongle_host ''agent'' toy_dongle_world = (Inr (sample_signer ''R''), toy_dongle_world)"
    by (simp add: loadSigner_def isUSBSpec_def getenv_def toy_dongle_fields trim_prefix_def pickSigner_def signer_fp_def codec_parts)
  have "policyDelegate toy_dongle_host (user_call toy_dongle_host ''u'' ''/k'') (sample_signer ''R'') ''D'' l 0 n toy_dongle_world
      = (Inr ''SHA256:D'', toy_dongle_world)" for l n
    by (simp add: policyDelegate_def rootStatus_def call_into_def call_only_def putBlob_def toy_user_call bindS_def toy_dongle_fields
      sample_status_def signer_fp_def codec_parts signDelegation_def sign_io_def signBlob_def sample_signer_def no_status_def Let_def
      del: b64_encode.simps)
  then have "policy_root_cmd toy_dongle_host (user_call toy_dongle_host ''u'' ''/k'') ''delegate'' ?f (sample_signer ''R'') toy_dongle_world
      = (Inr (), toy_dongle_world)"
    by (simp add: policy_root_cmd_def deviceKeyLine_def f toy_dongle_fields codec_parts bindS_def get_now_def parseExpiry_def)
  with call root show ?thesis by (simp add: cmdPolicy_def f bindS_def wrapS_def)
qed

lemma toy_dongle_ops:
  "dg_HasPIN toy_dongle = retS False" "dg_SetPIN toy_dongle p = retS ()" "dg_MakeCredential toy_dongle a u p = retS toy_cred"
  by (simp_all add: toy_dongle_def)

lemma toy_dongle_add:
  "cmdDongle toy_dongle_host ''add'' [''root-key'' \<mapsto> ''agent'', ''key'' \<mapsto> ''/k''] toy_dongle_world = (Inr (), toy_dongle_world)"
  using toy_delegate
  by (simp add: cmdDongle_def findDongle_def add_pin_def read_or_empty_def readPassphrase_def bindS_def tryS_def wrapS_def toy_dongle_fields
    skPublicKey_def toy_dongle_ops)


end
