(* ===== verification/Fido.thy ===== *)
theory Fido
  imports Dongle Chip
begin

text \<open>
  The libfido2 backend of the \<open>Dongle\<close> interface (\<open>dongle_libfido2.go\<close>). The C library is a parameter; every call, its arguments, its
  result code and the release of what it allocated are modelled. Shown: each operation closes and frees the device it opened; a
  credential it returns is an ES256 key under the application asked for; the serial number is never read from where it is.
\<close>

section \<open>The library\<close>

text \<open>
  Pointers are numbers, a null pointer is \<open>None\<close>, a result code is an integer, \<open>0\<close> for success. \<open>fl_open\<close> is \<open>os.Open\<close> on a device node: no
  error, a permission error, or another one.
\<close>

datatype open_result = OpenOK | OpenDenied | OpenFailed

datatype cred_setting = SetType int | SetRp string | SetUser bytes string | SetHash bytes | SetRk bool | SetProt int

datatype assert_setting = AsRp string | AsHash bytes | AsCred bytes | AsUp bool

record 'n fido_lib =
  fl_goos :: string
  fl_nodes :: "string list"
  fl_open :: "string \<Rightarrow> 'n \<Rightarrow> open_result \<times> 'n"
  fl_strerr :: "int \<Rightarrow> string"
  fl_info_new :: "nat \<Rightarrow> 'n \<Rightarrow> nat option \<times> 'n"
  fl_manifest :: "nat \<Rightarrow> nat \<Rightarrow> 'n \<Rightarrow> (int \<times> (string \<times> string) list) \<times> 'n"
  fl_info_free :: "nat \<Rightarrow> nat \<Rightarrow> 'n \<Rightarrow> 'n"
  fl_dev_new :: "'n \<Rightarrow> nat option \<times> 'n"
  fl_dev_open :: "nat \<Rightarrow> string \<Rightarrow> 'n \<Rightarrow> int \<times> 'n"
  fl_dev_close :: "nat \<Rightarrow> 'n \<Rightarrow> 'n"
  fl_dev_free :: "nat \<Rightarrow> 'n \<Rightarrow> 'n"
  fl_has_pin :: "nat \<Rightarrow> 'n \<Rightarrow> bool \<times> 'n"
  fl_set_pin :: "nat \<Rightarrow> string \<Rightarrow> 'n \<Rightarrow> int \<times> 'n"
  fl_cred_new :: "'n \<Rightarrow> nat option \<times> 'n"
  fl_cred_free :: "nat \<Rightarrow> 'n \<Rightarrow> 'n"
  fl_cred_set :: "nat \<Rightarrow> cred_setting \<Rightarrow> 'n \<Rightarrow> int \<times> 'n"
  fl_make_cred :: "nat \<Rightarrow> nat \<Rightarrow> string option \<Rightarrow> 'n \<Rightarrow> int \<times> 'n"
  fl_cred_type :: "nat \<Rightarrow> 'n \<Rightarrow> int"
  fl_cred_pubkey :: "nat \<Rightarrow> 'n \<Rightarrow> bytes"
  fl_cred_id :: "nat \<Rightarrow> 'n \<Rightarrow> bytes"
  fl_rk_new :: "'n \<Rightarrow> nat option \<times> 'n"
  fl_rk_free :: "nat \<Rightarrow> 'n \<Rightarrow> 'n"
  fl_get_rk :: "nat \<Rightarrow> string \<Rightarrow> nat \<Rightarrow> string option \<Rightarrow> 'n \<Rightarrow> int \<times> 'n"
  fl_rk_creds :: "nat \<Rightarrow> 'n \<Rightarrow> nat list"
  fl_assert_new :: "'n \<Rightarrow> nat option \<times> 'n"
  fl_assert_free :: "nat \<Rightarrow> 'n \<Rightarrow> 'n"
  fl_assert_set :: "nat \<Rightarrow> assert_setting \<Rightarrow> 'n \<Rightarrow> int \<times> 'n"
  fl_get_assert :: "nat \<Rightarrow> nat \<Rightarrow> string option \<Rightarrow> 'n \<Rightarrow> int \<times> 'n"
  fl_asserts :: "nat \<Rightarrow> 'n \<Rightarrow> (byte \<times> 32 word \<times> bytes) list"

definition fidoOK :: int where "fidoOK = 0"
definition fidoErrPINRequired :: int where "fidoErrPINRequired = 0x36"
definition fidoErrPINInvalid :: int where "fidoErrPINInvalid = 0x31"
definition fidoErrNoCredentials :: int where "fidoErrNoCredentials = 0x2e"
definition coseES256 :: int where "coseES256 = - 7"
definition fidoCredProtUVRequired :: int where "fidoCredProtUVRequired = 3"

definition ErrPINRequired :: err where "ErrPINRequired = Msg ''dongle: PIN required''"
definition out_of_memory :: err where "out_of_memory = Msg ''dongle: out of memory''"
definition permission_denied :: err where "permission_denied = Msg ''permission denied''"

definition fido_error :: "'n fido_lib \<Rightarrow> string \<Rightarrow> int \<Rightarrow> err" where
  "fido_error l op r =
     (if r = fidoErrPINRequired then ErrPINRequired
      else if r = fidoErrPINInvalid then Msg ''dongle: wrong PIN (it locks after repeated wrong tries)''
      else Msg (''dongle: '' @ op @ '': '' @ fl_strerr l r))"

definition fidoErr :: "'n fido_lib \<Rightarrow> string \<Rightarrow> int \<Rightarrow> err + unit" where
  "fidoErr l op r = (if r = fidoOK then Inr () else Inl (fido_error l op r))"

definition fido_call :: "'n fido_lib \<Rightarrow> string \<Rightarrow> ('n \<Rightarrow> int \<times> 'n) \<Rightarrow> ('n, unit) io" where
  "fido_call l op f = bindS (on_net f) (\<lambda>r. liftS (fidoErr l op r))"

text \<open>Something the library allocates, and releases when the body is through.\<close>

definition with_new :: "('n \<Rightarrow> nat option \<times> 'n) \<Rightarrow> (nat \<Rightarrow> 'n \<Rightarrow> 'n) \<Rightarrow> (nat \<Rightarrow> ('n, 'a) io) \<Rightarrow> ('n, 'a) io" where
  "with_new mk fr body =
     bindS (on_net mk) (\<lambda>p. case p of None \<Rightarrow> failS out_of_memory | Some x \<Rightarrow> deferS (on_net_unit (fr x)) (body x))"

definition cstr :: "string \<Rightarrow> string" where
  "cstr s = takeWhile (\<lambda>c. c \<noteq> CHR 0x00) s"

definition cstrOrNil :: "string \<Rightarrow> string option" where
  "cstrOrNil s = (if s = [] then None else Some (cstr s))"

section \<open>Listing\<close>

text \<open>\<open>filepath.Base\<close>\<close>

definition path_base :: "string \<Rightarrow> string" where
  "path_base p =
     (if p = [] then ''.''
      else let q = rev (dropWhile (\<lambda>c. c = slash) (rev p))
        in if q = [] then [slash] else last (split_on slash q))"

definition unreadableHidraw :: "'n fido_lib \<Rightarrow> ('n, unit) io" where
  "unreadableHidraw l =
     (if fl_goos l \<noteq> ''linux'' then retS ()
      else foldr (\<lambda>n rest. bindS (on_net (fl_open l n)) (\<lambda>res. if res = OpenDenied
             then failS (Ctx ''no FIDO2 dongle readable'' permission_denied) else rest)) (fl_nodes l) (retS ()))"

definition serial_path :: "string \<Rightarrow> string" where
  "serial_path path = path_join [''/sys/class/hidraw'', path_base path, ''device/../../serial'']"

definition usbSerial :: "'n fido_lib \<Rightarrow> string \<Rightarrow> ('n, string) io" where
  "usbSerial l path =
     (if fl_goos l \<noteq> ''linux'' \<or> \<not> prefix ''/dev/hidraw'' path then retS []
      else bindS (tryS (readFile (serial_path path))) (\<lambda>r. case r of Inl _ \<Rightarrow> retS [] | Inr b \<Rightarrow> retS (trim_space b)))"

section \<open>A dongle\<close>

definition with_dev :: "'n fido_lib \<Rightarrow> dongleInfo \<Rightarrow> (nat \<Rightarrow> ('n, 'a) io) \<Rightarrow> ('n, 'a) io" where
  "with_dev l info body =
     with_new (fl_dev_new l) (fl_dev_free l) (\<lambda>dev.
       bindS (on_net (fl_dev_open l dev (cstr (di_Path info)))) (\<lambda>r.
       if r \<noteq> fidoOK then
         bindS (on_net (fl_open l (di_Path info))) (\<lambda>res.
         failS (if res = OpenDenied then permission_denied else fido_error l (''open '' @ di_Path info) r))
       else deferS (on_net_unit (fl_dev_close l dev)) (body dev)))"

definition fido_HasPIN :: "'n fido_lib \<Rightarrow> dongleInfo \<Rightarrow> ('n, bool) io" where
  "fido_HasPIN l info = with_dev l info (\<lambda>dev. on_net (fl_has_pin l dev))"

definition fido_SetPIN :: "'n fido_lib \<Rightarrow> dongleInfo \<Rightarrow> string \<Rightarrow> ('n, unit) io" where
  "fido_SetPIN l info pin = with_dev l info (\<lambda>dev. fido_call l ''set PIN'' (fl_set_pin l dev (cstr pin)))"

definition credFrom :: "'n fido_lib \<Rightarrow> string \<Rightarrow> nat \<Rightarrow> 'n \<Rightarrow> err + dongleCred" where
  "credFrom l app c n =
     (if fl_cred_type l c n \<noteq> coseES256 then Inl (Msg ''dongle: credential is not ES256'')
      else if length (fl_cred_pubkey l c n) \<noteq> 64 then Inl (Msg ''dongle: unexpected ES256 public key length'')
      else Inr \<lparr>dc_App = app, dc_Q = 4 # fl_cred_pubkey l c n, dc_CredID = fl_cred_id l c n\<rparr>)"

definition cred_from :: "'n fido_lib \<Rightarrow> string \<Rightarrow> nat \<Rightarrow> ('n, dongleCred) io" where
  "cred_from l app c s = liftS (credFrom l app c (w_net s)) s"

text \<open>The settings of a new credential, in the order in which they are made: ES256, resident, never listed or used without the PIN.\<close>

definition cred_settings :: "string \<Rightarrow> string \<Rightarrow> bytes \<Rightarrow> bytes \<Rightarrow> (string \<times> cred_setting) list" where
  "cred_settings app user cdh uid =
     [(''cred type'', SetType coseES256), (''cred rp'', SetRp (cstr app)), (''cred user'', SetUser uid (cstr user)),
      (''cred hash'', SetHash cdh), (''cred rk'', SetRk True), (''cred protect'', SetProt fidoCredProtUVRequired)]"

fun run_settings :: "'n fido_lib \<Rightarrow> ('c \<Rightarrow> 'n \<Rightarrow> int \<times> 'n) \<Rightarrow> (string \<times> 'c) list \<Rightarrow> ('n, unit) io" where
  "run_settings l f [] = retS ()"
| "run_settings l f ((op, x) # xs) = bindS (fido_call l op (f x)) (\<lambda>_. run_settings l f xs)"

definition fido_MakeCredential :: "'n fido_lib \<Rightarrow> dongleInfo \<Rightarrow> string \<Rightarrow> string \<Rightarrow> string \<Rightarrow> ('n, dongleCred) io" where
  "fido_MakeCredential l info app user pin =
     with_dev l info (\<lambda>dev. with_new (fl_cred_new l) (fl_cred_free l) (\<lambda>c.
       bindS (mustRandom 32) (\<lambda>cdh.
       bindS (mustRandom 32) (\<lambda>uid.
       bindS (run_settings l (fl_cred_set l c) (cred_settings app user cdh uid)) (\<lambda>_.
       bindS (fido_call l ''make credential'' (fl_make_cred l dev c (cstrOrNil pin))) (\<lambda>_.
       cred_from l app c))))))"

text \<open>A credential that is not ES256 is passed over.\<close>

definition own_creds :: "'n fido_lib \<Rightarrow> string \<Rightarrow> nat \<Rightarrow> 'n \<Rightarrow> dongleCred list" where
  "own_creds l app rk n =
     List.map_filter (\<lambda>c. case credFrom l app c n of Inl _ \<Rightarrow> None | Inr x \<Rightarrow> Some x) (fl_rk_creds l rk n)"

definition fido_Credentials :: "'n fido_lib \<Rightarrow> dongleInfo \<Rightarrow> string \<Rightarrow> string \<Rightarrow> ('n, dongleCred list) io" where
  "fido_Credentials l info app pin =
     with_dev l info (\<lambda>dev. with_new (fl_rk_new l) (fl_rk_free l) (\<lambda>rk.
       bindS (on_net (fl_get_rk l dev (cstr app) rk (cstrOrNil pin))) (\<lambda>r.
       if r = fidoErrNoCredentials then retS []
       else bindS (liftS (fidoErr l ''list credentials'' r)) (\<lambda>_ s. (Inr (own_creds l app rk (w_net s)), s)))))"

definition assert_settings :: "dongleCred \<Rightarrow> bytes \<Rightarrow> (string \<times> assert_setting) list" where
  "assert_settings cred cdh =
     [(''assert rp'', AsRp (cstr (dc_App cred))), (''assert hash'', AsHash cdh)] @
     (if dc_CredID cred \<noteq> [] then [(''assert cred'', AsCred (dc_CredID cred))] else []) @ [(''assert up'', AsUp True)]"

definition the_assertion :: "'n fido_lib \<Rightarrow> nat \<Rightarrow> ('n, assertion) io" where
  "the_assertion l a s =
     (case fl_asserts l a (w_net s) of
        [(fl, cnt, sg)] \<Rightarrow> (Inr \<lparr>as_Flags = fl, as_Counter = cnt, as_DERSig = sg\<rparr>, s)
      | _ \<Rightarrow> (Inl (Msg ''dongle: expected one assertion''), s))"

definition fido_Assert :: "'n fido_lib \<Rightarrow> dongleInfo \<Rightarrow> dongleCred \<Rightarrow> bytes \<Rightarrow> string \<Rightarrow> ('n, assertion) io" where
  "fido_Assert l info cred cdh pin =
     with_dev l info (\<lambda>dev. with_new (fl_assert_new l) (fl_assert_free l) (\<lambda>a.
       bindS (run_settings l (fl_assert_set l a) (assert_settings cred cdh)) (\<lambda>_.
       bindS (fido_call l ''get assertion'' (fl_get_assert l dev a (cstrOrNil pin))) (\<lambda>_.
       the_assertion l a))))"

definition fidoDongle :: "'n fido_lib \<Rightarrow> dongleInfo \<Rightarrow> 'n dongle" where
  "fidoDongle l info = \<lparr>dg_Info = info, dg_HasPIN = fido_HasPIN l info, dg_SetPIN = fido_SetPIN l info,
     dg_MakeCredential = fido_MakeCredential l info, dg_Credentials = fido_Credentials l info, dg_Assert = fido_Assert l info\<rparr>"

definition libfido2Open :: "'n fido_lib \<Rightarrow> ('n, 'n dongle list) io" where
  "libfido2Open l =
     with_new (fl_info_new l 16) (\<lambda>di. fl_info_free l di 16) (\<lambda>di.
       bindS (on_net (fl_manifest l di 16)) (\<lambda>(r, found).
       bindS (liftS (fidoErr l ''list'' r)) (\<lambda>_.
       bindS (mapS (\<lambda>(path, product). bindS (usbSerial l path) (\<lambda>serial.
           retS (fidoDongle l \<lparr>di_Path = path, di_Product = trim_space product, di_Serial = serial\<rparr>))) found) (\<lambda>ds.
       if ds = [] then bindS (unreadableHidraw l) (\<lambda>_. retS []) else retS ds))))"

section \<open>What an operation allocated is released\<close>

text \<open>
  \<open>cnt\<close> counts what the library has allocated or opened and not yet released: an allocation that succeeds and a device that opens add
  one, a release and a close remove one, the other calls change nothing.
\<close>

definition new_counts :: "('n \<Rightarrow> int) \<Rightarrow> ('n \<Rightarrow> nat option \<times> 'n) \<Rightarrow> (nat \<Rightarrow> 'n \<Rightarrow> 'n) \<Rightarrow> bool" where
  "new_counts cnt mk fr \<longleftrightarrow>
     (\<forall>n. (case mk n of (p, n') \<Rightarrow> cnt n' = cnt n + (if p = None then 0 else 1)) \<and> (\<forall>x. cnt (fr x n) = cnt n - 1))"

definition same_count :: "('n \<Rightarrow> int) \<Rightarrow> ('n \<Rightarrow> 'a \<times> 'n) \<Rightarrow> bool" where
  "same_count cnt f \<longleftrightarrow> (\<forall>n. cnt (snd (f n)) = cnt n)"

definition fido_ledger :: "'n fido_lib \<Rightarrow> ('n \<Rightarrow> int) \<Rightarrow> bool" where
  "fido_ledger l cnt \<longleftrightarrow>
     (\<forall>m. new_counts cnt (fl_info_new l m) (\<lambda>x. fl_info_free l x m)) \<and> new_counts cnt (fl_dev_new l) (fl_dev_free l) \<and>
     new_counts cnt (fl_cred_new l) (fl_cred_free l) \<and> new_counts cnt (fl_rk_new l) (fl_rk_free l) \<and>
     new_counts cnt (fl_assert_new l) (fl_assert_free l) \<and>
     (\<forall>d p n r n'. fl_dev_open l d p n = (r, n') \<longrightarrow> cnt n' = cnt n + (if r = fidoOK then 1 else 0)) \<and>
     (\<forall>d n. cnt (fl_dev_close l d n) = cnt n - 1) \<and>
     (\<forall>p. same_count cnt (fl_open l p)) \<and> (\<forall>x m. same_count cnt (fl_manifest l x m)) \<and> (\<forall>d. same_count cnt (fl_has_pin l d)) \<and>
     (\<forall>d p. same_count cnt (fl_set_pin l d p)) \<and> (\<forall>c x. same_count cnt (fl_cred_set l c x)) \<and>
     (\<forall>d c p. same_count cnt (fl_make_cred l d c p)) \<and> (\<forall>d a k p. same_count cnt (fl_get_rk l d a k p)) \<and>
     (\<forall>a x. same_count cnt (fl_assert_set l a x)) \<and> (\<forall>d a p. same_count cnt (fl_get_assert l d a p))"

definition steady :: "('n \<Rightarrow> int) \<Rightarrow> ('n, 'a) io \<Rightarrow> bool" where
  "steady cnt m \<longleftrightarrow> (\<forall>s. cnt (w_net (snd (m s))) = cnt (w_net s))"

lemma steady_basic: "steady cnt (retS x)" "steady cnt (failS y)" "steady cnt (liftS r)" "steady cnt (mustRandom k)"
  "same_count cnt f \<Longrightarrow> steady cnt (on_net f)"
  by (simp_all add: steady_def mustRandom_def same_count_def)

lemma steady_bind: "steady cnt m \<Longrightarrow> (\<And>x. steady cnt (k x)) \<Longrightarrow> steady cnt (bindS m k)"
  unfolding steady_def bindS_def by (auto split: prod.split sum.split) (metis snd_conv)+

lemma steady_cases: "(c \<Longrightarrow> steady cnt m) \<Longrightarrow> (\<not> c \<Longrightarrow> steady cnt m') \<Longrightarrow> steady cnt (if c then m else m')"
  "(\<And>a b. steady cnt (k a b)) \<Longrightarrow> steady cnt (case p of (a, b) \<Rightarrow> k a b)"
  "(\<And>x. steady cnt (f x)) \<Longrightarrow> (\<And>y. steady cnt (g y)) \<Longrightarrow> steady cnt (case r of Inl x \<Rightarrow> f x | Inr y \<Rightarrow> g y)"
  by (simp_all split: prod.split sum.split)

lemma steady_new:
  assumes "new_counts cnt mk fr" "\<And>x. steady cnt (body x)"
  shows "steady cnt (with_new mk fr body)"
  unfolding steady_def
proof
  fix s :: "_ world"
  obtain p n where p: "mk (w_net s) = (p, n)" by (metis prod.exhaust)
  with assms(1) have n: "cnt n = cnt (w_net s) + (if p = None then 0 else 1)" by (auto simp: new_counts_def dest: spec [of _ "w_net s"])
  show "cnt (w_net (snd (with_new mk fr body s))) = cnt (w_net s)"
  proof (cases p)
    case (Some x)
    have fr: "cnt (fr x n') = cnt n' - 1" for n' using assms(1) by (simp add: new_counts_def)
    obtain r t where r: "body x (s\<lparr>w_net := n\<rparr>) = (r, t)" by (metis prod.exhaust)
    with assms(2) [of x] have "cnt (w_net t) = cnt n" unfolding steady_def by (metis snd_conv world.select_convs(9) world.surjective world.update_convs(9))
    then show ?thesis using n Some fr r
      by (simp add: with_new_def bindS_step [of "on_net mk", OF on_net_run [of mk, OF p]] deferS_def on_net_unit_def on_net_def)
  qed (simp add: with_new_def bindS_step [of "on_net mk", OF on_net_run [of mk, OF p]] n)
qed

lemma steady_close:
  assumes "\<And>n. cnt (fr n) = cnt n - 1" "steady cnt body"
  shows "cnt (w_net (snd (deferS (on_net_unit fr) body s))) = cnt (w_net s) - 1"
  using assms by (cases "body s") (simp add: deferS_def on_net_unit_def on_net_def steady_def, metis snd_conv)

lemma steady_dev:
  fixes body :: "nat \<Rightarrow> ('n, 'a) io"
  assumes "fido_ledger l cnt" "\<And>d. steady cnt (body d)"
  shows "steady cnt (with_dev l info body)"
  unfolding with_dev_def
proof (rule steady_new)
  note led = assms(1) [unfolded fido_ledger_def]
  show "new_counts cnt (fl_dev_new l) (fl_dev_free l)" using led by blast
  fix d :: nat
  show "steady cnt (bindS (on_net (fl_dev_open l d (cstr (di_Path info)))) (\<lambda>r. if r \<noteq> fidoOK then
      bindS (on_net (fl_open l (di_Path info))) (\<lambda>res. failS (if res = OpenDenied then permission_denied
        else fido_error l (''open '' @ di_Path info) r))
    else deferS (on_net_unit (fl_dev_close l d)) (body d)))" (is "steady cnt (bindS ?open ?rest)")
    unfolding steady_def
  proof
    fix s :: "'n world"
    obtain r n where r: "fl_dev_open l d (cstr (di_Path info)) (w_net s) = (r, n)" by (metis prod.exhaust)
    from led r have n: "cnt n = cnt (w_net s) + (if r = fidoOK then 1 else 0)" by simp
    have "steady cnt (bindS (on_net (fl_open l (di_Path info))) (\<lambda>res. failS (if res = OpenDenied then permission_denied
        else fido_error l (''open '' @ di_Path info) r)) :: ('n, 'a) io)" (is "steady cnt ?failed") using led by (intro steady_bind steady_basic) blast+
    then have "cnt (w_net (snd (?failed (s\<lparr>w_net := n\<rparr>)))) = cnt n" unfolding steady_def by simp
    moreover have "cnt (w_net (snd (deferS (on_net_unit (fl_dev_close l d)) (body d) (s\<lparr>w_net := n\<rparr>)))) = cnt n - 1"
      using steady_close [OF _ assms(2), of "fl_dev_close l d"] led by simp
    ultimately show "cnt (w_net (snd (bindS ?open ?rest s))) = cnt (w_net s)"
      using n by (simp add: bindS_step [of ?open, OF on_net_run [of "fl_dev_open l d (cstr (di_Path info))", OF r]] steady_def)
  qed
qed

lemma steady_settings: "(\<And>x. same_count cnt (f x)) \<Longrightarrow> steady cnt (run_settings l f xs)"
  by (induction l f xs rule: run_settings.induct) (auto simp: fido_call_def intro!: steady_bind steady_basic)

lemma steady_reads: "steady cnt (cred_from l app c)" "steady cnt (the_assertion l a)" "steady cnt (tryS (readFile p))"
  by (auto simp: steady_def cred_from_def the_assertion_def tryS_def readFile_def with_fault_def
      split: list.splits if_splits option.splits prod.splits)

lemma steady_serial: "steady cnt (usbSerial l p)"
  unfolding usbSerial_def by (intro steady_cases steady_basic steady_bind steady_reads)

lemma steady_mapS: "(\<And>x. steady cnt (f x)) \<Longrightarrow> steady cnt (mapS f xs)"
  by (induction xs) (auto intro!: steady_bind steady_basic)

lemma steady_unreadable:
  assumes "fido_ledger l cnt"
  shows "steady cnt (unreadableHidraw l)"
proof -
  have led: "same_count cnt (fl_open l p)" for p using assms by (simp add: fido_ledger_def)
  have "steady cnt (foldr (\<lambda>n rest. bindS (on_net (fl_open l n)) (\<lambda>res. if res = OpenDenied
      then failS (Ctx ''no FIDO2 dongle readable'' permission_denied) else rest)) ns (retS ()))" for ns
    by (induction ns) (simp_all only: foldr.simps comp_def id_apply, (intro steady_bind steady_basic steady_cases led | assumption)+)
  then show ?thesis by (simp add: unreadableHidraw_def steady_basic)
qed


section \<open>Credentials and serial numbers\<close>

lemma credFrom_Inr:
  "credFrom l app c n = Inr cred \<Longrightarrow> dc_App cred = app \<and> length (dc_Q cred) = 65 \<and> dc_Q cred ! 0 = 4 \<and> fl_cred_type l c n = coseES256"
  by (auto simp: credFrom_def split: if_splits)

lemma on_net_result: "on_net f s = (r, t) \<Longrightarrow> \<exists>x n. f (w_net s) = (x, n) \<and> r = Inr x \<and> t = s\<lparr>w_net := n\<rparr>"
  by (auto simp: on_net_def split: prod.splits)

lemma deferS_run: "deferS d m s = (Inr x, t) \<Longrightarrow> \<exists>u. m s = (Inr x, u)"
  by (auto simp: deferS_def split: prod.splits)

lemma with_new_Inr: "with_new mk fr body s = (Inr x, t) \<Longrightarrow> \<exists>p u u'. body p u = (Inr x, u')"
  by (auto simp: with_new_def bindS_def deferS_def split: prod.splits sum.splits option.splits)

lemma with_dev_Inr:
  assumes "with_dev l info body s = (Inr x, t)"
  shows "\<exists>d u u'. body d u = (Inr x, u')"
proof -
  from with_new_Inr [OF assms [unfolded with_dev_def]] obtain d u u' where
    d: "bindS (on_net (fl_dev_open l d (cstr (di_Path info)))) (\<lambda>r. if r \<noteq> fidoOK then
         bindS (on_net (fl_open l (di_Path info))) (\<lambda>res.
         failS (if res = OpenDenied then permission_denied else fido_error l (''open '' @ di_Path info) r))
       else deferS (on_net_unit (fl_dev_close l d)) (body d)) u = (Inr x, u')" by blast
  obtain r n where r: "fl_dev_open l d (cstr (di_Path info)) (w_net u) = (r, n)" by (metis prod.exhaust)
  from d [unfolded bindS_step [of "on_net (fl_dev_open l d (cstr (di_Path info)))", OF on_net_run [of "fl_dev_open l d (cstr (di_Path info))", OF r]]]
  have "deferS (on_net_unit (fl_dev_close l d)) (body d) (u\<lparr>w_net := n\<rparr>) = (Inr x, u')"
    by (auto simp: bindS_Inr split: if_splits)
  from deferS_run [OF this] show ?thesis by blast
qed

lemma made_credential:
  assumes "dg_MakeCredential (fidoDongle l info) app user pin s = (Inr cred, t)"
  shows "dc_App cred = app \<and> length (dc_Q cred) = 65 \<and> dc_Q cred ! 0 = 4"
proof -
  from assms obtain d u u' where "with_new (fl_cred_new l) (fl_cred_free l) (\<lambda>c.
       bindS (mustRandom 32) (\<lambda>cdh. bindS (mustRandom 32) (\<lambda>uid.
       bindS (run_settings l (fl_cred_set l c) (cred_settings app user cdh uid)) (\<lambda>_.
       bindS (fido_call l ''make credential'' (fl_make_cred l d c (cstrOrNil pin))) (\<lambda>_. cred_from l app c))))) u = (Inr cred, u')"
    unfolding fidoDongle_def fido_MakeCredential_def by (auto dest!: with_dev_Inr)
  from with_new_Inr [OF this] obtain c v v' where "cred_from l app c v = (Inr cred, v')"
    by (auto simp: bindS_Inr)
  then show ?thesis using credFrom_Inr by (fastforce simp: cred_from_def)
qed

lemma listed_credentials:
  assumes "dg_Credentials (fidoDongle l info) app pin s = (Inr creds, t)" "cred \<in> set creds"
  shows "dc_App cred = app \<and> length (dc_Q cred) = 65 \<and> dc_Q cred ! 0 = 4"
proof -
  have "cred \<in> set (own_creds l app rk n) \<Longrightarrow> ?thesis" for rk n
    using credFrom_Inr by (fastforce simp: own_creds_def map_filter_def split: sum.splits)
  moreover from assms(1) obtain d u u' where "with_new (fl_rk_new l) (fl_rk_free l) (\<lambda>rk.
       bindS (on_net (fl_get_rk l d (cstr app) rk (cstrOrNil pin))) (\<lambda>r. if r = fidoErrNoCredentials then retS []
         else bindS (liftS (fidoErr l ''list credentials'' r)) (\<lambda>_ s. (Inr (own_creds l app rk (w_net s)), s)))) u = (Inr creds, u')"
    unfolding fidoDongle_def fido_Credentials_def by (auto dest!: with_dev_Inr)
  from with_new_Inr [OF this] obtain rk n where "creds = [] \<or> creds = own_creds l app rk n"
    by (auto simp: bindS_Inr split: if_splits)
  ultimately show ?thesis using assms(2) by auto
qed

text \<open>\<open>filepath.Join\<close> takes \<open>device/../..\<close> away before the file is opened: the serial number of the USB device is looked for where it is not.\<close>

lemma split_no_slash: "slash \<notin> set w \<Longrightarrow> split_on slash w = [w]"
  by (induction w) auto

lemma join_serial:
  assumes "plain_name m"
  shows "path_join [''/sys/class/hidraw'', m, ''device/../../serial''] = ''/sys/class/hidraw/serial''"
proof -
  have "split_on slash (''/sys/class/hidraw'' @ slash # m @ slash # ''device/../../serial'')
      = split_on slash ''/sys/class/hidraw'' @ [m] @ split_on slash ''device/../../serial''"
    using assms by (simp only: split_on_snoc) (simp add: split_no_slash plain_name_def)
  then have s: "split_on slash (join_with [slash] [''/sys/class/hidraw'', m, ''device/../../serial''])
      = [[], ''sys'', ''class'', ''hidraw'', m, ''device'', ''..'', ''..'', ''serial'']" by simp
  have "m \<noteq> ''..''" "m \<noteq> ''.''" "m \<noteq> []" using assms by (simp_all add: plain_name_def)
  then have "components (join_with [slash] [''/sys/class/hidraw'', m, ''device/../../serial'']) = [''sys'', ''class'', ''hidraw'', ''serial'']"
    unfolding components_def s by (simp add: clean_step_def)
  then show ?thesis by (simp add: path_join_def clean_path_def rooted_def render_path_def)
qed

lemma base_hidraw:
  assumes "slash \<notin> set n"
  shows "path_base (''/dev/hidraw'' @ n) = ''hidraw'' @ n"
proof -
  have "dropWhile (\<lambda>c. c = slash) (rev (''/dev/hidraw'' @ n)) = rev (''/dev/hidraw'' @ n)"
  proof (cases "rev n")
    case (Cons a as)
    then have "a \<in> set n" by (metis list.set_intros(1) set_rev)
    with assms Cons show ?thesis by auto
  qed simp
  then show ?thesis using assms split_no_slash [of "''hidraw'' @ n"] by (simp add: path_base_def)
qed

lemma serial_path_fixed:
  assumes "slash \<notin> set n"
  shows "serial_path (''/dev/hidraw'' @ n) = ''/sys/class/hidraw/serial''"
  unfolding serial_path_def base_hidraw [OF assms] by (rule join_serial) (use assms in \<open>simp add: plain_name_def\<close>)

text \<open>The serial number that names a dongle to the owner is never that of the dongle: on a system without a file
  \<open>/sys/class/hidraw/serial\<close>, which Linux does not have, it is empty for every device node.\<close>

lemma dongle_serial_unread:
  assumes "slash \<notin> set n" "w_files s ''/sys/class/hidraw/serial'' = None"
  shows "fst (usbSerial l (''/dev/hidraw'' @ n) s) = Inr []"
proof -
  obtain r t where "readFile ''/sys/class/hidraw/serial'' s = (r, t)" by (metis prod.exhaust)
  moreover from this assms(2) have "\<exists>x. r = Inl x" by (auto simp: readFile_def with_fault_def split: list.splits if_splits)
  ultimately show ?thesis using serial_path_fixed [OF assms(1)] by (auto simp: usbSerial_def bindS_def tryS_def)
qed

text \<open>A library whose state is what is open, with one dongle that holds one key.\<close>

definition toy_fido :: "int fido_lib" where
  "toy_fido = \<lparr>fl_goos = ''linux'', fl_nodes = [''/dev/hidraw0''], fl_open = (\<lambda>_ n. (OpenOK, n)), fl_strerr = (\<lambda>_. ''error''),
     fl_info_new = (\<lambda>_ n. (Some 1, n + 1)), fl_manifest = (\<lambda>_ _ n. ((0, [(''/dev/hidraw0'', ''Key'')]), n)), fl_info_free = (\<lambda>_ _ n. n - 1),
     fl_dev_new = (\<lambda>n. (Some 2, n + 1)), fl_dev_open = (\<lambda>_ _ n. (0, n + 1)), fl_dev_close = (\<lambda>_ n. n - 1), fl_dev_free = (\<lambda>_ n. n - 1),
     fl_has_pin = (\<lambda>_ n. (True, n)), fl_set_pin = (\<lambda>_ _ n. (0, n)), fl_cred_new = (\<lambda>n. (Some 3, n + 1)), fl_cred_free = (\<lambda>_ n. n - 1),
     fl_cred_set = (\<lambda>_ _ n. (0, n)), fl_make_cred = (\<lambda>_ _ _ n. (0x31, n)), fl_cred_type = (\<lambda>_ _. - 7),
     fl_cred_pubkey = (\<lambda>_ _. replicate 64 1), fl_cred_id = (\<lambda>_ _. [9]), fl_rk_new = (\<lambda>n. (Some 4, n + 1)), fl_rk_free = (\<lambda>_ n. n - 1),
     fl_get_rk = (\<lambda>_ _ _ _ n. (0, n)), fl_rk_creds = (\<lambda>_ _. [5]), fl_assert_new = (\<lambda>n. (Some 6, n + 1)), fl_assert_free = (\<lambda>_ n. n - 1),
     fl_assert_set = (\<lambda>_ _ n. (0, n)), fl_get_assert = (\<lambda>_ _ _ n. (0, n)), fl_asserts = (\<lambda>_ _. [(5, 1, [7])])\<rparr>"

lemma toy_fido_ledger: "fido_ledger toy_fido (\<lambda>n. n)"
  by (simp add: fido_ledger_def new_counts_def same_count_def toy_fido_def fidoOK_def)

definition toy_fido_world :: "int world" where
  "toy_fido_world = \<lparr>w_files = Map.empty, w_faults = [], w_stdin = [], w_out = [], w_rand = (\<lambda>_. 7), w_pos = 0, w_cache = Map.empty,
     w_now = 0, w_net = 0\<rparr>"


lemma dongle_serial_unread_instance:
  "fst (usbSerial toy_fido ''/dev/hidraw0'' toy_fido_world) = Inr []"
  using dongle_serial_unread [of "''0''" toy_fido_world toy_fido] by (simp add: toy_fido_world_def)

end
