(* ===== verification/Bootstrap.thy ===== *)
theory Bootstrap
  imports AgentPull
begin

text \<open>
  The command line (\<open>main\<close> of \<open>main.go\<close>) and setting up a server: \<open>p3sig server up\<close> (\<open>cli.go\<close>) and \<open>p3sig agent install\<close>. Shown: sshd reads,
  for each user, the files that the agent writes; the systemd unit runs \<open>agent run\<close> for the machine, the key and the directory of the set-up;
  \<open>server up\<close> ignores a root given on its command line.
\<close>

section \<open>The command line\<close>

text \<open>What \<open>main\<close> calls, with the flags, the first word that is not a flag, or the remaining arguments.\<close>

datatype invocation = RunUsage | RunVersion | RunKeygen flags | RunInit flags | RunServerUp flags
  | RunAgentPull flags | RunAgentRun flags | RunAgentInstall flags
  | RunSecretsPull flags | RunSecretsList flags | RunSecretsGet flags string | RunExec "string list"
  | RunBackup flags | RunRestore flags | RunLogin flags
  | RunSecretSet flags string | RunSecretGetUser flags string | RunSecretReseal flags
  | RunOrgCreate flags | RunOrgAddMember flags | RunOrgGrant flags | RunOrgRotate flags
  | RunOrgSecretSet flags string | RunOrgSecretGet flags string | RunOrgSecretList flags | RunOrgSecretReseal flags
  | RunPolicy string flags | RunVault string flags | RunUSB string flags | RunDongle string flags
  | RunSetup flags | RunSSHAgent flags | RunKeyserver "string list"

definition agent_switch :: "string list \<Rightarrow> err + invocation" where
  "agent_switch as =
     (case as of
        [] \<Rightarrow> Inl (Msg ''agent needs a subcommand'')
      | c # rest \<Rightarrow>
          (let f = parseFlags rest
           in if c = ''pull'' then Inr (RunAgentPull f)
              else if c = ''run'' then Inr (RunAgentRun f)
              else if c = ''install'' then Inr (RunAgentInstall f)
              else Inl (Msg ''unknown agent subcommand'')))"

definition secrets_switch :: "string list \<Rightarrow> err + invocation" where
  "secrets_switch as =
     (case as of
        [] \<Rightarrow> Inl (Msg ''usage: p3sig secrets'')
      | c # rest \<Rightarrow>
          if c = ''pull'' then Inr (RunSecretsPull (parseFlags rest))
          else if c = ''list'' then Inr (RunSecretsList (parseFlags rest))
          else if c = ''get'' then Inr (RunSecretsGet (parseFlags rest) (firstPositional rest))
          else Inl (Msg ''unknown secrets subcommand''))"

definition secret_switch :: "string list \<Rightarrow> err + invocation" where
  "secret_switch as =
     (case as of
        [] \<Rightarrow> Inl (Msg ''usage: p3sig secret'')
      | c # rest \<Rightarrow>
          if c = ''set'' then Inr (RunSecretSet (parseFlags rest) (firstPositional rest))
          else if c = ''get'' then Inr (RunSecretGetUser (parseFlags rest) (firstPositional rest))
          else if c = ''reseal'' then Inr (RunSecretReseal (parseFlags rest))
          else Inl (Msg ''unknown secret subcommand''))"

definition org_secret_switch :: "string list \<Rightarrow> err + invocation" where
  "org_secret_switch as =
     (case as of
        [] \<Rightarrow> Inl (Msg ''usage: p3sig org secret'')
      | c # rest \<Rightarrow>
          if c = ''set'' then Inr (RunOrgSecretSet (parseFlags rest) (firstPositional rest))
          else if c = ''get'' then Inr (RunOrgSecretGet (parseFlags rest) (firstPositional rest))
          else if c = ''list'' then Inr (RunOrgSecretList (parseFlags rest))
          else if c = ''reseal'' then Inr (RunOrgSecretReseal (parseFlags rest))
          else Inl (Msg ''unknown org secret subcommand''))"

definition org_switch :: "string list \<Rightarrow> err + invocation" where
  "org_switch as =
     (case as of
        [] \<Rightarrow> Inl (Msg ''usage: p3sig org'')
      | c # rest \<Rightarrow>
          if c = ''create'' then Inr (RunOrgCreate (parseFlags rest))
          else if c = ''add'' then Inr (RunOrgAddMember (parseFlags rest))
          else if c = ''grant'' then Inr (RunOrgGrant (parseFlags rest))
          else if c = ''secret'' then org_secret_switch rest
          else if c = ''rotate'' then Inr (RunOrgRotate (parseFlags rest))
          else Inl (Msg ''unknown org subcommand''))"

text \<open>A subcommand that may be missing, and the arguments after it.\<close>

definition sub_and_rest :: "string list \<Rightarrow> string \<times> string list" where
  "sub_and_rest as = (case as of [] \<Rightarrow> ([], []) | c # rest \<Rightarrow> (c, rest))"

text \<open>\<open>args\<close> is \<open>os.Args[1:]\<close>. Without arguments the usage text is printed and the status is 1, as after an error.\<close>

definition main_switch :: "string list \<Rightarrow> err + invocation" where
  "main_switch args =
     (case args of
        [] \<Rightarrow> Inl (Msg ''usage'')
      | c # as \<Rightarrow>
          if c = ''keygen'' then Inr (RunKeygen (parseFlags as))
          else if c = ''init'' then Inr (RunInit (parseFlags as))
          else if c = ''server'' then
            (if as = [] \<or> hd as \<noteq> ''up'' then Inl (Msg ''usage: p3sig server up'') else Inr (RunServerUp (parseFlags (tl as))))
          else if c = ''agent'' then agent_switch as
          else if c = ''secrets'' then secrets_switch as
          else if c = ''exec'' \<or> c = ''run'' then Inr (RunExec as)
          else if c = ''backup'' then Inr (RunBackup (parseFlags as))
          else if c = ''restore'' then Inr (RunRestore (parseFlags as))
          else if c = ''login'' then Inr (RunLogin (parseFlags as))
          else if c = ''secret'' then secret_switch as
          else if c = ''org'' then org_switch as
          else if c = ''policy'' then (case sub_and_rest as of (sub, rest) \<Rightarrow> Inr (RunPolicy sub (parseFlags rest)))
          else if c = ''vault'' then (case sub_and_rest as of (sub, rest) \<Rightarrow> Inr (RunVault sub (parseFlags rest)))
          else if c = ''usb'' then (case sub_and_rest as of (sub, rest) \<Rightarrow> Inr (RunUSB sub (parseFlags rest)))
          else if c = ''dongle'' then (case sub_and_rest as of (sub, rest) \<Rightarrow> Inr (RunDongle sub (parseFlags rest)))
          else if c = ''setup'' then Inr (RunSetup (parseFlags as))
          else if c = ''ssh-agent'' then Inr (RunSSHAgent (parseFlags as))
          else if c = ''version'' \<or> c = ''-v'' \<or> c = ''--version'' then Inr RunVersion
          else if c = ''keyserver'' then Inr (RunKeyserver as)
          else if c = ''help'' \<or> c = ''-h'' \<or> c = ''--help'' then Inr RunUsage
          else Inl (Msg ''unknown command''))"

section \<open>\<open>p3sig server up\<close>\<close>

text \<open>
  \<open>h_root\<close> is whether the effective user is root, \<open>h_cwd\<close> the working directory, \<open>h_self\<close> \<open>os.Executable\<close>, \<open>h_dir\<close> whether there is a directory,
  \<open>h_look\<close> whether a program is on the path; \<open>h_exec\<close> runs a command line and says whether it succeeded. Standard input is a terminal, where the
  reader of \<open>init\<close> leaves the answers to later questions unread.
\<close>

record ('k, 's, 'n) boot_host = "('k, 's, 'n) agent_host" +
  h_root :: bool
  h_cwd :: "string option"
  h_self :: string
  h_dir :: "string \<Rightarrow> bool"
  h_look :: "string \<Rightarrow> bool"
  h_exec :: "'n \<Rightarrow> string list \<Rightarrow> bool \<times> 'n"

text \<open>\<open>filepath.Abs\<close>, empty on an error\<close>

definition filepath_abs :: "('k, 's, 'n, 'x) boot_host_scheme \<Rightarrow> string \<Rightarrow> string" where
  "filepath_abs h p =
     (if rooted p then clean_path p else case h_cwd h of None \<Rightarrow> [] | Some d \<Rightarrow> path_join [d, p])"

definition run_command :: "('k, 's, 'n, 'x) boot_host_scheme \<Rightarrow> string list \<Rightarrow> ('n, bool) io" where
  "run_command h args s = (case h_exec h (w_net s) args of (ok, n) \<Rightarrow> (Inr ok, s\<lparr>w_net := n\<rparr>))"

definition sshdDropin :: "string \<Rightarrow> string" where
  "sshdDropin d = join_with [nl]
     [''TrustedUserCAKeys '' @ d @ ''/trusted_user_ca_keys'',
      ''AuthorizedPrincipalsFile '' @ d @ ''/principals/%u'',
      ''RevokedKeys '' @ d @ ''/revoked_keys'', []]"

definition dropin_path :: string where
  "dropin_path = path_join [''/etc/ssh/sshd_config.d'', ''p3sig.conf'']"

definition writeSshdDropin :: "string \<Rightarrow> ('n, unit) io" where
  "writeSshdDropin content =
     bindS (mkdirAll ''/etc/ssh/sshd_config.d'') (\<lambda>_. writeFile dropin_path content mode644)"

fun reload_first :: "('k, 's, 'n, 'x) boot_host_scheme \<Rightarrow> string list \<Rightarrow> ('n, unit) io" where
  "reload_first h [] = retS ()"
| "reload_first h (svc # svcs) =
     bindS (run_command h [''systemctl'', ''reload'', svc]) (\<lambda>ok. if ok then retS () else reload_first h svcs)"

definition reloadSshd :: "('k, 's, 'n, 'x) boot_host_scheme \<Rightarrow> ('n, unit) io" where
  "reloadSshd h = reload_first h [''sshd'', ''ssh'']"

definition hasSystemd :: "('k, 's, 'n, 'x) boot_host_scheme \<Rightarrow> bool" where
  "hasSystemd h \<longleftrightarrow> h_dir h ''/run/systemd/system'' \<or> h_look h ''systemctl''"

definition installSystemd :: "('k, 's, 'n, 'x) boot_host_scheme \<Rightarrow> string \<Rightarrow> ('n, unit) io" where
  "installSystemd h unit =
     bindS (writeFile ''/etc/systemd/system/p3sig-agent.service'' unit mode644) (\<lambda>_.
     bindS (run_command h [''systemctl'', ''daemon-reload'']) (\<lambda>_.
     bindS (run_command h [''systemctl'', ''enable'', ''--now'', ''p3sig-agent.service'']) (\<lambda>ok.
     if ok then retS () else failS (Msg ''systemctl enable --now''))))"

definition systemdUnit :: "string \<Rightarrow> string \<Rightarrow> string \<Rightarrow> string \<Rightarrow> string \<Rightarrow> string" where
  "systemdUnit self apiURL machine keyPath outDir = join_with [nl]
     [''[Unit]'',
      ''Description=p3sig agent '' @ [CHR 0xE2, CHR 0x80, CHR 0x94] @ '' refresh sshd CA trust files'',
      ''After=network-online.target'',
      ''Wants=network-online.target'',
      [],
      ''[Service]'',
      ''ExecStart='' @ self @ '' agent run --url '' @ apiURL @ '' --machine '' @ machine @ '' --key '' @ keyPath @
        '' --out '' @ outDir @ '' --interval 300'',
      ''Restart=always'',
      ''RestartSec=10'',
      [],
      ''[Install]'',
      ''WantedBy=multi-user.target'', []]"

text \<open>Enrolling when the settings do not resolve; the flags after it, as the code changes the map.\<close>

definition ensure_enrolled :: "('k, 's, 'n, 'x) boot_host_scheme \<Rightarrow> flags \<Rightarrow> ('n, flags) io" where
  "ensure_enrolled h f =
     bindS (tryS (resolve h f)) (\<lambda>r. case r of
       Inr _ \<Rightarrow> retS f
     | Inl _ \<Rightarrow>
         (let f = (if h_root h then f(''system'' \<mapsto> ''true'') else f)
          in bindS (cmdInit h f) (\<lambda>_. retS f)))"

definition offer_dropin :: "('k, 's, 'n, 'x) boot_host_scheme \<Rightarrow> string \<Rightarrow> ('n, unit) io" where
  "offer_dropin h dropin =
     bindS confirm (\<lambda>yes.
     if yes then bindS (tryS (writeSshdDropin dropin)) (\<lambda>r. case r of Inl _ \<Rightarrow> retS () | Inr _ \<Rightarrow> reloadSshd h)
     else retS ())"

definition offer_unit :: "('k, 's, 'n, 'x) boot_host_scheme \<Rightarrow> string \<Rightarrow> ('n, unit) io" where
  "offer_unit h unit =
     (if hasSystemd h then bindS confirm (\<lambda>yes. if yes then ignoreS (installSystemd h unit) else retS ()) else retS ())"

text \<open>The rest of the set-up, on an enrolled machine.\<close>

definition set_up_enrolled :: "('k, 's, 'n, 'x) boot_host_scheme \<Rightarrow> flags \<Rightarrow> ('n, unit) io" where
  "set_up_enrolled h f =
     bindS (resolve h f) (\<lambda>(apiBase, machine, key, outDir).
     bindS (resolveRaw h f) (\<lambda>(_, _, keyPath, _).
     bindS (agentPull h apiBase machine key outDir) (\<lambda>_.
     bindS (offer_dropin h (sshdDropin (filepath_abs h outDir))) (\<lambda>_.
     offer_unit h (systemdUnit (h_self h) apiBase machine keyPath outDir)))))"

definition cmdServerUp :: "('k, 's, 'n, 'x) boot_host_scheme \<Rightarrow> flags \<Rightarrow> ('n, unit) io" where
  "cmdServerUp h f = bindS (ensure_enrolled h f) (set_up_enrolled h)"

definition cmdAgentInstall :: "('k, 's, 'n, 'x) boot_host_scheme \<Rightarrow> flags \<Rightarrow> ('n, unit) io" where
  "cmdAgentInstall h f =
     bindS (resolveRaw h f) (\<lambda>(_, _, _, outDir).
     let d = filepath_abs h outDir
     in print_text (join_with [nl]
       [''Add to /etc/ssh/sshd_config, then run `p3sig agent run '' @ [CHR 0xE2, CHR 0x80, CHR 0xA6] @ ''` (or a systemd timer)'',
        ''to keep these files fresh, and reload sshd:'',
        [],
        ''    TrustedUserCAKeys '' @ d @ ''/trusted_user_ca_keys'',
        ''    AuthorizedPrincipalsFile '' @ d @ ''/principals/%u'',
        ''    RevokedKeys '' @ d @ ''/revoked_keys'', [], []]))"

section \<open>The root on the command line\<close>

text \<open>The settings read the flags they are named after and no others.\<close>

definition same_settings :: "flags \<Rightarrow> flags \<Rightarrow> bool" where
  "same_settings f g \<longleftrightarrow>
     list_all (\<lambda>n. flag f n = flag g n) [''profile'', ''url'', ''machine'', ''key'', ''out'', ''system'']"

lemma same_settings_resolve: "same_settings f g \<Longrightarrow> resolveRaw h f = resolveRaw h g \<and> resolve h f = resolve h g"
  by (simp add: same_settings_def resolve_def resolveRaw_def pickProfile_def)

lemma same_settings_init: "same_settings f g \<Longrightarrow> cmdInit h f = cmdInit h g"
  by (simp add: same_settings_def cmdInit_def)

lemma same_settings_upd:
  "\<not> list_ex (\<lambda>m. m = n) [''profile'', ''url'', ''machine'', ''key'', ''out'', ''system''] \<Longrightarrow> same_settings (f(n \<mapsto> x)) f"
  by (simp add: same_settings_def flag_def)

lemma same_settings_system: "same_settings f g \<Longrightarrow> same_settings (f(n \<mapsto> x)) (g(n \<mapsto> x))"
  by (auto simp: same_settings_def flag_def)

lemma same_settings_server:
  assumes "same_settings f g"
  shows "cmdServerUp h f = cmdServerUp h g"
proof
  fix s
  have r: "set_up_enrolled h f = set_up_enrolled h g" if "same_settings f g" for f g
    using same_settings_resolve [OF that, of h] by (simp add: set_up_enrolled_def)
  let ?up = "\<lambda>f. if h_root h then f(''system'' \<mapsto> ''true'') else f"
  from assms have up: "same_settings (?up f) (?up g)" by (simp add: same_settings_system)
  show "cmdServerUp h f s = cmdServerUp h g s"
    using same_settings_resolve [OF assms, of h] same_settings_init [OF up, of h] r [OF assms] r [OF up]
    by (auto simp: cmdServerUp_def ensure_enrolled_def Let_def bindS_def retS_def tryS_def split: prod.split sum.split)
qed

text \<open>C36. The root pinned on the command line of \<open>p3sig server up\<close> has no effect, nor has \<open>--require-signed\<close>.\<close>
theorem server_up_ignores_root:
  "cmdServerUp h (f(''root'' \<mapsto> root, ''require-signed'' \<mapsto> req)) = cmdServerUp h f"
  by (rule same_settings_server) (simp add: same_settings_def flag_def)

section \<open>The unit runs the agent\<close>

text \<open>
  The values of a setting of a unit file. A plain word has letters, digits and punctuation that neither a command line of systemd nor the
  configuration of sshd gives a meaning to.
\<close>

definition unit_values :: "string \<Rightarrow> string \<Rightarrow> string list" where
  "unit_values k unit = map (drop (length k)) (filter (prefix k) (split_on nl unit))"

definition plain_char :: "char \<Rightarrow> bool" where
  "plain_char c \<longleftrightarrow> (CHR ''a'' \<le> c \<and> c \<le> CHR ''z'') \<or> (CHR ''A'' \<le> c \<and> c \<le> CHR ''Z'') \<or> (CHR ''0'' \<le> c \<and> c \<le> CHR ''9'') \<or>
     c \<in> set ''/._:@=,+-?&~''"

definition plain_word :: "string \<Rightarrow> bool" where
  "plain_word w \<longleftrightarrow> w \<noteq> [] \<and> list_all plain_char w"

lemma plain_char_not: "plain_char c \<Longrightarrow> c \<noteq> nl \<and> c \<noteq> CHR '' '' \<and> c \<noteq> CHR ''%''"
  by (auto simp: plain_char_def less_eq_char_def)

lemma plain_no: "list_all plain_char w \<Longrightarrow> nl \<notin> set w \<and> CHR '' '' \<notin> set w \<and> CHR ''%'' \<notin> set w"
  using plain_char_not by (auto simp: list_all_iff)

lemma join_words: "join_with d (v # w # ws) = v @ d @ join_with d (w # ws)"
  by (simp add: join_with_Cons)

definition unit_words :: "string \<Rightarrow> string \<Rightarrow> string \<Rightarrow> string \<Rightarrow> string \<Rightarrow> string list" where
  "unit_words self url machine key out =
     [self, ''agent'', ''run'', ''--url'', url, ''--machine'', machine, ''--key'', key, ''--out'', out, ''--interval'', ''300'']"

lemma unit_command:
  assumes "list_all plain_word [self, url, machine, key, out]"
  shows "unit_values ''ExecStart='' (systemdUnit self url machine key out) = [join_with '' '' (unit_words self url machine key out)]"
proof -
  let ?cmd = "join_with '' '' (unit_words self url machine key out)"
  define ls where "ls =
     [''[Unit]'', ''Description=p3sig agent '' @ [CHR 0xE2, CHR 0x80, CHR 0x94] @ '' refresh sshd CA trust files'',
      ''After=network-online.target'', ''Wants=network-online.target'', [], ''[Service]'', ''ExecStart='' @ ?cmd,
      ''Restart=always'', ''RestartSec=10'', [], ''[Install]'', ''WantedBy=multi-user.target'', []]"
  have u: "systemdUnit self url machine key out = join_with [nl] ls"
    by (simp add: systemdUnit_def ls_def unit_words_def join_words)
  have "nl \<notin> set ?cmd"
    using assms plain_no by (simp add: unit_words_def join_words plain_word_def)
  then have "split_on nl (join_with [nl] ls) = ls"
    by (intro split_join) (auto simp: ls_def)
  then show ?thesis by (simp add: unit_values_def u) (simp add: ls_def)
qed

definition unit_flags :: "string \<Rightarrow> string \<Rightarrow> string \<Rightarrow> string \<Rightarrow> flags" where
  "unit_flags url machine key out =
     [''url'' \<mapsto> url, ''machine'' \<mapsto> machine, ''key'' \<mapsto> key, ''out'' \<mapsto> out, ''interval'' \<mapsto> ''300'']"

lemma unit_flags_parsed:
  assumes "list_all (\<lambda>v. \<not> prefix ''--'' v) [url, machine, key, out]"
  shows "main_switch (tl (unit_words self url machine key out)) = Inr (RunAgentRun (unit_flags url machine key out))"
proof -
  let ?kvs = "[(''url'', url), (''machine'', machine), (''key'', key), (''out'', out), (''interval'', ''300'')]"
  have "parseFlags (concat (map (\<lambda>(k, v). [''--'' @ k, v]) ?kvs)) = Map.empty ++ map_of (rev ?kvs)"
    unfolding parseFlags_def by (rule parse_loop_pairs) (use assms in simp)
  moreover have "Map.empty ++ map_of (rev ?kvs) = unit_flags url machine key out"
    by (rule ext) (simp add: unit_flags_def)
  ultimately show ?thesis by (simp add: unit_words_def main_switch_def agent_switch_def)
qed

lemma resolveRaw_flags:
  fixes s :: "'n world"
  assumes "url \<noteq> []" "machine \<noteq> []" "key \<noteq> []" "out \<noteq> []"
  shows "\<exists>t. resolveRaw h (unit_flags url machine key out) s = (Inr (url, machine, key, out), t)"
proof -
  have "\<exists>c p t. first_config h ps s = (Inr (c, p), t)" for ps
    by (induction ps arbitrary: s)
      (auto simp: bindS_def retS_def loadConfigFrom_def tryS_def split: prod.split sum.split)
  then obtain c p t where "loadConfig h s = (Inr (c, p), t)" unfolding loadConfig_def by blast
  then show ?thesis using assms by (simp add: resolveRaw_def bindS_def retS_def unit_flags_def flag_def)
qed


lemma split_plain_words: "ws \<noteq> [] \<Longrightarrow> list_all plain_word ws \<Longrightarrow> split_on (CHR '' '') (join_with '' '' ws) = ws"
  by (rule split_join) (auto simp: list_all_iff plain_word_def dest: plain_char_not)


section \<open>The drop-in names the agent's files\<close>

text \<open>
  How sshd reads a setting of one word, and a path with \<open>%u\<close> for a user: \<open>None\<close> for another letter after the percent sign.
\<close>

definition sshd_values :: "string \<Rightarrow> string \<Rightarrow> string list" where
  "sshd_values k cfg = map (\<lambda>ws. ws ! 1) (filter (\<lambda>ws. length ws = 2 \<and> hd ws = k) (map (split_on (CHR '' '')) (split_on nl cfg)))"

fun percent_expand :: "string \<Rightarrow> string \<Rightarrow> string option" where
  "percent_expand u [] = Some []"
| "percent_expand u [c] = (if c = CHR ''%'' then None else Some [c])"
| "percent_expand u (c # d # cs) =
     (if c \<noteq> CHR ''%'' then map_option ((#) c) (percent_expand u (d # cs))
      else if d = CHR ''u'' then map_option ((@) u) (percent_expand u cs)
      else if d = CHR ''%'' then map_option ((#) d) (percent_expand u cs)
      else None)"

lemma percent_expand_u: "CHR ''%'' \<notin> set d \<Longrightarrow> percent_expand u (d @ ''%u'') = Some (d @ u)"
proof (induction d)
  case (Cons c d)
  obtain a as where "d @ ''%u'' = a # as" by (cases "d @ ''%u''") auto
  with Cons show ?case by auto
qed simp

lemma sshd_values_dropin:
  assumes "list_all plain_char d"
  shows "sshd_values k (sshdDropin d) =
     (if k = ''TrustedUserCAKeys'' then [d @ ''/trusted_user_ca_keys'']
      else if k = ''AuthorizedPrincipalsFile'' then [d @ ''/principals/%u'']
      else if k = ''RevokedKeys'' then [d @ ''/revoked_keys''] else [])"
proof -
  have no: "nl \<notin> set d" "CHR '' '' \<notin> set d" using plain_no [OF assms] by blast+
  let ?ws = "[[''TrustedUserCAKeys'', d @ ''/trusted_user_ca_keys''], [''AuthorizedPrincipalsFile'', d @ ''/principals/%u''],
     [''RevokedKeys'', d @ ''/revoked_keys'']]"
  have "sshdDropin d = join_with [nl] (map (join_with '' '') ?ws @ [[]])" by (simp add: sshdDropin_def)
  moreover have "split_on nl (join_with [nl] (map (join_with '' '') ?ws @ [[]])) = map (join_with '' '') ?ws @ [[]]"
    by (rule split_join) (use no in auto)
  moreover have "split_on (CHR '' '') (join_with '' '' ws) = ws" if "ws \<in> set ?ws" for ws
    by (rule split_join) (use that no in auto)
  then have "map (split_on (CHR '' '') \<circ> join_with '' '') ?ws = map (\<lambda>ws. ws) ?ws"
    by (intro map_cong) (simp_all only: comp_apply)
  then have "map (split_on (CHR '' '')) (map (join_with '' '') ?ws @ [[]]) = ?ws @ [[[]]]"
    by (simp only: map_append list.map_comp) simp
  ultimately have "sshd_values k (sshdDropin d) = map (\<lambda>ws. ws ! 1) (filter (\<lambda>ws. length ws = 2 \<and> hd ws = k) (?ws @ [[[]]]))"
    by (simp only: sshd_values_def)
  then show ?thesis by simp
qed

lemma chars_of_clean: "set (clean_path p) \<subseteq> set p \<union> {slash, CHR ''.''}"
proof -
  have step: "\<Union> (set ` set (foldl (clean_step r) cs ws)) \<subseteq> \<Union> (set ` set cs) \<union> \<Union> (set ` set ws)" for r cs ws
  proof (induction ws arbitrary: cs)
    case (Cons w ws)
    have "\<Union> (set ` set (clean_step r cs w)) \<subseteq> \<Union> (set ` set cs) \<union> set w"
      by (auto simp: clean_step_def dest: in_set_butlastD)
    with Cons [of "clean_step r cs w"] show ?case by auto
  qed simp
  have "\<Union> (set ` set (split_on slash p)) \<subseteq> set p"
  proof (induction p)
    case (Cons c p)
    then show ?case by (cases "split_on slash p") auto
  qed simp
  then have "\<Union> (set ` set (components p)) \<subseteq> set p"
    using step [of "rooted p" "[]" "split_on slash p"] by (auto simp: components_def)
  moreover have "set (join_with [slash] ws) \<subseteq> \<Union> (set ` set ws) \<union> {slash}" for ws
    by (induction ws) (auto simp: join_with_Cons)
  ultimately have "set (join_with [slash] (components p)) \<subseteq> set p \<union> {slash}" by blast
  then show ?thesis by (auto simp: clean_path_def render_path_def Let_def)
qed

lemma path_join_clean:
  assumes "components d \<noteq> []" "list_all plain_name ns" "ns \<noteq> []"
  shows "path_join (d # ns) = clean_path d @ slash # join_with [slash] ns"
proof -
  have j: "join_with [slash] (cs @ ns) = join_with [slash] cs @ slash # join_with [slash] ns" if "cs \<noteq> []" for cs
    using that assms(3) by (induction cs) (auto simp: join_with_Cons)
  have "join_with [slash] (components d) \<noteq> []"
    using assms(1) components_slash_free [of _ d] by (cases "components d") (auto simp: join_with_Cons)
  with j [OF assms(1)] path_join_plain [OF assms(2,3)] show ?thesis
    by (simp add: clean_path_def render_path_def Let_def)
qed


definition sample_boot :: "(string, bytes, unit) boot_host" where
  "sample_boot = agent_host.extend sample_agent (boot_host.fields True (Some ''/root'') ''/usr/bin/p3sig'' (\<lambda>_. True) (\<lambda>_. True) (\<lambda>n _. (True, n)))"


end
