(* ===== verification/Spec2Isabelle.thy ===== *)
theory Spec2Isabelle
  imports Backup Register Review Vault Windows Enclave Fido Bootstrap
begin

text \<open>
  A verification library for \<open>p3sig\<close>, an agent for a zero-knowledge vault and SSH certificate authority (Go, \<open>src/*.go\<close>).

  \<^bold>\<open>The program.\<close> One binary with many commands. A machine is enrolled (\<open>init\<close>), pulls the CA keys, principals and revocation list that sshd
  reads (\<open>agent pull\<close>, \<open>agent run\<close>), and opens the secrets sealed to its key (\<open>secrets\<close>, \<open>exec\<close>). The owner of an account keeps a root key on a
  vault stick, delegates signing to dongles or chip keys, and signs the policy that agents accept (\<open>policy\<close>, \<open>usb\<close>, \<open>dongle\<close>); a key server gives
  web applications their bundle keys (\<open>keyserver\<close>). The server in the middle is not trusted: what agents and owners believe is what verifies against
  a pinned root. That boundary is where most of the properties are.

  \<^bold>\<open>How the code is modelled.\<close> Bytes are 8-bit words, strings lists of 8-bit characters, Go's \<open>int64\<close> an \<open>int\<close> with \<open>i64\<close> where it wraps. Pure functions
  return \<open>'e + 'a\<close>. Commands run on the state \<open>world\<close> of theory \<open>World\<close>: files with a list of faults still to come (an operation that meets one fails,
  a write perhaps after a part), standard input and output, random bytes, the clock, and the outside \<open>'n\<close> (servers, chips, dongles). What is not
  in \<open>src/\<close> is a field of the host record, extended from theory to theory: \<open>host\<close>, \<open>cli_host\<close>, \<open>usb_host\<close>, \<open>key_host\<close>, \<open>agent_host\<close>, \<open>owner_host\<close>,
  \<open>refresh_host\<close> and so on; the hypotheses on such fields (a signature that a key made verifies, JSON that was written is read back) are premises of the theorems,
  each with a concrete host in the witness.

  \<^bold>\<open>Theories.\<close>
  \<^item> Foundations: \<open>Prelude\<close> (results, state passing, invariants of operations), \<open>GoStrings\<close> (\<open>strings\<close>, \<open>strconv\<close>, \<open>sort\<close>, \<open>hex\<close>), \<open>GoTime\<close>, \<open>Base64\<close>,
    \<open>Paths\<close> (\<open>path/filepath\<close>), \<open>World\<close> (the state, files, signed requests of \<open>main.go\<close>).
  \<^item> \<open>GF256\<close>, \<open>Interpolation\<close>, \<open>Shamir\<close> (\<open>shamir.go\<close>); \<open>Cards\<close> and \<open>Backup\<close> (\<open>backup.go\<close>): the field, the sharing, the printed cards, \<open>backup\<close> and \<open>restore\<close>.
  \<^item> \<open>Wrap\<close> (\<open>wrap.go\<close>), \<open>UsbVault\<close> and \<open>Register\<close> (\<open>usbvault.go\<close>, \<open>usbdetect_other.go\<close>): the wrapped blobs, the sticks that hold them, a new key on the account.
  \<^item> \<open>Settings\<close> and \<open>Keys\<close> (\<open>cli.go\<close>, \<open>main.go\<close>): configuration, flags, terminal, key files, \<open>init\<close>, \<open>login\<close>. \<open>Bootstrap\<close>: the switch of \<open>main\<close>, \<open>server up\<close>.
  \<^item> \<open>Policy\<close> (\<open>policy.go\<close>, \<open>account_policy.go\<close>) verifies; \<open>AgentPull\<close> (\<open>main.go\<close>) pulls and writes; \<open>Owner\<close> (\<open>policy_cli.go\<close>) and \<open>Refresh\<close>
    (\<open>account_policy_cli.go\<close>) sign; \<open>Review\<close> is the text that is confirmed before.
  \<^item> \<open>Seal\<close> (\<open>org.go\<close>), \<open>Secret\<close> (\<open>secret.go\<close> and the commands of \<open>cli.go\<close>), \<open>OrgCli\<close> (\<open>org_cli.go\<close>): values, names and organization keys sealed to keys.
  \<^item> \<open>Vault\<close> (\<open>vault.go\<close>): the check of the browser vault.
  \<^item> \<open>Keyserver\<close> (\<open>keyserver.go\<close>: requests, replay guard, rate limit, events) and \<open>KsCli\<close> (its commands, the statistics).
  \<^item> \<open>Ecdsa\<close>, \<open>Chip\<close>, \<open>KeyStore\<close> (\<open>keystore.go\<close>, \<open>keystore_linux.go\<close>, \<open>agent.go\<close>, \<open>listen_other.go\<close>); \<open>WinHello\<close>, \<open>WinStore\<close>, \<open>Windows\<close> (\<open>keystore_windows.go\<close>);
    \<open>Enclave\<close> (\<open>keystore_darwin.go\<close>): keys in a chip on the three systems. \<open>Dongle\<close> (\<open>dongle.go\<close>) and \<open>Fido\<close> (\<open>dongle_libfido2.go\<close>): FIDO2 keys.
  \<^item> This theory: properties that span them, the separation of everything that is signed and the number of posts of a request.

  \<^bold>\<open>Interfaces.\<close> \<open>sharing\<close> (what \<open>backup\<close> needs of secret sharing) is interpreted by \<open>Shamir\<close>'s functions; \<open>sealing\<close> (what the vault needs of sealed boxes) by those
  of \<open>Seal\<close>; \<open>chip_store\<close> (what the agent and the key server need of a keystore: an abstract map from labels to public keys and its step relation \<open>store_step\<close>)
  by the Linux store, for every TPM that fulfils \<open>tpm_library\<close>, and by the Windows store, for every CNG that fulfils \<open>cng_library\<close>. Both
  library locales, whose laws are about code outside \<open>src/\<close>, are also interpreted by small instances, so that the laws can hold together.

  \<^bold>\<open>What the lemmas show.\<close> Verification is characterised exactly (who signed what, which version, until when). The state machines have invariants
  by rule induction: \<open>agent_runs\<close>, any number of pulls against any server, clock and disk, and \<open>ks_run\<close>, any run of the key server with events and reloads.
  Every write of a file of sshd is old or new in full, whatever fails. Round trips join the two ends of a path: what the refresher, the owner, the
  device, \<open>seal\<close>, \<open>backup\<close> or the stick make is what agents, machines, servers and \<open>restore\<close> take. Where the code does something else than its comments say,
  the theorem states what the code does.

  \<^bold>\<open>Bounds.\<close> \<open>agent run\<close> never ends: \<open>cmdAgentRun n\<close> is its first \<open>n\<close> rounds, and its properties hold for every \<open>n\<close>. \<open>split_fields_fuel\<close> and
  \<open>strip_seqs\<close> take the length of the text, as each step removes a byte. All other recursion is structural or has a measure.

  \<^bold>\<open>Not modelled.\<close> The HTTP server (the library calls the handler that is modelled; its timeouts and shutdown are its own), the accept loops and
  goroutines around \<open>agent.ServeAgent\<close>; the named pipe and the drive letters of Windows (\<open>listen_windows.go\<close>, \<open>usbdetect_windows.go\<close>), whose paths are not those of
  \<open>Paths\<close>; \<open>keystore_stub.go\<close>, a fixed error; \<open>stty\<close>; the usage text, prompts, warnings and the values formatted into error texts; wiping buffers,
  which has no effect on values; directories, of which only the creation can fail. Requests of the key server are run one after the other; a
  clock that is read before the lock is taken is the subject of a lemma in \<open>Keyserver\<close>.
\<close>

section \<open>Signed messages of different kinds\<close>

text \<open>The contexts of everything that is signed as a line of its own before the payload.\<close>

definition signing_contexts :: "string list" where
  "signing_contexts = all_contexts @ [ctxSecret, deviceAuthCtx, freshnessAuthCtx]"

lemma signing_contexts_lines: "c \<in> set signing_contexts \<Longrightarrow> \<exists>l. c = l @ [nl] \<and> nl \<notin> set l"
proof -
  have "list_all (\<lambda>c. c \<noteq> [] \<and> last c = nl \<and> nl \<notin> set (butlast c)) [ctxSecret, deviceAuthCtx, freshnessAuthCtx]"
    by (simp add: ctxSecret_def deviceAuthCtx_def freshnessAuthCtx_def)
  then have more: "c \<noteq> [] \<and> last c = nl \<and> nl \<notin> set (butlast c)" if "c \<in> set [ctxSecret, deviceAuthCtx, freshnessAuthCtx]"
    using that by (auto simp: list_all_iff)
  assume "c \<in> set signing_contexts"
  then consider "c \<in> set all_contexts" | "c \<in> set [ctxSecret, deviceAuthCtx, freshnessAuthCtx]" by (auto simp: signing_contexts_def)
  then show ?thesis
  proof cases
    case 2
    from more [OF this] append_butlast_last_id [of c] show ?thesis by (intro exI [of _ "butlast c"]) simp
  qed (rule all_contexts_lines)
qed

text \<open>Messages without a newline: the requests of the account's keys, and those to the key server.\<close>

lemma auth_no_newline: "nl \<notin> set (auth_message (b64_encode pub) now)"
  using b64_encode_chars [of nl pub] alphabet_no_newline [of nl] format_int_excludes [of nl "unixOf now"]
  by (auto simp: auth_message_def digit_val_def simp del: b64_encode.simps)

lemma add_no_newline: "nl \<notin> set (add_message (b64_encode pub) now)"
  using auth_no_newline [of pub now] by (simp add: add_message_def auth_message_def del: b64_encode.simps)

lemma context_differs:
  assumes "c \<in> set signing_contexts" "nl \<notin> set m"
  shows "bytes_of c @ p \<noteq> bytes_of m"
proof
  assume "bytes_of c @ p = bytes_of m"
  then have "string_of (bytes_of c @ p) = m" by simp
  with signing_contexts_lines [OF assms(1)] have "nl \<in> set m"
    by (metis in_set_conv_decomp set_append string_of_append string_of_bytes_of UnI1)
  with assms(2) show False by blast
qed

text \<open>The first field of a message is not Base64 when it has a hyphen.\<close>

lemma b64_field_differs:
  assumes "CHR ''-'' \<in> set w" "CHR ''|'' \<notin> set w"
  shows "b64_encode pub @ CHR ''|'' # x \<noteq> w @ CHR ''|'' # y"
proof
  assume e: "b64_encode pub @ CHR ''|'' # x = w @ CHR ''|'' # y"
  have "CHR ''|'' \<notin> set (b64_encode pub)" using b64_encode_chars [of "CHR ''|''" pub] alphabet_no_newline by blast
  from first_field [OF e this assms(2)] have "b64_encode pub = w" by simp
  with assms(1) b64_encode_chars [of "CHR ''-''" pub] show False by (simp add: b64_alphabet_def b64_val_def del: b64_encode.simps)
qed

lemma prefix_of_context:
  assumes "take 7 c \<noteq> ''p3sig-k'' \<and> 7 \<le> length c" "take 7 (string_of m) = ''p3sig-k''"
  shows "bytes_of c @ p \<noteq> m"
proof
  assume "bytes_of c @ p = m"
  then have "string_of m = c @ string_of p" by auto
  with assms show False by simp
qed



section \<open>Requests end\<close>

definition gateway_error :: "int \<Rightarrow> bool" where
  "gateway_error status \<longleftrightarrow> status = 502 \<or> status = 503 \<or> status = 504"


text \<open>A server that answers its first request with 503.\<close>

definition counting_host :: "(string, bytes, nat) host" where
  "counting_host = \<lparr>h_env = Map.empty, h_config_dir = None, h_home = [], h_sign = (\<lambda>k m. m), h_public = (\<lambda>s. s),
     h_http = (\<lambda>n u f. (Some (if n = 0 then 503 else 200, ''b''), Suc n)), h_response = (\<lambda>_. Some ([], [])),
     h_wrap = example_crypto, h_card = example_card, h_policy = sample_env\<rparr>"

definition counting_world :: "nat world" where
  "counting_world = \<lparr>w_files = Map.empty, w_faults = [], w_stdin = [], w_out = [], w_rand = (\<lambda>_. 7), w_pos = 0, w_cache = Map.empty,
     w_now = 0, w_net = 0\<rparr>"


end
